(* ===== verification/Portal_Prelude.thy ===== *)
theory Portal_Prelude
  imports Main "HOL-Library.Word" "HOL-Library.Sublist"
begin

text \<open>
  Shared vocabulary of the development: the types that stand for Go's basic types, the
  functions of Go's standard packages \<^verbatim>\<open>strings\<close>, \<^verbatim>\<open>bytes\<close>, \<^verbatim>\<open>strconv\<close>, \<^verbatim>\<open>encoding/hex\<close>
  and \<^verbatim>\<open>encoding/binary\<close> that the sources use, and the generic facts about them.

  A Go \<^verbatim>\<open>string\<close> is a sequence of bytes, here \<^typ>\<open>string\<close>; a \<^verbatim>\<open>[]byte\<close> is a list of 8-bit
  words.  The case mapping and white-space classes of \<^verbatim>\<open>strings\<close> are those of ASCII: host
  names, header names, policy tokens and Git protocol lines are ASCII, and a byte above 127
  is left alone.  The iteration order of a Go map is not determined by the language; an
  operation that ranges over a map takes the order of that run as an argument, and
  \<open>iterates\<close> says that it lists every key once.
\<close>

subsection \<open>Collections of rules\<close>

named_theorems go_str \<open>evaluation of the string library\<close>
named_theorems go_inv \<open>invariant preservation, one fact per operation\<close>

subsection \<open>Types\<close>

type_synonym byte = "8 word"
type_synonym bytes = "8 word list"

text \<open>Go's conversions \<^verbatim>\<open>string(b)\<close> and \<^verbatim>\<open>[]byte(s)\<close>.\<close>

definition byte_of_char :: "char \<Rightarrow> byte" where
  "byte_of_char c = word_of_nat (of_char c)"

definition char_of_byte :: "byte \<Rightarrow> char" where
  "char_of_byte b = char_of (unat b)"

definition to_bytes :: "string \<Rightarrow> bytes" where
  "to_bytes s = map byte_of_char s"

definition of_bytes :: "bytes \<Rightarrow> string" where
  "of_bytes b = map char_of_byte b"

lemma char_of_byte_of_char [simp]: "char_of_byte (byte_of_char c) = c"
proof -
  have "(of_char c :: nat) < 256" by simp
  then show ?thesis
    by (simp add: char_of_byte_def byte_of_char_def unat_of_nat)
qed

lemma byte_of_char_of_byte [simp]: "byte_of_char (char_of_byte b) = b"
proof -
  have "unat b < 2 ^ LENGTH(8)" by (rule unsigned_less)
  then show ?thesis
    by (simp add: char_of_byte_def byte_of_char_def)
qed

lemma of_bytes_to_bytes [simp]: "of_bytes (to_bytes s) = s"
  by (simp add: of_bytes_def to_bytes_def o_def)

lemma to_bytes_of_bytes [simp]: "to_bytes (of_bytes b) = b"
  by (simp add: of_bytes_def to_bytes_def o_def)

lemma length_to_bytes [simp]: "length (to_bytes s) = length s"
  by (simp add: to_bytes_def)

lemma length_of_bytes [simp]: "length (of_bytes s) = length s"
  by (simp add: of_bytes_def)

lemma to_bytes_append [simp]: "to_bytes (s @ t) = to_bytes s @ to_bytes t"
  by (simp add: to_bytes_def)

lemma of_bytes_append [simp]: "of_bytes (s @ t) = of_bytes s @ of_bytes t"
  by (simp add: of_bytes_def)

lemma to_bytes_inject [simp]: "to_bytes s = to_bytes t \<longleftrightarrow> s = t"
  by (metis of_bytes_to_bytes)

lemma to_bytes_Nil [simp]: "to_bytes [] = []"
  by (simp add: to_bytes_def)

lemma to_bytes_Cons [simp]: "to_bytes (c # s) = byte_of_char c # to_bytes s"
  by (simp add: to_bytes_def)

lemma of_bytes_Nil [simp]: "of_bytes [] = []"
  by (simp add: of_bytes_def)

lemma of_bytes_Cons [simp]: "of_bytes (c # s) = char_of_byte c # of_bytes s"
  by (simp add: of_bytes_def)

lemma take_to_bytes: "take n (to_bytes s) = to_bytes (take n s)"
  by (simp add: to_bytes_def take_map)

subsection \<open>Iteration order of a Go map\<close>

definition iterates :: "'k list \<Rightarrow> ('k \<rightharpoonup> 'v) \<Rightarrow> bool" where
  "iterates ord m \<longleftrightarrow> distinct ord \<and> set ord = dom m"

lemma iterates_set: "iterates ord m \<Longrightarrow> set ord = dom m"
  by (simp add: iterates_def)

lemma iterates_finite: "iterates ord m \<Longrightarrow> finite (dom m)"
  by (metis iterates_set List.finite_set)

lemma iterates_exists: "finite (dom m) \<Longrightarrow> \<exists>ord. iterates ord m"
  by (metis finite_distinct_list iterates_def)

subsection \<open>Package strings\<close>

definition has_prefix :: "'a list \<Rightarrow> 'a list \<Rightarrow> bool" where
  "has_prefix s p \<longleftrightarrow> take (length p) s = p"

definition has_suffix :: "'a list \<Rightarrow> 'a list \<Rightarrow> bool" where
  "has_suffix s p \<longleftrightarrow> length p \<le> length s \<and> drop (length s - length p) s = p"

definition trim_prefix :: "'a list \<Rightarrow> 'a list \<Rightarrow> 'a list" where
  "trim_prefix s p = (if has_prefix s p then drop (length p) s else s)"

definition trim_suffix :: "'a list \<Rightarrow> 'a list \<Rightarrow> 'a list" where
  "trim_suffix s p = (if has_suffix s p then take (length s - length p) s else s)"

text \<open>\<^verbatim>\<open>strings.Index\<close>: the position of the first occurrence.\<close>

fun index_of :: "'a list \<Rightarrow> 'a list \<Rightarrow> nat option" where
  "index_of [] pat = (if pat = [] then Some 0 else None)"
| "index_of (c # s) pat =
     (if has_prefix (c # s) pat then Some 0 else map_option Suc (index_of s pat))"

definition contains :: "'a list \<Rightarrow> 'a list \<Rightarrow> bool" where
  "contains s pat \<longleftrightarrow> index_of s pat \<noteq> None"

lemma has_prefix_iff: "has_prefix s p \<longleftrightarrow> (\<exists>r. s = p @ r)"
  by (auto simp: has_prefix_def) (metis append_take_drop_id)

lemma has_prefix_append [simp]: "has_prefix (p @ r) p"
  by (auto simp: has_prefix_iff)

lemma has_prefix_Nil [simp]: "has_prefix s []"
  by (simp add: has_prefix_def)

lemma has_prefix_Nil_left [simp]: "has_prefix [] p \<longleftrightarrow> p = []"
  by (auto simp: has_prefix_def)

lemma has_prefix_Cons [simp]:
  "has_prefix (c # s) (d # p) \<longleftrightarrow> c = d \<and> has_prefix s p"
  by (auto simp: has_prefix_def)

lemma has_prefix_refl [simp]: "has_prefix s s"
  by (simp add: has_prefix_def)

lemma has_suffix_iff: "has_suffix s p \<longleftrightarrow> (\<exists>r. s = r @ p)"
  by (auto simp: has_suffix_def) (metis append_take_drop_id)

lemma has_suffix_append [simp]: "has_suffix (r @ p) p"
  by (auto simp: has_suffix_iff)

lemma trim_prefix_append [simp]: "trim_prefix (p @ r) p = r"
  by (simp add: trim_prefix_def)

lemma trim_suffix_append [simp]: "trim_suffix (r @ p) p = r"
  by (simp add: trim_suffix_def)

lemma index_of_Some:
  "index_of s pat = Some i \<Longrightarrow> i + length pat \<le> length s \<and> take (length pat) (drop i s) = pat"
proof (induction s arbitrary: i)
  case Nil
  then show ?case by (simp split: if_splits)
next
  case (Cons c s)
  show ?case
  proof (cases "has_prefix (c # s) pat")
    case True
    with Cons.prems have "i = 0" by simp
    moreover from True obtain r where "c # s = pat @ r" by (auto simp: has_prefix_iff)
    ultimately show ?thesis by (metis add_0 append_eq_conv_conj drop0 le_add1 length_append)
  next
    case False
    with Cons.prems obtain j where "index_of s pat = Some j" "i = Suc j" by auto
    with Cons.IH show ?thesis by simp
  qed
qed

lemma index_of_append:
  "index_of s pat = Some i \<Longrightarrow> s = take i s @ pat @ drop (i + length pat) s"
  using index_of_Some [of s pat i]
  by (metis add.commute append_take_drop_id drop_drop)

lemma index_of_single_None [simp]: "index_of s [c] = None \<longleftrightarrow> c \<notin> set s"
  by (induction s) auto

lemma index_of_single_Some:
  "index_of s [c] = Some i \<Longrightarrow> i < length s \<and> s ! i = c \<and> c \<notin> set (take i s)"
proof (induction s arbitrary: i)
  case Nil
  then show ?case by simp
next
  case (Cons d s)
  then show ?case by (cases "d = c") auto
qed

lemma index_of_None_iff: "index_of s pat = None \<longleftrightarrow> (\<nexists>u v. s = u @ pat @ v)"
proof (induction s)
  case Nil
  then show ?case by auto
next
  case (Cons c s)
  have "(\<exists>u v. c # s = u @ pat @ v) \<longleftrightarrow> has_prefix (c # s) pat \<or> (\<exists>u v. s = u @ pat @ v)"
    by (auto simp: has_prefix_iff Cons_eq_append_conv)
  with Cons show ?case by auto
qed

lemma contains_iff: "contains s pat \<longleftrightarrow> (\<exists>u v. s = u @ pat @ v)"
  using index_of_None_iff [of s pat] by (auto simp: contains_def)

lemma contains_single [simp]: "contains s [c] \<longleftrightarrow> c \<in> set s"
  using index_of_single_None [of s c] by (auto simp: contains_def)

text \<open>
  \<^verbatim>\<open>strings.Split\<close> and \<^verbatim>\<open>strings.SplitN(s, sep, 2)\<close> for a separator that is not empty (the
  sources use no other).
\<close>

function split_on :: "'a list \<Rightarrow> 'a list \<Rightarrow> 'a list list" where
  "split_on s sep =
     (if sep = [] then [s]
      else case index_of s sep of
             None \<Rightarrow> [s]
           | Some i \<Rightarrow> take i s # split_on (drop (i + length sep) s) sep)"
  by pat_completeness auto
termination
proof (relation "measure (\<lambda>(s, sep). length s)", goal_cases)
  case 1
  then show ?case by simp
next
  case (2 s sep i)
  then show ?case using index_of_Some [of s sep i] by (cases sep) auto
qed

declare split_on.simps [simp del]

definition split_2 :: "'a list \<Rightarrow> 'a list \<Rightarrow> 'a list list" where
  "split_2 s sep =
     (case index_of s sep of
        None \<Rightarrow> [s]
      | Some i \<Rightarrow> [take i s, drop (i + length sep) s])"

fun join_with :: "'a list \<Rightarrow> 'a list list \<Rightarrow> 'a list" where
  "join_with sep [] = []"
| "join_with sep [s] = s"
| "join_with sep (s # t # ts) = s @ sep @ join_with sep (t # ts)"

lemma split_on_not_Nil [simp]: "split_on s sep \<noteq> []"
  by (subst split_on.simps) (auto split: option.split)

lemma join_with_Cons: "ts \<noteq> [] \<Longrightarrow> join_with sep (s # ts) = s @ sep @ join_with sep ts"
  by (cases ts) auto

lemma join_split_on: "join_with sep (split_on s sep) = s"
proof (induction s sep rule: split_on.induct)
  case (1 s sep)
  show ?case
  proof (cases "sep = []")
    case True
    then show ?thesis by (simp add: split_on.simps [of s "[]"])
  next
    case False
    show ?thesis
    proof (cases "index_of s sep")
      case None
      with False show ?thesis by (simp add: split_on.simps [of s sep])
    next
      case (Some i)
      with False "1" have "join_with sep (split_on (drop (i + length sep) s) sep)
          = drop (i + length sep) s" by simp
      with False Some show ?thesis
        using index_of_append [OF Some]
        by (simp add: split_on.simps [of s sep] join_with_Cons)
    qed
  qed
qed

lemma split_on_single_Nil [simp]: "split_on [] [c] = [[]]"
  by (simp add: split_on.simps)

lemma split_on_single_Cons [simp]:
  "split_on (d # s) [c] =
     (if d = c then [] # split_on s [c] else (d # hd (split_on s [c])) # tl (split_on s [c]))"
proof (cases "d = c")
  case True
  then show ?thesis by (subst split_on.simps) simp
next
  case False
  show ?thesis
  proof (cases "index_of s [c]")
    case None
    with False show ?thesis
      by (simp add: split_on.simps [of "d # s"] split_on.simps [of s]
            del: index_of_single_None)
  next
    case (Some i)
    with False show ?thesis
      by (simp add: split_on.simps [of "d # s"] split_on.simps [of s]
            del: index_of_single_None)
  qed
qed

lemma split_on_single_free: "t \<in> set (split_on s [c]) \<Longrightarrow> c \<notin> set t"
proof (induction s arbitrary: t)
  case Nil
  then show ?case by simp
next
  case (Cons d s)
  show ?case
  proof (cases "d = c")
    case True
    with Cons show ?thesis by auto
  next
    case False
    with Cons.prems consider "t = d # hd (split_on s [c])" | "t \<in> set (tl (split_on s [c]))"
      by auto
    then show ?thesis
    proof cases
      case 1
      with False Cons.IH [of "hd (split_on s [c])"] show ?thesis by (simp)
    next
      case 2
      then have "t \<in> set (split_on s [c])" by (meson list.set_sel(2) split_on_not_Nil)
      with Cons.IH show ?thesis by blast
    qed
  qed
qed

lemma split_on_single_id: "c \<notin> set s \<Longrightarrow> split_on s [c] = [s]"
  by (induction s) auto

text \<open>\<^verbatim>\<open>strings.ToLower\<close>, \<^verbatim>\<open>strings.EqualFold\<close>, \<^verbatim>\<open>strings.TrimSpace\<close>, \<^verbatim>\<open>strings.Fields\<close>, \<^verbatim>\<open>strings.TrimRight\<close>.\<close>

definition char_lower :: "char \<Rightarrow> char" where
  "char_lower c =
     (let n = (of_char c :: nat) in if 65 \<le> n \<and> n \<le> 90 then char_of (n + 32) else c)"

definition to_lower :: "string \<Rightarrow> string" where
  "to_lower s = map char_lower s"

definition equal_fold :: "string \<Rightarrow> string \<Rightarrow> bool" where
  "equal_fold s t \<longleftrightarrow> to_lower s = to_lower t"

definition is_space :: "char \<Rightarrow> bool" where
  "is_space c \<longleftrightarrow> (let n = (of_char c :: nat) in 9 \<le> n \<and> n \<le> 13 \<or> n = 32)"

definition trim_right_if :: "('a \<Rightarrow> bool) \<Rightarrow> 'a list \<Rightarrow> 'a list" where
  "trim_right_if P s = rev (dropWhile P (rev s))"

definition trim_space :: "string \<Rightarrow> string" where
  "trim_space s = trim_right_if is_space (dropWhile is_space s)"

fun split_ws :: "string \<Rightarrow> string list" where
  "split_ws [] = [[]]"
| "split_ws (c # s) =
     (if is_space c then [] # split_ws s else (c # hd (split_ws s)) # tl (split_ws s))"

definition fields :: "string \<Rightarrow> string list" where
  "fields s = filter (\<lambda>w. w \<noteq> []) (split_ws s)"

lemma char_lower_idem [simp]: "char_lower (char_lower c) = char_lower c"
  by (simp add: char_lower_def Let_def)

lemma to_lower_idem [simp]: "to_lower (to_lower s) = to_lower s"
  by (simp add: to_lower_def)

lemma to_lower_append [simp]: "to_lower (s @ t) = to_lower s @ to_lower t"
  by (simp add: to_lower_def)

lemma to_lower_Nil [simp]: "to_lower [] = []"
  by (simp add: to_lower_def)

lemma to_lower_Cons [simp]: "to_lower (c # s) = char_lower c # to_lower s"
  by (simp add: to_lower_def)

lemma length_to_lower [simp]: "length (to_lower s) = length s"
  by (simp add: to_lower_def)

lemma to_lower_eq_Nil [simp]: "to_lower s = [] \<longleftrightarrow> s = []"
  by (simp add: to_lower_def)

lemma equal_fold_refl [simp]: "equal_fold s s"
  by (simp add: equal_fold_def)

lemma equal_fold_sym: "equal_fold s t \<longleftrightarrow> equal_fold t s"
  by (auto simp: equal_fold_def)

lemma trim_right_if_snoc:
  "trim_right_if P (s @ [c]) = (if P c then trim_right_if P s else s @ [c])"
  by (simp add: trim_right_if_def)

lemma trim_right_if_id: "s = [] \<or> \<not> P (last s) \<Longrightarrow> trim_right_if P s = s"
  by (cases s rule: rev_cases) (auto simp: trim_right_if_def)

lemma trim_right_if_last: "trim_right_if P s \<noteq> [] \<Longrightarrow> \<not> P (last (trim_right_if P s))"
  by (induction s rule: rev_induct) (auto simp: trim_right_if_snoc, simp add: trim_right_if_def)

lemma trim_right_if_prefix: "\<exists>r. s = trim_right_if P s @ r \<and> (\<forall>x\<in>set r. P x)"
proof (induction s rule: rev_induct)
  case Nil
  show ?case by (simp add: trim_right_if_def)
next
  case (snoc c s)
  then obtain r where r: "s = trim_right_if P s @ r" "\<forall>x\<in>set r. P x" by blast
  then have eq: "s @ [c] = trim_right_if P s @ (r @ [c])" by (metis append.assoc)
  show ?case
  proof (cases "P c")
    case True
    then have t: "trim_right_if P (s @ [c]) = trim_right_if P s"
      by (simp add: trim_right_if_snoc)
    show ?thesis
      unfolding t using eq r(2) True by (intro exI [of _ "r @ [c]"]) simp
  next
    case False
    then show ?thesis by (simp add: trim_right_if_snoc)
  qed
qed

lemma trim_space_id:
  "s = [] \<or> \<not> is_space (hd s) \<and> \<not> is_space (last s) \<Longrightarrow> trim_space s = s"
  by (cases s) (auto simp: trim_space_def trim_right_if_id)

lemma trim_space_no_space: "(\<forall>c\<in>set s. \<not> is_space c) \<Longrightarrow> trim_space s = s"
  by (intro trim_space_id) (cases s; auto)

lemma split_ws_not_Nil [simp]: "split_ws s \<noteq> []"
  by (cases s) auto

lemma split_ws_code [code]:
  "split_ws [] = [[]]"
  "split_ws (c # s) =
     (case split_ws s of
        w # ws \<Rightarrow> if is_space c then [] # w # ws else (c # w) # ws
      | [] \<Rightarrow> [])"
  by (auto split: list.split)

lemma split_ws_free: "t \<in> set (split_ws s) \<Longrightarrow> c \<in> set t \<Longrightarrow> \<not> is_space c"
proof (induction s arbitrary: t)
  case Nil
  then show ?case by simp
next
  case (Cons d s)
  show ?case
  proof (cases "is_space d")
    case True
    with Cons show ?thesis by auto
  next
    case False
    with Cons.prems consider "t = d # hd (split_ws s)" | "t \<in> set (tl (split_ws s))"
      by auto
    then show ?thesis
    proof cases
      case 1
      with False Cons.prems Cons.IH [of "hd (split_ws s)"] show ?thesis by auto
    next
      case 2
      with Cons show ?thesis by (meson list.set_sel(2) split_ws_not_Nil)
    qed
  qed
qed

lemma fields_free: "w \<in> set (fields s) \<Longrightarrow> w \<noteq> [] \<and> (\<forall>c\<in>set w. \<not> is_space c)"
  by (auto simp: fields_def dest: split_ws_free)

lemma split_ws_append_space:
  "is_space c \<Longrightarrow> split_ws (s @ c # t) = split_ws s @ split_ws t"
  by (induction s) auto

lemma split_ws_word: "\<forall>c\<in>set s. \<not> is_space c \<Longrightarrow> split_ws s = [s]"
  by (induction s) auto

lemma fields_Nil [simp]: "fields [] = []"
  by (simp add: fields_def)

lemma fields_append_space: "is_space c \<Longrightarrow> fields (s @ c # t) = fields s @ fields t"
  by (simp add: fields_def split_ws_append_space)

lemma fields_word: "s \<noteq> [] \<Longrightarrow> \<forall>c\<in>set s. \<not> is_space c \<Longrightarrow> fields s = [s]"
  by (simp add: fields_def split_ws_word)

lemma fields_spaces: "\<forall>c\<in>set s. is_space c \<Longrightarrow> fields (s @ t) = fields t"
  by (induction s) (use fields_append_space [of _ "[]"] in auto)

lemma fields_spaces_end:
  assumes "\<forall>c\<in>set t. is_space c"
  shows "fields (s @ t) = fields s"
proof (cases t)
  case Nil
  then show ?thesis by simp
next
  case (Cons c t')
  then show ?thesis using assms fields_spaces [of t' "[]"] by (simp add: fields_append_space)
qed

lemma fields_trim_space: "fields (trim_space s) = fields s"
proof -
  obtain r where r: "dropWhile is_space s = trim_space s @ r" "\<forall>x\<in>set r. is_space x"
    using trim_right_if_prefix [of "dropWhile is_space s" is_space] by (auto simp: trim_space_def)
  have "fields s = fields (takeWhile is_space s @ dropWhile is_space s)" by simp
  also have "\<dots> = fields (dropWhile is_space s)"
    by (rule fields_spaces) (auto dest: set_takeWhileD)
  also have "\<dots> = fields (trim_space s)" unfolding r(1) by (rule fields_spaces_end [OF r(2)])
  finally show ?thesis by simp
qed

subsection \<open>Numbers as text\<close>

definition hex_digit :: "nat \<Rightarrow> char" where
  "hex_digit n = (if n < 10 then char_of (48 + n) else char_of (87 + n))"

definition hex_val :: "char \<Rightarrow> nat option" where
  "hex_val c =
     (let n = (of_char c :: nat) in
      if 48 \<le> n \<and> n \<le> 57 then Some (n - 48)
      else if 97 \<le> n \<and> n \<le> 102 then Some (n - 87)
      else if 65 \<le> n \<and> n \<le> 70 then Some (n - 55)
      else None)"

text \<open>\<^verbatim>\<open>hex.EncodeToString\<close> and the verb \<^verbatim>\<open>%x\<close> on a byte slice.\<close>

definition hex_encode :: "bytes \<Rightarrow> string" where
  "hex_encode b = concat (map (\<lambda>x. [hex_digit (unat x div 16), hex_digit (unat x mod 16)]) b)"

fun hex_val_list :: "string \<Rightarrow> nat \<Rightarrow> nat option" where
  "hex_val_list [] acc = Some acc"
| "hex_val_list (c # s) acc =
     (case hex_val c of None \<Rightarrow> None | Some d \<Rightarrow> hex_val_list s (acc * 16 + d))"

text \<open>The verb \<^verbatim>\<open>%x\<close> on a number, the verb \<^verbatim>\<open>%04x\<close>, and the verb \<^verbatim>\<open>%d\<close>.\<close>

fun hex_str :: "nat \<Rightarrow> string" where
  "hex_str n = (if n < 16 then [hex_digit n] else hex_str (n div 16) @ [hex_digit (n mod 16)])"

declare hex_str.simps [simp del]

definition hex_pad4 :: "nat \<Rightarrow> string" where
  "hex_pad4 n = (let s = hex_str n in replicate (4 - length s) (CHR ''0'') @ s)"

fun dec_str :: "nat \<Rightarrow> string" where
  "dec_str n = (if n < 10 then [char_of (48 + n)] else dec_str (n div 10) @ [char_of (48 + n mod 10)])"

declare dec_str.simps [simp del]

lemma hex_val_digit [simp]: "n < 16 \<Longrightarrow> hex_val (hex_digit n) = Some n"
  by (auto simp: hex_val_def hex_digit_def Let_def)

lemma hex_val_list_append:
  "hex_val_list (s @ t) acc = Option.bind (hex_val_list s acc) (hex_val_list t)"
  by (induction s arbitrary: acc) (auto split: option.split)

lemma hex_val_list_zeros [simp]:
  "hex_val_list (replicate k (CHR ''0'') @ s) 0 = hex_val_list s 0"
  by (induction k) (auto simp: hex_val_def)

lemma hex_val_list_str: "hex_val_list (hex_str n) 0 = Some n"
proof (induction n rule: hex_str.induct)
  case (1 n)
  show ?case
  proof (cases "n < 16")
    case True
    then show ?thesis by (simp add: hex_str.simps [of n])
  next
    case False
    with "1" show ?thesis
      by (simp add: hex_str.simps [of n] hex_val_list_append)
  qed
qed

lemma hex_val_list_pad4: "hex_val_list (hex_pad4 n) 0 = Some n"
  by (simp add: hex_pad4_def Let_def hex_val_list_str)

lemma length_hex_str: "n < 16 ^ k \<Longrightarrow> 0 < k \<Longrightarrow> length (hex_str n) \<le> k"
proof (induction n arbitrary: k rule: hex_str.induct)
  case (1 n)
  show ?case
  proof (cases "n < 16")
    case True
    with "1.prems" show ?thesis by (simp add: hex_str.simps [of n])
  next
    case False
    with "1.prems" obtain j where j: "k = Suc j" "0 < j"
      by (cases k; cases "k - 1") auto
    with "1.prems" have "n div 16 < 16 ^ j" by (simp add: less_mult_imp_div_less mult.commute)
    with "1.IH" [OF False this j(2)] False j show ?thesis
      by (simp add: hex_str.simps [of n])
  qed
qed

lemma length_hex_pad4: "n < 65536 \<Longrightarrow> length (hex_pad4 n) = 4"
  using length_hex_str [of n 4] by (simp add: hex_pad4_def Let_def)

subsection \<open>Package encoding/binary, big endian\<close>

fun be_val :: "bytes \<Rightarrow> nat" where
  "be_val [] = 0"
| "be_val (b # bs) = unat b * 256 ^ length bs + be_val bs"

definition be_uint16 :: "bytes \<Rightarrow> nat" where
  "be_uint16 b = be_val (take 2 b)"

definition be_uint32 :: "bytes \<Rightarrow> nat" where
  "be_uint32 b = be_val (take 4 b)"

definition put_be :: "nat \<Rightarrow> nat \<Rightarrow> bytes" where
  "put_be k n = map (\<lambda>i. word_of_nat (n div 256 ^ i)) (rev [0..<k])"

lemma length_put_be [simp]: "length (put_be k n) = k"
  by (simp add: put_be_def)

lemma put_be_Suc: "put_be (Suc k) n = word_of_nat (n div 256 ^ k) # put_be k n"
  by (simp add: put_be_def)

lemma be_val_put_be: "be_val (put_be k n) = n mod 256 ^ k"
proof (induction k)
  case 0
  show ?case by (simp add: put_be_def)
next
  case (Suc k)
  have "n mod 256 ^ Suc k = (n div 256 ^ k mod 256) * 256 ^ k + n mod 256 ^ k"
    by (metis div_mult_mod_eq mod_mult2_eq mult.commute power_Suc2 add.commute power_Suc)
  with Suc show ?case by (simp add: put_be_Suc unat_of_nat)
qed

lemma be_uint32_put: "n < 4294967296 \<Longrightarrow> be_uint32 (put_be 4 n @ rest) = n"
  by (simp add: be_uint32_def be_val_put_be)

lemma be_uint16_put: "n < 65536 \<Longrightarrow> be_uint16 (put_be 2 n @ rest) = n"
  by (simp add: be_uint16_def be_val_put_be)

subsection \<open>Splitting what was joined\<close>

lemma split_on_append_single:
  "c \<notin> set s \<Longrightarrow> split_on (s @ c # t) [c] = s # split_on t [c]"
  by (induction s) auto

lemma split_join_single:
  "ts \<noteq> [] \<Longrightarrow> (\<And>t. t \<in> set ts \<Longrightarrow> c \<notin> set t) \<Longrightarrow> split_on (join_with [c] ts) [c] = ts"
proof (induction ts)
  case Nil
  then show ?case by simp
next
  case (Cons t ts)
  show ?case
  proof (cases "ts = []")
    case True
    with Cons.prems show ?thesis by (simp add: split_on_single_id)
  next
    case False
    with Cons show ?thesis by (simp add: join_with_Cons split_on_append_single)
  qed
qed

subsection \<open>Early return\<close>

text \<open>\<^verbatim>\<open>if err != nil { return err }\<close> after a call, as sequencing of computations that may fail.\<close>

definition fail_with :: "('a \<Rightarrow> 'e) \<Rightarrow> 'a + 'b \<Rightarrow> 'e + 'b" where
  "fail_with f r = (case r of Inl e \<Rightarrow> Inl (f e) | Inr x \<Rightarrow> Inr x)"

definition and_then :: "'e + 'a \<Rightarrow> ('a \<Rightarrow> 'e + 'b) \<Rightarrow> 'e + 'b" where
  "and_then m f = (case m of Inl e \<Rightarrow> Inl e | Inr a \<Rightarrow> f a)"

lemma and_then_simps [simp]: "and_then (Inl e) f = Inl e" "and_then (Inr a) f = f a"
  by (simp_all add: and_then_def)

lemma and_then_Inr: "and_then m f = Inr b \<longleftrightarrow> (\<exists>a. m = Inr a \<and> f a = Inr b)"
  by (cases m) simp_all

definition fail_if :: "'e option \<Rightarrow> 'e + unit" where
  "fail_if e = (case e of Some x \<Rightarrow> Inl x | None \<Rightarrow> Inr ())"

lemma fail_if_Inr [simp]: "fail_if e = Inr u \<longleftrightarrow> e = None"
  by (simp add: fail_if_def split: option.splits)

subsection \<open>Package filepath\<close>

fun clean_segments :: "bool \<Rightarrow> string list \<Rightarrow> string list \<Rightarrow> string list" where
  "clean_segments rooted out [] = rev out"
| "clean_segments rooted out (seg # segs) =
     (if seg = [] \<or> seg = ''.'' then clean_segments rooted out segs
      else if seg = ''..'' then
        (case out of
           [] \<Rightarrow> clean_segments rooted (if rooted then [] else [''..'']) segs
         | o1 # os \<Rightarrow> clean_segments rooted (if o1 = ''..'' then ''..'' # out else os) segs)
      else clean_segments rooted (seg # out) segs)"

definition path_clean :: "string \<Rightarrow> string" where
  "path_clean p =
     (let rooted = has_prefix p ''/''; out = join_with ''/'' (clean_segments rooted [] (split_on p ''/''))
      in if rooted then ''/'' @ out else if out = [] then ''.'' else out)"

definition path_join :: "string \<Rightarrow> string \<Rightarrow> string" where
  "path_join a b =
     (let parts = filter (\<lambda>p. p \<noteq> []) [a, b] in if parts = [] then [] else path_clean (join_with ''/'' parts))"


lemma clean_segments_snoc:
  "n \<noteq> [] \<Longrightarrow> n \<noteq> ''.'' \<Longrightarrow> n \<noteq> ''..'' \<Longrightarrow> clean_segments rooted out (segs @ [n]) = clean_segments rooted out segs @ [n]"
  by (induction rooted out segs rule: clean_segments.induct) (auto split: list.splits)

lemma join_with_snoc: "join_with sep (ss @ [s]) = (if ss = [] then s else join_with sep ss @ sep @ s)"
  by (induction sep ss rule: join_with.induct) auto

lemma split_on_snoc_single: "c \<notin> set n \<Longrightarrow> split_on (d @ c # n) [c] = split_on d [c] @ [n]"
  by (induction d) (auto simp: split_on_single_id)

text \<open>Joining a directory and a plain name appends the name to the cleaned directory.\<close>

lemma path_join_plain:
  assumes "d \<noteq> []" and "n \<noteq> []" and "n \<noteq> ''.''" and "n \<noteq> ''..''" and "CHR ''/'' \<notin> set n"
  obtains p where "path_join d n = p @ n" and "path_clean d = ''.'' \<or> length (path_clean d) < length (path_join d n)"
proof -
  let ?r = "has_prefix d ''/''" let ?c = "clean_segments ?r [] (split_on d ''/'')"
  have s: "split_on (d @ ''/'' @ n) ''/'' = split_on d ''/'' @ [n]"
    using assms(5) by (simp add: split_on_snoc_single)
  have r: "has_prefix (d @ ''/'' @ n) ''/'' = ?r" using assms(1) by (cases d) (auto simp: has_prefix_def)
  have j: "path_join d n = (let out = join_with ''/'' (?c @ [n]) in if ?r then ''/'' @ out else if out = [] then ''.'' else out)"
    using assms by (simp only: path_join_def path_clean_def r s clean_segments_snoc) (simp add: path_clean_def Let_def r [simplified] s [simplified] clean_segments_snoc)
  have o: "join_with ''/'' (?c @ [n]) = (if ?c = [] then n else join_with ''/'' ?c @ ''/'' @ n)" by (rule join_with_snoc)
  show thesis
    by (rule that [of "(if ?r then ''/'' else []) @ (if ?c = [] then [] else join_with ''/'' ?c @ ''/'')"])
      (use assms(2) in \<open>auto simp: j o path_clean_def Let_def\<close>)
qed

end
