(* ===== verification/Http_Model.thy ===== *)
theory Http_Model
  imports Portal_Prelude
begin

text \<open>
  The parts of Go's \<^verbatim>\<open>net/http\<close> that the programs use: header maps with canonical keys
  (\<^verbatim>\<open>textproto.CanonicalMIMEHeaderKey\<close>, \<^verbatim>\<open>Get\<close>, \<^verbatim>\<open>Set\<close>, \<^verbatim>\<open>Add\<close>, \<^verbatim>\<open>Del\<close>), requests, responses with a
  body that is read in chunks and may fail, and the response writer of a handler, whose writes
  fail once the client is gone.  \<open>http_hdr\<close> collects the rewrite rules on headers.
\<close>

named_theorems http_hdr

subsection \<open>Header maps\<close>

type_synonym header = "string \<rightharpoonup> string list"

definition is_token_char :: "char \<Rightarrow> bool" where
  "is_token_char c \<longleftrightarrow>
     (let n = (of_char c :: nat) in
      48 \<le> n \<and> n \<le> 57 \<or> 65 \<le> n \<and> n \<le> 90 \<or> 97 \<le> n \<and> n \<le> 122) \<or>
     c \<in> set (''!#$%&*+-.^_|~'' @ [CHR 0x27, CHR 0x60])"

definition char_upper :: "char \<Rightarrow> char" where
  "char_upper c = (let n = (of_char c :: nat) in if 97 \<le> n \<and> n \<le> 122 then char_of (n - 32) else c)"

fun title_key :: "bool \<Rightarrow> string \<Rightarrow> string" where
  "title_key up [] = []"
| "title_key up (c # s) =
     (let d = (if up then char_upper c else char_lower c) in d # title_key (d = CHR ''-'') s)"

definition canonical_key :: "string \<Rightarrow> string" where
  "canonical_key s = (if list_all is_token_char s then title_key True s else s)"

definition hdr_values :: "header \<Rightarrow> string \<Rightarrow> string list" where
  "hdr_values h k = (case h (canonical_key k) of None \<Rightarrow> [] | Some vs \<Rightarrow> vs)"

definition hdr_get :: "header \<Rightarrow> string \<Rightarrow> string" where
  "hdr_get h k = (case hdr_values h k of [] \<Rightarrow> [] | v # _ \<Rightarrow> v)"

definition hdr_set :: "string \<Rightarrow> string \<Rightarrow> header \<Rightarrow> header" where
  "hdr_set k v h = h(canonical_key k \<mapsto> [v])"

definition hdr_add :: "string \<Rightarrow> string \<Rightarrow> header \<Rightarrow> header" where
  "hdr_add k v h = h(canonical_key k \<mapsto> hdr_values h k @ [v])"

definition hdr_del :: "string \<Rightarrow> header \<Rightarrow> header" where
  "hdr_del k h = h(canonical_key k := None)"

text \<open>The loop that adds every value of a header map, visiting the keys in the order \<open>ord\<close>.\<close>

definition hdr_add_all :: "string list \<Rightarrow> header \<Rightarrow> header \<Rightarrow> header" where
  "hdr_add_all ord src h =
     fold (\<lambda>k h. case src k of None \<Rightarrow> h | Some vs \<Rightarrow> fold (hdr_add k) vs h) ord h"

definition canonical_header :: "header \<Rightarrow> bool" where
  "canonical_header h \<longleftrightarrow> (\<forall>k\<in>dom h. canonical_key k = k)"

lemma char_upper_idem [simp]: "char_upper (char_upper c) = char_upper c"
  by (auto simp: char_upper_def Let_def)

lemma title_key_idem [simp]: "title_key up (title_key up s) = title_key up s"
  by (induction up s rule: title_key.induct) (auto simp: Let_def)

lemma is_token_upper: "is_token_char c \<Longrightarrow> is_token_char (char_upper c)"
  by (auto simp: is_token_char_def char_upper_def Let_def)

lemma is_token_lower: "is_token_char c \<Longrightarrow> is_token_char (char_lower c)"
  by (auto simp: is_token_char_def char_lower_def Let_def)

lemma title_key_token: "list_all is_token_char s \<Longrightarrow> list_all is_token_char (title_key up s)"
  by (induction up s rule: title_key.induct) (auto simp: Let_def is_token_upper is_token_lower)

lemma canonical_key_idem [simp]: "canonical_key (canonical_key k) = canonical_key k"
  by (simp add: canonical_key_def title_key_token)

lemma hdr_values_set [http_hdr]:
  "hdr_values (hdr_set k v h) k' = (if canonical_key k = canonical_key k' then [v] else hdr_values h k')"
  by (simp add: hdr_values_def hdr_set_def)

lemma hdr_values_add [http_hdr]:
  "hdr_values (hdr_add k v h) k' =
     (if canonical_key k = canonical_key k' then hdr_values h k' @ [v] else hdr_values h k')"
  by (simp add: hdr_values_def hdr_add_def)

lemma hdr_values_del [http_hdr]:
  "hdr_values (hdr_del k h) k' = (if canonical_key k = canonical_key k' then [] else hdr_values h k')"
  by (simp add: hdr_values_def hdr_del_def)

lemma hdr_values_fold_del:
  "hdr_values (fold hdr_del ks h) k = (if canonical_key k \<in> canonical_key ` set ks then [] else hdr_values h k)"
  by (induction ks arbitrary: h) (auto simp: hdr_values_del image_iff)

lemma hdr_fold_del_apply:
  "fold hdr_del ks h k = (if k \<in> canonical_key ` set ks then None else h k)"
  by (induction ks arbitrary: h) (auto simp: hdr_del_def)

lemma hdr_values_fold_add:
  "hdr_values (fold (hdr_add k) vs h) k' =
     (if canonical_key k = canonical_key k' then hdr_values h k' @ vs else hdr_values h k')"
  by (induction vs arbitrary: h) (auto simp: hdr_values_add)

lemma hdr_get_values [http_hdr]: "hdr_get h k = (case hdr_values h k of [] \<Rightarrow> [] | v # _ \<Rightarrow> v)"
  by (simp add: hdr_get_def)

text \<open>Copying a canonical header map appends its values, in any visiting order.\<close>

lemma hdr_values_add_all:
  assumes "distinct ord" and "set ord = dom src" and "canonical_header src"
  shows "hdr_values (hdr_add_all ord src h) k = hdr_values h k @ hdr_values src k"
proof -
  have fold: "hdr_values (hdr_add_all ks src h) k =
          (if canonical_key k \<in> set ks then hdr_values h k @ hdr_values src k else hdr_values h k)"
    if "distinct ks" and "set ks \<subseteq> dom src" for ks h
    using that
  proof (induction ks arbitrary: h)
    case (Cons q ks)
    then obtain vs where q: "src q = Some vs" by auto
    have "canonical_key q = q" using Cons.prems assms(3) by (simp add: canonical_header_def)
    with q Cons show ?case
      by (auto simp: hdr_add_all_def hdr_values_fold_add) (simp_all add: hdr_values_def)
  qed (simp add: hdr_add_all_def)
  show ?thesis using fold [of ord h] assms by (auto simp: hdr_values_def split: option.splits)
qed

subsection \<open>Requests and responses\<close>

record URL =
  u_scheme :: string
  u_host :: string
  u_path :: string
  u_rawpath :: string
  u_rawquery :: string

record Request =
  rq_method :: string
  rq_url :: URL
  rq_host :: string
  rq_header :: header
  rq_body :: bytes
  rq_remote :: string

text \<open>A body: the chunks its reads return, and whether it then ends (or fails).\<close>

record Body =
  bd_chunks :: "bytes list"
  bd_complete :: bool

record Response =
  rs_status :: int
  rs_header :: header
  rs_body :: Body
  rs_trailer :: header

definition body_of :: "bytes \<Rightarrow> Body" where
  "body_of b = \<lparr>bd_chunks = [b], bd_complete = True\<rparr>"

definition read_all :: "Body \<Rightarrow> bytes option" where
  "read_all b = (if bd_complete b then Some (concat (bd_chunks b)) else None)"

text \<open>\<^verbatim>\<open>http.RoundTripper\<close>: sends a request into the world and returns an error or a response.\<close>

type_synonym 'w transport = "Request \<Rightarrow> 'w \<Rightarrow> (string + Response) \<times> 'w"

subsection \<open>The response writer\<close>

text \<open>
  \<open>rw_sent\<close> is the header map at the time of \<^verbatim>\<open>WriteHeader\<close>, which is what the client receives;
  \<open>rw_left\<close> is the number of writes that still succeed (\<^const>\<open>None\<close>: all of them).
\<close>

record ResponseWriter =
  rw_header :: header
  rw_status :: "int option"
  rw_sent :: header
  rw_body :: bytes
  rw_left :: "nat option"

definition new_writer :: "nat option \<Rightarrow> ResponseWriter" where
  "new_writer left =
     \<lparr>rw_header = (\<lambda>_. None), rw_status = None, rw_sent = (\<lambda>_. None), rw_body = [], rw_left = left\<rparr>"

definition write_header :: "int \<Rightarrow> ResponseWriter \<Rightarrow> ResponseWriter" where
  "write_header code w =
     (case rw_status w of
        Some _ \<Rightarrow> w
      | None \<Rightarrow> w\<lparr>rw_status := Some code, rw_sent := rw_header w\<rparr>)"

text \<open>\<^verbatim>\<open>Write\<close>: the first component says whether it returned an error.\<close>

definition rw_write :: "bytes \<Rightarrow> ResponseWriter \<Rightarrow> bool \<times> ResponseWriter" where
  "rw_write b w0 =
     (let w = write_header 200 w0 in
      case rw_left w of
        Some 0 \<Rightarrow> (True, w)
      | Some (Suc n) \<Rightarrow> (False, w\<lparr>rw_body := rw_body w @ b, rw_left := Some n\<rparr>)
      | None \<Rightarrow> (False, w\<lparr>rw_body := rw_body w @ b\<rparr>))"

definition http_error :: "string \<Rightarrow> int \<Rightarrow> ResponseWriter \<Rightarrow> ResponseWriter" where
  "http_error msg code w =
     (let h = hdr_set ''X-Content-Type-Options'' ''nosniff''
                (hdr_set ''Content-Type'' ''text/plain; charset=utf-8''
                  (hdr_del ''Content-Length'' (rw_header w)))
      in snd (rw_write (to_bytes (msg @ [CHR 0x0A])) (write_header code (w\<lparr>rw_header := h\<rparr>))))"

lemma write_header_status [simp]:
  "rw_status (write_header c w) = (case rw_status w of Some s \<Rightarrow> Some s | None \<Rightarrow> Some c)"
  by (simp add: write_header_def split: option.splits)

lemma write_header_body [simp]: "rw_body (write_header c w) = rw_body w"
  "rw_left (write_header c w) = rw_left w" "rw_header (write_header c w) = rw_header w"
  by (simp_all add: write_header_def split: option.splits)

lemma write_header_again [simp]: "rw_status w = Some s \<Longrightarrow> write_header c w = w"
  by (simp add: write_header_def)

lemma rw_write_status [simp]:
  "rw_status (snd (rw_write b w)) = (case rw_status w of Some s \<Rightarrow> Some s | None \<Rightarrow> Some 200)"
  by (simp add: rw_write_def Let_def split: option.splits nat.splits)

lemma http_error_status [simp]: "rw_status w = None \<Longrightarrow> rw_status (http_error msg code w) = Some code"
  by (simp add: http_error_def Let_def)

end
