(* ===== verification/Git_Protocol.thy ===== *)
theory Git_Protocol
  imports Http_Model
begin

text \<open>
  pkg/gitproxy/protocol.go and the pkt-line writers of pkg/gitproxy/packfile.go: classification of
  Git requests, the pkt-line framing, strict parsing of fetch requests, and the request the proxy
  builds for the upstream.  A body is a byte list; lines are strings.  The three regular
  expressions are written out as checks on the suffixes of a path.
\<close>

subsection \<open>Writing pkt-lines\<close>

definition writePktLineString :: "string \<Rightarrow> string" where
  "writePktLineString s = hex_pad4 (length s + 4) @ s"

definition writeFlushPkt :: string where
  "writeFlushPkt = ''0000''"

definition writeDelimPkt :: string where
  "writeDelimPkt = ''0001''"

subsection \<open>Reading pkt-lines\<close>

text \<open>\<^verbatim>\<open>strconv.ParseInt(s, 16, 32)\<close> on four characters: an optional sign and hexadecimal digits.\<close>

definition parse_hex_int :: "string \<Rightarrow> int option" where
  "parse_hex_int s =
     (case s of
        [] \<Rightarrow> None
      | c # t \<Rightarrow>
          if c = CHR ''+'' \<or> c = CHR ''-'' then
            if t = [] then None
            else map_option (\<lambda>n. if c = CHR ''-'' then - int n else int n) (hex_val_list t 0)
          else map_option int (hex_val_list s 0))"

function pkt_loop :: "string \<Rightarrow> string list" where
  "pkt_loop data =
     (if length data < 4 then []
      else case parse_hex_int (take 4 data) of
        None \<Rightarrow> []
      | Some len \<Rightarrow>
          if len = 0 \<or> len = 1 \<or> len = 2 then pkt_loop (drop 4 data)
          else if len < 4 \<or> nat len > length data then []
          else take (nat len - 4) (drop 4 data) # pkt_loop (drop (nat len) data))"
  by auto
termination by (relation "measure length") auto

declare pkt_loop.simps [simp del]

definition parsePktLines :: "bytes \<Rightarrow> string list" where
  "parsePktLines data = pkt_loop (of_bytes data)"

subsection \<open>Classification\<close>

datatype RequestType =
    RequestTypeOther
  | RequestTypeRefs
  | RequestTypeUploadPackFetch
  | RequestTypeUploadPackLsRefs
  | RequestTypeObject
  | RequestTypeReceivePack

fun HasLsRefs_lines :: "string list \<Rightarrow> bool" where
  "HasLsRefs_lines [] = False"
| "HasLsRefs_lines (line # lines) =
     (let trimmed = trim_space line in
      if trimmed = ''command=ls-refs'' then True
      else if has_prefix trimmed ''command='' then False
      else HasLsRefs_lines lines)"

definition HasLsRefsCommand :: "bytes \<Rightarrow> bool" where
  "HasLsRefsCommand body = HasLsRefs_lines (parsePktLines body)"

definition HasFetchCommand :: "bytes \<Rightarrow> bool" where
  "HasFetchCommand body \<longleftrightarrow>
     list_ex (\<lambda>line. trim_space line = ''command=fetch'' \<or> has_prefix (trim_space line) ''want '') (parsePktLines body) \<or>
     contains (of_bytes body) ''command=fetch'' \<or> contains (of_bytes body) ''want ''"

definition is_hex_char :: "char \<Rightarrow> bool" where
  "is_hex_char c \<longleftrightarrow> hex_val c \<noteq> None"

text \<open>\<^verbatim>\<open>/objects/[0-9a-fA-F]{2}/[0-9a-fA-F]{38,62}$\<close>\<close>

definition loose_object_suffix :: "string \<Rightarrow> bool" where
  "loose_object_suffix s \<longleftrightarrow>
     has_prefix s ''/objects/'' \<and>
     (let t = drop 9 s; h = drop 3 t in
      length t \<ge> 3 \<and> list_all is_hex_char (take 2 t) \<and> t ! 2 = CHR ''/'' \<and>
      38 \<le> length h \<and> length h \<le> 62 \<and> list_all is_hex_char h)"

text \<open>\<^verbatim>\<open>/objects/pack/pack-[0-9a-fA-F]+\.(pack|idx)$\<close>\<close>

definition packfile_suffix :: "string \<Rightarrow> bool" where
  "packfile_suffix s \<longleftrightarrow>
     has_prefix s ''/objects/pack/pack-'' \<and>
     (let t = drop 19 s; d = dropWhile is_hex_char t in takeWhile is_hex_char t \<noteq> [] \<and> (d = ''.pack'' \<or> d = ''.idx''))"

text \<open>\<^verbatim>\<open>/info/lfs/objects/[0-9a-fA-F]{64}$\<close>\<close>

definition lfs_object_suffix :: "string \<Rightarrow> bool" where
  "lfs_object_suffix s \<longleftrightarrow>
     has_prefix s ''/info/lfs/objects/'' \<and> length (drop 18 s) = 64 \<and> list_all is_hex_char (drop 18 s)"

definition matches_at_end :: "(string \<Rightarrow> bool) \<Rightarrow> string \<Rightarrow> bool" where
  "matches_at_end p s \<longleftrightarrow> list_ex (\<lambda>i. p (drop i s)) [0..<length s]"

text \<open>\<^verbatim>\<open>url.QueryUnescape\<close> and \<^verbatim>\<open>URL.Query().Get\<close>: malformed pairs and pairs with a semicolon are dropped.\<close>

fun query_unescape :: "string \<Rightarrow> string option" where
  "query_unescape [] = Some []"
| "query_unescape (c # s) =
     (if c = CHR ''%'' then
        (case s of
           a # b # t \<Rightarrow>
             (case (hex_val a, hex_val b) of
                (Some x, Some y) \<Rightarrow> map_option (\<lambda>r. char_of (16 * x + y) # r) (query_unescape t)
              | _ \<Rightarrow> None)
         | _ \<Rightarrow> None)
      else map_option (\<lambda>r. (if c = CHR ''+'' then CHR '' '' else c) # r) (query_unescape s))"

definition query_pair :: "string \<Rightarrow> (string \<times> string) option" where
  "query_pair p =
     (if p = [] \<or> CHR '';'' \<in> set p then None
      else let (k, v) = (case index_of p ''='' of Some i \<Rightarrow> (take i p, drop (i + 1) p) | None \<Rightarrow> (p, []))
           in case (query_unescape k, query_unescape v) of
                (Some k', Some v') \<Rightarrow> Some (k', v')
              | _ \<Rightarrow> None)"

definition query_get :: "string \<Rightarrow> string \<Rightarrow> string" where
  "query_get rawQuery key =
     (case find (\<lambda>kv. fst kv = key) (List.map_filter query_pair (split_on rawQuery ''&'')) of
        Some kv \<Rightarrow> snd kv
      | None \<Rightarrow> [])"

definition ClassifyGitRequest :: "Request \<Rightarrow> bytes \<Rightarrow> RequestType" where
  "ClassifyGitRequest r body =
     (let path = trim_right_if (\<lambda>c. c = CHR ''/'') (u_path (rq_url r)) in
      if has_suffix path ''/git-receive-pack'' \<or>
         has_suffix path ''/info/refs'' \<and> query_get (u_rawquery (rq_url r)) ''service'' = ''git-receive-pack''
      then RequestTypeReceivePack
      else if has_suffix path ''/info/refs'' \<or> has_suffix path ''/HEAD'' then RequestTypeRefs
      else if has_suffix path ''/git-upload-pack'' then
        if rq_method r = ''POST'' \<and> HasLsRefsCommand body then RequestTypeUploadPackLsRefs
        else if rq_method r = ''POST'' \<and> HasFetchCommand body then RequestTypeUploadPackFetch
        else RequestTypeOther
      else if rq_method r = ''GET'' \<and>
              (matches_at_end loose_object_suffix path \<or> matches_at_end packfile_suffix path \<or>
               matches_at_end lfs_object_suffix path)
      then RequestTypeObject
      else RequestTypeOther)"

fun IsCacheable :: "RequestType \<Rightarrow> bool" where
  "IsCacheable RequestTypeUploadPackFetch = True"
| "IsCacheable RequestTypeObject = True"
| "IsCacheable _ = False"

subsection \<open>Fetch requests\<close>

record FetchRequest =
  fr_Wants :: "string list"
  fr_Haves :: "string list"
  fr_IsV2 :: bool
  fr_Done :: bool

datatype fetch_error =
    EmptyFetch
  | InvalidWant string
  | InvalidHave string
  | UnknownCapability string
  | UnknownLine string
  | NoWants

definition isHexOID :: "string \<Rightarrow> bool" where
  "isHexOID s \<longleftrightarrow> (length s = 40 \<or> length s = 64) \<and> list_all is_hex_char s"

definition isRecognizedCapability :: "string \<Rightarrow> bool" where
  "isRecognizedCapability c \<longleftrightarrow>
     c \<in> set [''multi_ack'', ''multi_ack_detailed'', ''no-done'', ''side-band'', ''side-band-64k'', ''thin-pack'',
              ''ofs-delta'', ''no-progress'', ''include-tag''] \<or>
     list_ex (has_prefix c) [''agent='', ''object-format='', ''session-id='', ''symref='', ''clnt-os='', ''clnt-version='']"

definition isRecognizedV2Argument :: "string \<Rightarrow> bool" where
  "isRecognizedV2Argument arg \<longleftrightarrow>
     arg \<in> set [''thin-pack'', ''no-progress'', ''include-tag'', ''ofs-delta'', ''sideband-all'', ''wait-for-done''] \<or>
     list_ex (has_prefix arg) [''agent='', ''object-format='', ''session-id='']"

definition add_oid :: "string \<Rightarrow> string list \<Rightarrow> string list" where
  "add_oid oid xs = (if oid \<in> set xs then xs else xs @ [oid])"

definition parse_fetch_line :: "string \<Rightarrow> FetchRequest \<Rightarrow> fetch_error + FetchRequest" where
  "parse_fetch_line line req =
     (let trimmed = trim_space line in
      if trimmed = [] then Inr req
      else if trimmed = ''command=fetch'' then Inr (req\<lparr>fr_IsV2 := True\<rparr>)
      else if has_prefix trimmed ''want '' then
        (case Portal_Prelude.fields (drop 5 trimmed) of
           [] \<Rightarrow> Inl (InvalidWant line)
         | oid # caps \<Rightarrow>
             if \<not> isHexOID oid then Inl (InvalidWant line)
             else case find (\<lambda>c. \<not> isRecognizedCapability c) caps of
                    Some c \<Rightarrow> Inl (UnknownCapability c)
                  | None \<Rightarrow> Inr (req\<lparr>fr_Wants := add_oid oid (fr_Wants req)\<rparr>))
      else if has_prefix trimmed ''have '' then
        (case Portal_Prelude.fields (drop 5 trimmed) of
           [] \<Rightarrow> Inl (InvalidHave line)
         | oid # _ \<Rightarrow>
             if \<not> isHexOID oid then Inl (InvalidHave line)
             else Inr (req\<lparr>fr_Haves := add_oid oid (fr_Haves req)\<rparr>))
      else if trimmed = ''done'' then Inr (req\<lparr>fr_Done := True\<rparr>)
      else if isRecognizedV2Argument trimmed then Inr req
      else Inl (UnknownLine line))"

fun parse_fetch_lines :: "string list \<Rightarrow> FetchRequest \<Rightarrow> fetch_error + FetchRequest" where
  "parse_fetch_lines [] req = Inr req"
| "parse_fetch_lines (line # lines) req =
     (case parse_fetch_line line req of
        Inl e \<Rightarrow> Inl e
      | Inr req' \<Rightarrow> parse_fetch_lines lines req')"

definition empty_fetch :: FetchRequest where
  "empty_fetch = \<lparr>fr_Wants = [], fr_Haves = [], fr_IsV2 = False, fr_Done = False\<rparr>"

definition ParseFetchRequest :: "bytes \<Rightarrow> fetch_error + FetchRequest" where
  "ParseFetchRequest body =
     (let lines = parsePktLines body in
      if lines = [] then Inl EmptyFetch
      else case parse_fetch_lines lines empty_fetch of
             Inl e \<Rightarrow> Inl e
           | Inr req \<Rightarrow> if fr_Wants req = [] then Inl NoWants else Inr req)"

definition nl :: string where
  "nl = [CHR 0x0A]"

definition want_lines_v0 :: "string list \<Rightarrow> string list" where
  "want_lines_v0 wants =
     (case wants of
        [] \<Rightarrow> []
      | w # ws \<Rightarrow>
          (''want '' @ w @ '' multi_ack_detailed side-band-64k ofs-delta'' @ nl) # map (\<lambda>w. ''want '' @ w @ nl) ws)"

definition BuildUpstreamFetchRequest :: "string list \<Rightarrow> string list \<Rightarrow> bool \<Rightarrow> bytes" where
  "BuildUpstreamFetchRequest wants haves isV2 =
     to_bytes
      (if isV2 then
         writePktLineString (''command=fetch'' @ nl) @ writePktLineString (''agent=gitproxy'' @ nl) @ writeDelimPkt @
         writePktLineString (''thin-pack'' @ nl) @ writePktLineString (''ofs-delta'' @ nl) @
         concat (map (\<lambda>w. writePktLineString (''want '' @ w @ nl)) wants) @
         concat (map (\<lambda>h. writePktLineString (''have '' @ h @ nl)) haves) @
         writePktLineString (''done'' @ nl) @ writeFlushPkt
       else
         concat (map writePktLineString (want_lines_v0 wants)) @ writeFlushPkt @
         concat (map (\<lambda>h. writePktLineString (''have '' @ h @ nl)) haves) @
         writePktLineString (''done'' @ nl))"

subsection \<open>Pkt-line lemmas\<close>

lemma parse_hex_int_pad4: "parse_hex_int (hex_pad4 n) = Some (int n)"
proof (cases "hex_pad4 n")
  case Nil
  then have "hex_str n = []" by (simp add: hex_pad4_def Let_def)
  moreover have "hex_str n \<noteq> []" by (subst hex_str.simps) simp
  ultimately show ?thesis by simp
next
  case (Cons c t)
  have "hex_val c \<noteq> None"
    using hex_val_list_pad4 [of n] Cons by (auto split: option.splits)
  then have "c \<noteq> CHR ''+''" "c \<noteq> CHR ''-''" by (auto simp: hex_val_def)
  then show ?thesis using Cons hex_val_list_pad4 [of n] by (simp add: parse_hex_int_def)
qed

lemma pkt_loop_line:
  assumes "length s + 4 < 65536"
  shows "pkt_loop (writePktLineString s @ rest) = s # pkt_loop rest"
proof -
  have l: "length (hex_pad4 (length s + 4)) = 4" using assms by (simp add: length_hex_pad4)
  have t: "take 4 (writePktLineString s @ rest) = hex_pad4 (length s + 4)"
    "drop 4 (writePktLineString s @ rest) = s @ rest"
    using l by (simp_all add: writePktLineString_def)
  have d: "drop (length s + 4) (writePktLineString s @ rest) = rest"
    using l by (simp add: writePktLineString_def)
  show ?thesis
    using l d by (subst pkt_loop.simps) (simp add: t parse_hex_int_pad4 writePktLineString_def nat_int_add)
qed

lemma pkt_loop_skip:
  assumes "length p = 4" and "parse_hex_int p = Some n" and "n \<in> {0, 1, 2}"
  shows "pkt_loop (p @ rest) = pkt_loop rest"
  using assms by (subst pkt_loop.simps [of "p @ rest"]) auto

lemma pkt_loop_special: "pkt_loop (writeFlushPkt @ rest) = pkt_loop rest" "pkt_loop (writeDelimPkt @ rest) = pkt_loop rest"
proof -
  have "parse_hex_int writeFlushPkt = Some 0" "parse_hex_int writeDelimPkt = Some 1" by code_simp+
  then show "pkt_loop (writeFlushPkt @ rest) = pkt_loop rest" "pkt_loop (writeDelimPkt @ rest) = pkt_loop rest"
    using pkt_loop_skip [of writeFlushPkt 0] pkt_loop_skip [of writeDelimPkt 1]
    by (simp_all add: writeFlushPkt_def writeDelimPkt_def del: append_Cons)
qed

lemma pkt_loop_Nil [simp]: "pkt_loop [] = []"
  by (subst pkt_loop.simps) simp

lemma pkt_loop_lines:
  "list_all (\<lambda>s. length s + 4 < 65536) lines \<Longrightarrow>
     pkt_loop (concat (map writePktLineString lines) @ rest) = lines @ pkt_loop rest"
  by (induction lines) (simp_all add: pkt_loop_line)

subsection \<open>Lines of a fetch request\<close>

lemma trim_space_line:
  assumes "s \<noteq> []" and "\<not> is_space (hd s)" and "\<not> is_space (last s)"
  shows "trim_space (s @ nl) = s"
proof -
  have "is_space (CHR 0x0A)" by (simp add: is_space_def)
  moreover have "trim_right_if is_space s = s" using assms by (cases s) (auto simp: trim_right_if_id)
  ultimately show ?thesis using assms by (cases s) (auto simp: trim_space_def nl_def trim_right_if_def)
qed

lemma hex_not_space: "is_hex_char c \<Longrightarrow> \<not> is_space c"
  by (auto simp: is_hex_char_def hex_val_def is_space_def Let_def split: if_splits)

lemma isHexOID_free: "isHexOID oid \<Longrightarrow> oid \<noteq> [] \<and> (\<forall>c\<in>set oid. \<not> is_space c) \<and> length oid \<le> 64"
  by (auto simp: isHexOID_def list_all_iff hex_not_space)

lemma fields_cons:
  "w \<noteq> [] \<Longrightarrow> \<forall>c\<in>set w. \<not> is_space c \<Longrightarrow>
     Portal_Prelude.fields (w @ CHR '' '' # s) = w # Portal_Prelude.fields s"
  by (simp add: fields_append_space fields_word is_space_def)

lemma trim_key_line:
  assumes "isHexOID oid" and "pre \<in> {''want '', ''have ''}"
  shows "trim_space (pre @ oid @ nl) = pre @ oid"
proof -
  have "\<not> is_space (last oid)" using isHexOID_free [OF assms(1)] by simp
  moreover have "\<not> is_space (hd pre)" "pre \<noteq> []" using assms(2) by (auto simp: is_space_def)
  ultimately show ?thesis
    using trim_space_line [of "pre @ oid"] isHexOID_free [OF assms(1)] by simp
qed

lemma parse_want:
  assumes "isHexOID oid"
  shows "parse_fetch_line (''want '' @ oid @ nl) req = Inr (req\<lparr>fr_Wants := add_oid oid (fr_Wants req)\<rparr>)"
  unfolding parse_fetch_line_def trim_key_line [OF assms insertI1] Let_def
  using isHexOID_free [OF assms] assms by (simp add: has_prefix_def fields_word)

lemma parse_have:
  assumes "isHexOID oid"
  shows "parse_fetch_line (''have '' @ oid @ nl) req = Inr (req\<lparr>fr_Haves := add_oid oid (fr_Haves req)\<rparr>)"
  unfolding parse_fetch_line_def trim_key_line [OF assms insertI2 [OF singletonI]] Let_def
  using isHexOID_free [OF assms] assms by (simp add: has_prefix_def fields_word)

lemma parse_want_caps:
  assumes "isHexOID oid"
  shows "parse_fetch_line (''want '' @ oid @ '' multi_ack_detailed side-band-64k ofs-delta'' @ nl) req =
           Inr (req\<lparr>fr_Wants := add_oid oid (fr_Wants req)\<rparr>)"
proof -
  let ?caps = "'' multi_ack_detailed side-band-64k ofs-delta''"
  have "trim_space ((''want '' @ oid @ ?caps) @ nl) = ''want '' @ oid @ ?caps"
    by (rule trim_space_line) (simp_all add: is_space_def)
  then have t: "trim_space (''want '' @ oid @ ?caps @ nl) = ''want '' @ oid @ ?caps" by simp
  have c: "Portal_Prelude.fields ''multi_ack_detailed side-band-64k ofs-delta'' =
      [''multi_ack_detailed'', ''side-band-64k'', ''ofs-delta'']" by code_simp
  have f: "Portal_Prelude.fields (oid @ ?caps) = oid # [''multi_ack_detailed'', ''side-band-64k'', ''ofs-delta'']"
    using fields_cons [of oid "''multi_ack_detailed side-band-64k ofs-delta''"] isHexOID_free [OF assms] c by simp
  have r: "isRecognizedCapability ''multi_ack_detailed''" "isRecognizedCapability ''side-band-64k''"
    "isRecognizedCapability ''ofs-delta''" by code_simp+
  show ?thesis unfolding parse_fetch_line_def t Let_def using f r assms by (simp add: has_prefix_def)
qed

lemma parse_fetch_append:
  "parse_fetch_lines (xs @ ys) req =
     (case parse_fetch_lines xs req of Inl e \<Rightarrow> Inl e | Inr req' \<Rightarrow> parse_fetch_lines ys req')"
  by (induction xs arbitrary: req) (auto split: sum.splits)

lemma parse_wants:
  assumes "list_all isHexOID ws" and "distinct (fr_Wants req @ ws)"
  shows "parse_fetch_lines (map (\<lambda>w. ''want '' @ w @ nl) ws) req = Inr (req\<lparr>fr_Wants := fr_Wants req @ ws\<rparr>)"
  using assms
proof (induction ws arbitrary: req)
  case (Cons w ws)
  have "parse_fetch_line (''want '' @ w @ nl) req = Inr (req\<lparr>fr_Wants := fr_Wants req @ [w]\<rparr>)"
    using parse_want [of w req] Cons.prems by (simp add: add_oid_def)
  then show ?case using Cons by simp
qed simp

lemma parse_haves:
  assumes "list_all isHexOID hs" and "distinct (fr_Haves req @ hs)"
  shows "parse_fetch_lines (map (\<lambda>h. ''have '' @ h @ nl) hs) req = Inr (req\<lparr>fr_Haves := fr_Haves req @ hs\<rparr>)"
  using assms
proof (induction hs arbitrary: req)
  case (Cons h hs)
  have "parse_fetch_line (''have '' @ h @ nl) req = Inr (req\<lparr>fr_Haves := fr_Haves req @ [h]\<rparr>)"
    using parse_have [of h req] Cons.prems by (simp add: add_oid_def)
  then show ?case using Cons by simp
qed simp

lemma parse_fixed_lines:
  "parse_fetch_line (''command=fetch'' @ nl) req = Inr (req\<lparr>fr_IsV2 := True\<rparr>)"
  "parse_fetch_line (''agent=gitproxy'' @ nl) req = Inr req"
  "parse_fetch_line (''thin-pack'' @ nl) req = Inr req"
  "parse_fetch_line (''ofs-delta'' @ nl) req = Inr req"
  "parse_fetch_line (''done'' @ nl) req = Inr (req\<lparr>fr_Done := True\<rparr>)"
proof -
  have t: "trim_space (''command=fetch'' @ nl) = ''command=fetch''" "trim_space (''agent=gitproxy'' @ nl) = ''agent=gitproxy''"
    "trim_space (''thin-pack'' @ nl) = ''thin-pack''" "trim_space (''ofs-delta'' @ nl) = ''ofs-delta''"
    "trim_space (''done'' @ nl) = ''done''" by code_simp+
  have r: "isRecognizedV2Argument ''agent=gitproxy''" "isRecognizedV2Argument ''thin-pack''"
    "isRecognizedV2Argument ''ofs-delta''" by code_simp+
  show "parse_fetch_line (''command=fetch'' @ nl) req = Inr (req\<lparr>fr_IsV2 := True\<rparr>)"
    by (simp only: parse_fetch_line_def t Let_def) simp
  show "parse_fetch_line (''agent=gitproxy'' @ nl) req = Inr req"
    by (simp only: parse_fetch_line_def t Let_def) (simp add: has_prefix_def r)
  show "parse_fetch_line (''thin-pack'' @ nl) req = Inr req"
    by (simp only: parse_fetch_line_def t Let_def) (simp add: has_prefix_def r)
  show "parse_fetch_line (''ofs-delta'' @ nl) req = Inr req"
    by (simp only: parse_fetch_line_def t Let_def) (simp add: has_prefix_def r)
  show "parse_fetch_line (''done'' @ nl) req = Inr (req\<lparr>fr_Done := True\<rparr>)"
    by (simp only: parse_fetch_line_def t Let_def) (simp add: has_prefix_def)
qed

text \<open>The lines of the request that the proxy builds.\<close>

definition upstream_lines :: "string list \<Rightarrow> string list \<Rightarrow> bool \<Rightarrow> string list" where
  "upstream_lines wants haves isV2 =
     (if isV2 then [''command=fetch'' @ nl, ''agent=gitproxy'' @ nl, ''thin-pack'' @ nl, ''ofs-delta'' @ nl] @
         map (\<lambda>w. ''want '' @ w @ nl) wants
      else want_lines_v0 wants) @
     map (\<lambda>h. ''have '' @ h @ nl) haves @ [''done'' @ nl]"

lemma upstream_pkt_lines:
  assumes "list_all isHexOID wants" and "list_all isHexOID haves"
  shows "parsePktLines (BuildUpstreamFetchRequest wants haves isV2) = upstream_lines wants haves isV2"
proof -
  have w: "list_all (\<lambda>s. length s + 4 < 65536) (map (\<lambda>w. ''want '' @ w @ nl) wants)"
    using assms(1) by (auto simp: list_all_iff nl_def dest!: isHexOID_free)
  have w0: "list_all (\<lambda>s. length s + 4 < 65536) (want_lines_v0 wants)"
  proof (cases wants)
    case (Cons v vs)
    then have "length v \<le> 64" using assms(1) isHexOID_free [of v] by simp
    then show ?thesis using Cons w by (simp add: want_lines_v0_def nl_def)
  qed (simp add: want_lines_v0_def)
  have h: "list_all (\<lambda>s. length s + 4 < 65536) (map (\<lambda>h. ''have '' @ h @ nl) haves)"
    using assms(2) by (auto simp: list_all_iff nl_def dest!: isHexOID_free)
  have l: "length (''command=fetch'' @ nl) + 4 < 65536" "length (''agent=gitproxy'' @ nl) + 4 < 65536"
    "length (''thin-pack'' @ nl) + 4 < 65536" "length (''ofs-delta'' @ nl) + 4 < 65536" "length (''done'' @ nl) + 4 < 65536"
    by (simp_all add: nl_def)
  have wl: "pkt_loop (concat (map (\<lambda>w. writePktLineString (''want '' @ w @ nl)) wants) @ rest) =
      map (\<lambda>w. ''want '' @ w @ nl) wants @ pkt_loop rest" for rest
    using pkt_loop_lines [OF w, of rest] by (simp add: o_def)
  have hl: "pkt_loop (concat (map (\<lambda>h. writePktLineString (''have '' @ h @ nl)) haves) @ rest) =
      map (\<lambda>h. ''have '' @ h @ nl) haves @ pkt_loop rest" for rest
    using pkt_loop_lines [OF h, of rest] by (simp add: o_def)
  have d1: "pkt_loop (writePktLineString (''done'' @ nl) @ writeFlushPkt) = [''done'' @ nl]"
    using pkt_loop_line [OF l(5), of writeFlushPkt] pkt_loop_special(1) [of "[]"] by simp
  have d2: "pkt_loop (writePktLineString (''done'' @ nl)) = [''done'' @ nl]"
    using pkt_loop_line [OF l(5), of "[]"] by simp
  show ?thesis
  proof (cases isV2)
    case True
    have "parsePktLines (BuildUpstreamFetchRequest wants haves True) =
      (''command=fetch'' @ nl) # (''agent=gitproxy'' @ nl) # (''thin-pack'' @ nl) # (''ofs-delta'' @ nl) #
      map (\<lambda>w. ''want '' @ w @ nl) wants @ map (\<lambda>h. ''have '' @ h @ nl) haves @ [''done'' @ nl]"
      unfolding parsePktLines_def BuildUpstreamFetchRequest_def of_bytes_to_bytes
      by (simp only: if_True pkt_loop_line [OF l(1)] pkt_loop_line [OF l(2)] pkt_loop_line [OF l(3)]
          pkt_loop_line [OF l(4)] pkt_loop_special wl hl d1)
    with True show ?thesis by (simp add: upstream_lines_def)
  next
    case False
    have "parsePktLines (BuildUpstreamFetchRequest wants haves False) =
      want_lines_v0 wants @ map (\<lambda>h. ''have '' @ h @ nl) haves @ [''done'' @ nl]"
      unfolding parsePktLines_def BuildUpstreamFetchRequest_def of_bytes_to_bytes
      by (simp only: if_False pkt_loop_special hl pkt_loop_lines [OF w0] d2)
    with False show ?thesis by (simp add: upstream_lines_def)
  qed
qed

lemma parse_upstream_v0:
  assumes "list_all isHexOID wants" and "distinct wants"
  shows "parse_fetch_lines (want_lines_v0 wants) empty_fetch = Inr (empty_fetch\<lparr>fr_Wants := wants\<rparr>)"
proof (cases wants)
  case (Cons w ws)
  have "parse_fetch_line (''want '' @ w @ '' multi_ack_detailed side-band-64k ofs-delta'' @ nl) empty_fetch =
      Inr (empty_fetch\<lparr>fr_Wants := [w]\<rparr>)"
    using parse_want_caps [of w empty_fetch] assms(1) Cons by (simp add: add_oid_def empty_fetch_def)
  then show ?thesis
    using parse_wants [of ws "empty_fetch\<lparr>fr_Wants := [w]\<rparr>"] assms Cons by (simp add: want_lines_v0_def)
qed (simp add: want_lines_v0_def empty_fetch_def)

lemma parse_fetch_line_inv:
  assumes "parse_fetch_line line req = Inr req'"
    and "distinct (fr_Wants req) \<and> distinct (fr_Haves req) \<and> list_all isHexOID (fr_Wants req @ fr_Haves req)"
  shows "distinct (fr_Wants req') \<and> distinct (fr_Haves req') \<and> list_all isHexOID (fr_Wants req' @ fr_Haves req')"
  using assms
  by (auto simp: parse_fetch_line_def Let_def add_oid_def split: if_splits list.splits option.splits)

lemma parse_fetch_lines_inv:
  assumes "parse_fetch_lines lines req = Inr req'"
    and "distinct (fr_Wants req) \<and> distinct (fr_Haves req) \<and> list_all isHexOID (fr_Wants req @ fr_Haves req)"
  shows "distinct (fr_Wants req') \<and> distinct (fr_Haves req') \<and> list_all isHexOID (fr_Wants req' @ fr_Haves req')"
  using assms
proof (induction lines arbitrary: req)
  case (Cons l ls)
  then obtain req1 where r: "parse_fetch_line l req = Inr req1" "parse_fetch_lines ls req1 = Inr req'"
    by (auto split: sum.splits)
  show ?case by (rule Cons.IH [OF r(2) parse_fetch_line_inv [OF r(1) Cons.prems(2)]])
qed simp

lemma parse_upstream_request:
  assumes "wants \<noteq> []" and "list_all isHexOID wants" and "list_all isHexOID haves"
    and "distinct wants" and "distinct haves"
  shows "ParseFetchRequest (BuildUpstreamFetchRequest wants haves isV2) =
           Inr \<lparr>fr_Wants = wants, fr_Haves = haves, fr_IsV2 = isV2, fr_Done = True\<rparr>"
proof -
  have ne: "upstream_lines wants haves isV2 \<noteq> []" by (simp add: upstream_lines_def)
  have head: "parse_fetch_lines (if isV2 then [''command=fetch'' @ nl, ''agent=gitproxy'' @ nl, ''thin-pack'' @ nl,
        ''ofs-delta'' @ nl] @ map (\<lambda>w. ''want '' @ w @ nl) wants else want_lines_v0 wants) empty_fetch =
      Inr \<lparr>fr_Wants = wants, fr_Haves = [], fr_IsV2 = isV2, fr_Done = False\<rparr>"
  proof (cases isV2)
    case True
    have "parse_fetch_lines ([''command=fetch'' @ nl, ''agent=gitproxy'' @ nl, ''thin-pack'' @ nl, ''ofs-delta'' @ nl])
        empty_fetch = Inr (empty_fetch\<lparr>fr_IsV2 := True\<rparr>)"
      by (simp only: parse_fetch_lines.simps parse_fixed_lines sum.case)
    moreover have "parse_fetch_lines (map (\<lambda>w. ''want '' @ w @ nl) wants) (empty_fetch\<lparr>fr_IsV2 := True\<rparr>) =
        Inr \<lparr>fr_Wants = wants, fr_Haves = [], fr_IsV2 = True, fr_Done = False\<rparr>"
      using parse_wants [OF assms(2), of "empty_fetch\<lparr>fr_IsV2 := True\<rparr>"] assms(4) by (simp add: empty_fetch_def)
    ultimately show ?thesis
      using True by (simp only: if_True parse_fetch_append sum.case)
  next
    case False
    then show ?thesis using parse_upstream_v0 [OF assms(2,4)] by (simp add: empty_fetch_def)
  qed
  have haves: "parse_fetch_lines (map (\<lambda>h. ''have '' @ h @ nl) haves)
      \<lparr>fr_Wants = wants, fr_Haves = [], fr_IsV2 = isV2, fr_Done = False\<rparr> =
      Inr \<lparr>fr_Wants = wants, fr_Haves = haves, fr_IsV2 = isV2, fr_Done = False\<rparr>"
    using parse_haves [OF assms(3), of "\<lparr>fr_Wants = wants, fr_Haves = [], fr_IsV2 = isV2, fr_Done = False\<rparr>"] assms(5)
    by simp
  have "parse_fetch_lines (upstream_lines wants haves isV2) empty_fetch =
      Inr \<lparr>fr_Wants = wants, fr_Haves = haves, fr_IsV2 = isV2, fr_Done = True\<rparr>"
    unfolding upstream_lines_def parse_fetch_append head sum.case haves
    by (simp only: parse_fetch_lines.simps parse_fixed_lines(5) sum.case) simp
  then show ?thesis
    using ne assms(1) upstream_pkt_lines [OF assms(2,3), of isV2] by (simp add: ParseFetchRequest_def)
qed

lemma accepted_fetch:
  assumes "ParseFetchRequest body = Inr req"
  shows "fr_Wants req \<noteq> [] \<and> distinct (fr_Wants req) \<and> distinct (fr_Haves req) \<and>
         list_all isHexOID (fr_Wants req @ fr_Haves req)"
proof -
  have "parse_fetch_lines (parsePktLines body) empty_fetch = Inr req" "fr_Wants req \<noteq> []"
    using assms by (auto simp: ParseFetchRequest_def Let_def split: if_splits sum.splits)
  with parse_fetch_lines_inv [of "parsePktLines body" empty_fetch req] show ?thesis
    by (simp add: empty_fetch_def)
qed

subsection \<open>Properties\<close>

text \<open>
  Claim C24. What the proxy asks of the upstream is what it was asked: for any non-empty list of
  distinct object ids to want and any list of distinct ids to have, the strict parser reads the
  request the proxy builds, in protocol version 2 and in version 0, back as exactly these wants,
  these haves, that version, and a final done.
\<close>

theorem upstream_request_round_trip:
  assumes "wants \<noteq> []" and "list_all isHexOID wants" and "list_all isHexOID haves"
    and "distinct wants" and "distinct haves"
  shows "ParseFetchRequest (BuildUpstreamFetchRequest wants haves isV2) =
           Inr \<lparr>fr_Wants = wants, fr_Haves = haves, fr_IsV2 = isV2, fr_Done = True\<rparr>"
  by (rule parse_upstream_request [OF assms])

text \<open>
  Claim C25. A fetch request that is accepted is well-formed: it wants something, no object id
  occurs twice among the wants or among the haves, and every one of them is a hexadecimal id of
  40 or 64 characters.
\<close>

theorem accepted_fetch_well_formed:
  assumes "ParseFetchRequest body = Inr req"
  shows "fr_Wants req \<noteq> [] \<and> distinct (fr_Wants req) \<and> distinct (fr_Haves req) \<and>
         list_all isHexOID (fr_Wants req @ fr_Haves req)"
  by (rule accepted_fetch [OF assms])

text \<open>
  Claim C26. Only content-addressed requests are cacheable: a request classified as cacheable is
  not a push and not a ref listing; it is either a POST to git-upload-pack whose body is a fetch
  command and not an ls-refs command, or a GET of a loose object, pack or LFS object.
\<close>

theorem cacheable_is_content_addressed:
  assumes "IsCacheable (ClassifyGitRequest r body)"
  shows "let path = trim_right_if (\<lambda>c. c = CHR ''/'') (u_path (rq_url r)) in
     \<not> has_suffix path ''/git-receive-pack'' \<and> \<not> has_suffix path ''/info/refs'' \<and> \<not> has_suffix path ''/HEAD'' \<and>
     ((rq_method r = ''POST'' \<and> has_suffix path ''/git-upload-pack'' \<and> HasFetchCommand body \<and> \<not> HasLsRefsCommand body) \<or>
      (rq_method r = ''GET'' \<and>
        (matches_at_end loose_object_suffix path \<or> matches_at_end packfile_suffix path \<or>
         matches_at_end lfs_object_suffix path)))"
  using assms by (auto simp: ClassifyGitRequest_def Let_def split: if_splits)

subsection \<open>Witnesses\<close>

definition sample_oid :: "char \<Rightarrow> string" where
  "sample_oid c = replicate 40 c"

lemma sample_oid_hex: "isHexOID (sample_oid (CHR ''a''))" "isHexOID (sample_oid (CHR ''b''))"
  by (simp_all add: isHexOID_def sample_oid_def list_all_iff is_hex_char_def hex_val_def)

theorem upstream_request_round_trip_witness:
  "ParseFetchRequest (BuildUpstreamFetchRequest [sample_oid (CHR ''a'')] [sample_oid (CHR ''b'')] True) =
     Inr \<lparr>fr_Wants = [sample_oid (CHR ''a'')], fr_Haves = [sample_oid (CHR ''b'')], fr_IsV2 = True, fr_Done = True\<rparr>"
  by (rule upstream_request_round_trip) (simp_all add: sample_oid_hex)

theorem accepted_fetch_well_formed_witness:
  "\<exists>req. ParseFetchRequest (to_bytes (writePktLineString (''want '' @ sample_oid (CHR ''a'') @ nl))) = Inr req \<and>
     fr_Wants req \<noteq> [] \<and> distinct (fr_Wants req) \<and> list_all isHexOID (fr_Wants req)"
proof -
  let ?l = "''want '' @ sample_oid (CHR ''a'') @ nl"
  have "length ?l + 4 < 65536" by (simp add: sample_oid_def nl_def)
  then have "parsePktLines (to_bytes (writePktLineString ?l)) = [?l]"
    using pkt_loop_line [of ?l "[]"] by (simp add: parsePktLines_def del: append_Cons)
  then obtain req where r: "ParseFetchRequest (to_bytes (writePktLineString ?l)) = Inr req"
    using parse_want [OF sample_oid_hex(1), of empty_fetch]
    by (simp add: ParseFetchRequest_def add_oid_def empty_fetch_def del: append_Cons)
  with accepted_fetch_well_formed [OF r] show ?thesis by auto
qed

theorem cacheable_is_content_addressed_witness:
  "IsCacheable (ClassifyGitRequest
      \<lparr>rq_method = ''GET'',
       rq_url = \<lparr>u_scheme = [], u_host = [], u_path = ''/r/objects/pack/pack-12ab.pack'', u_rawpath = [], u_rawquery = []\<rparr>,
       rq_host = [], rq_header = (\<lambda>_. None), rq_body = [], rq_remote = []\<rparr> []) \<and>
   matches_at_end packfile_suffix ''/r/objects/pack/pack-12ab.pack''"
  (is "IsCacheable (ClassifyGitRequest ?r []) \<and> _")
proof -
  have p: "trim_right_if (\<lambda>c. c = CHR ''/'') ''/r/objects/pack/pack-12ab.pack'' = ''/r/objects/pack/pack-12ab.pack''"
    by (simp add: trim_right_if_def)
  have n: "\<not> matches_at_end loose_object_suffix ''/r/objects/pack/pack-12ab.pack''"
    "\<not> matches_at_end lfs_object_suffix ''/r/objects/pack/pack-12ab.pack''" by code_simp+
  have c: "IsCacheable (ClassifyGitRequest ?r [])" by code_simp
  from cacheable_is_content_addressed [OF c] n have "matches_at_end packfile_suffix ''/r/objects/pack/pack-12ab.pack''"
    by (simp add: p Let_def)
  with c show ?thesis by blast
qed

end
