(* ===== verification/Git_Packfile.thy ===== *)
theory Git_Packfile
  imports Git_Protocol
begin

unbundle bit_operations_syntax

text \<open>
  pkg/gitproxy/packfile.go: Git objects, pack files and their deltas, and the sideband framing of
  a pack in an upload-pack response.  SHA-1 (\<open>sha1\<close>) and zlib are parameters: \<open>deflate\<close> compresses,
  and \<open>inflate s n\<close> is what reading exactly \<open>n\<close> bytes from a zlib reader over the bytes \<open>s\<close> gives: an
  error, or the data and the number of bytes of \<open>s\<close> the reader has taken.  Sizes and offsets are
  64-bit and 32-bit words as in the code, so that shifts and sums wrap.  A run-time panic of the
  code (a slice or an allocation out of range) is an error value of its own.
\<close>

subsection \<open>Objects\<close>

abbreviation (input) ObjCommit :: nat where "ObjCommit \<equiv> 1"
abbreviation (input) ObjTree :: nat where "ObjTree \<equiv> 2"
abbreviation (input) ObjBlob :: nat where "ObjBlob \<equiv> 3"
abbreviation (input) ObjTag :: nat where "ObjTag \<equiv> 4"
abbreviation (input) ObjOfsDelta :: nat where "ObjOfsDelta \<equiv> 6"
abbreviation (input) ObjRefDelta :: nat where "ObjRefDelta \<equiv> 7"

record RawObject =
  ro_Type :: nat
  ro_Data :: bytes
  ro_OID :: string

definition TypeToString :: "nat \<Rightarrow> string" where
  "TypeToString t =
     (if t = ObjCommit then ''commit'' else if t = ObjTree then ''tree'' else if t = ObjBlob then ''blob''
      else if t = ObjTag then ''tag'' else ''unknown'')"

definition StringToType :: "string \<Rightarrow> nat" where
  "StringToType s =
     (if s = ''commit'' then ObjCommit else if s = ''tree'' then ObjTree else if s = ''blob'' then ObjBlob
      else if s = ''tag'' then ObjTag else 0)"

definition ComputeOID :: "(bytes \<Rightarrow> bytes) \<Rightarrow> nat \<Rightarrow> bytes \<Rightarrow> string" where
  "ComputeOID sha1 objType data =
     hex_encode (sha1 (to_bytes (TypeToString objType @ '' '' @ dec_str (length data) @ [CHR 0x00]) @ data))"

definition raw_object :: "(bytes \<Rightarrow> bytes) \<Rightarrow> nat \<Rightarrow> bytes \<Rightarrow> RawObject" where
  "raw_object sha1 t d = \<lparr>ro_Type = t, ro_Data = d, ro_OID = ComputeOID sha1 t d\<rparr>"

record CommitInfo =
  co_OID :: string
  co_Tree :: string
  co_Parents :: "string list"
  co_Author :: string
  co_Message :: string

definition commit_line :: "string \<Rightarrow> CommitInfo \<Rightarrow> CommitInfo" where
  "commit_line line info =
     (if has_prefix line ''tree '' then info\<lparr>co_Tree := trim_space (trim_prefix line ''tree '')\<rparr>
      else if has_prefix line ''parent '' then
        (let parent = trim_space (trim_prefix line ''parent '')
         in if parent \<noteq> [] then info\<lparr>co_Parents := co_Parents info @ [parent]\<rparr> else info)
      else if has_prefix line ''author '' then info\<lparr>co_Author := trim_space (trim_prefix line ''author '')\<rparr>
      else info)"

definition ParseCommitObject :: "string \<Rightarrow> bytes \<Rightarrow> CommitInfo" where
  "ParseCommitObject oid data =
     (let parts = split_2 (of_bytes data) (nl @ nl); header = hd parts;
          message = (if length parts > 1 then parts ! 1 else [])
      in fold commit_line (split_on header nl)
           \<lparr>co_OID = oid, co_Tree = [], co_Parents = [], co_Author = [], co_Message = message\<rparr>)"

text \<open>The loop over the entries of a tree; it stops at a truncated entry.  The code's error is always nil.\<close>

function ParseTreeEntries :: "bytes \<Rightarrow> string list" where
  "ParseTreeEntries data =
     (case index_of data [0] of
        None \<Rightarrow> []
      | Some i \<Rightarrow>
          let rest = drop (i + 1) data in
          if length rest < 20 then []
          else hex_encode (take 20 rest) # ParseTreeEntries (drop 20 rest))"
  by auto
termination by (relation "measure length") (auto dest: index_of_Some)

declare ParseTreeEntries.simps [simp del]

subsection \<open>Deltas\<close>

datatype delta_error =
    EmptyDelta
  | InvalidSrcSize
  | BaseSizeMismatch
  | InvalidTargetSize
  | UnexpectedEnd
  | CopyOutOfBounds
  | InsertOutOfBounds
  | InvalidOpcode
  | TargetSizeMismatch
  | DeltaPanic

definition low7 :: "8 word \<Rightarrow> 64 word" where
  "low7 b = ucast (b AND 0x7f)"

fun leb_loop :: "bytes \<Rightarrow> 64 word \<Rightarrow> nat \<Rightarrow> nat \<Rightarrow> 64 word \<times> nat" where
  "leb_loop [] val shift i = (0, 0)"
| "leb_loop (b # bs) val shift i =
     (let val' = val OR push_bit shift (low7 b); shift' = shift + 7 in
      if b AND 0x80 = 0 then (val', i + 1)
      else if shift' \<ge> 64 then (0, 0)
      else leb_loop bs val' shift' (i + 1))"

definition readLEB128 :: "bytes \<Rightarrow> 64 word \<times> nat" where
  "readLEB128 data = leb_loop data 0 0 0"

text \<open>One optional byte of a copy command, added to the offset or length at a bit position.\<close>

definition copy_byte :: "8 word \<Rightarrow> nat \<Rightarrow> nat \<Rightarrow> 32 word \<times> bytes \<Rightarrow> delta_error + (32 word \<times> bytes)" where
  "copy_byte cmd flag k st =
     (if bit cmd flag
      then (case snd st of
              [] \<Rightarrow> Inl UnexpectedEnd
            | d # ds \<Rightarrow> Inr (fst st OR push_bit k (ucast d), ds))
      else Inr st)"

definition copy_offset :: "8 word \<Rightarrow> bytes \<Rightarrow> delta_error + (32 word \<times> bytes)" where
  "copy_offset cmd delta =
     and_then (copy_byte cmd 0 0 (0, delta)) (\<lambda>s.
     and_then (copy_byte cmd 1 8 s) (\<lambda>s.
     and_then (copy_byte cmd 2 16 s) (copy_byte cmd 3 24)))"

definition copy_length :: "8 word \<Rightarrow> bytes \<Rightarrow> delta_error + (32 word \<times> bytes)" where
  "copy_length cmd delta =
     and_then (copy_byte cmd 4 0 (0, delta)) (\<lambda>s.
     and_then (copy_byte cmd 5 8 s) (\<lambda>s.
     and_then (copy_byte cmd 6 16 s) (\<lambda>s. Inr (if fst s = 0 then 0x10000 else fst s, snd s))))"

text \<open>
  One command; \<open>out\<close> is what has been written to the target so far and \<open>tsize\<close> the length of the
  target.  The sum of offset and length is computed in 32 bits, in the check and in the slice.
\<close>

definition delta_step :: "bytes \<Rightarrow> nat \<Rightarrow> 8 word \<Rightarrow> bytes \<Rightarrow> bytes \<Rightarrow> delta_error + (bytes \<times> bytes)" where
  "delta_step base tsize cmd delta out =
     (if bit cmd 7 then
        and_then (copy_offset cmd delta) (\<lambda>(offset, d1).
        and_then (copy_length cmd d1) (\<lambda>(len, d2).
          if unat (offset + len) > length base \<or> length out + unat len > tsize then Inl CopyOutOfBounds
          else if unat offset > unat (offset + len) then Inl DeltaPanic
          else Inr (out @ take (unat (offset + len) - unat offset) (drop (unat offset) base), d2)))
      else if cmd \<noteq> 0 then
        (let n = unat cmd in
         if n > length delta \<or> length out + n > tsize then Inl InsertOutOfBounds
         else Inr (out @ take n delta, drop n delta))
      else Inl InvalidOpcode)"

lemma copy_byte_shorter: "copy_byte cmd f k st = Inr st' \<Longrightarrow> length (snd st') \<le> length (snd st)"
  by (auto simp: copy_byte_def split: if_splits list.splits)

lemma copy_offset_shorter: "copy_offset cmd d = Inr (v, d') \<Longrightarrow> length d' \<le> length d"
  unfolding copy_offset_def and_then_Inr
  by (auto dest!: copy_byte_shorter)

lemma copy_length_shorter: "copy_length cmd d = Inr (v, d') \<Longrightarrow> length d' \<le> length d"
  unfolding copy_length_def and_then_Inr
  by (auto dest!: copy_byte_shorter)

lemma delta_step_shorter:
  "delta_step base tsize cmd delta out = Inr (out', d) \<Longrightarrow> length d \<le> length delta"
  by (auto simp: delta_step_def Let_def and_then_Inr split: if_splits
      dest!: copy_offset_shorter copy_length_shorter)

function delta_loop :: "bytes \<Rightarrow> nat \<Rightarrow> bytes \<Rightarrow> bytes \<Rightarrow> delta_error + bytes" where
  "delta_loop base tsize [] out = Inr out"
| "delta_loop base tsize (cmd # delta) out =
     (case delta_step base tsize cmd delta out of
        Inl e \<Rightarrow> Inl e
      | Inr (out', delta') \<Rightarrow> delta_loop base tsize delta' out')"
  by pat_completeness auto
termination
  by (relation "measure (\<lambda>(base, tsize, delta, out). length delta)") (auto dest: delta_step_shorter)

definition max_alloc :: nat where
  "max_alloc = 2 ^ 48"

definition applyDelta :: "bytes \<Rightarrow> bytes \<Rightarrow> delta_error + bytes" where
  "applyDelta base delta0 =
     (if delta0 = [] then Inl EmptyDelta
      else let (srcSize, n) = readLEB128 delta0 in
        if n = 0 then Inl InvalidSrcSize
        else if sint srcSize \<noteq> int (length base) then Inl BaseSizeMismatch
        else let delta1 = drop n delta0; (targetSize, m) = readLEB128 delta1 in
          if m = 0 then Inl InvalidTargetSize
          else if unat targetSize > max_alloc then Inl DeltaPanic
          else case delta_loop base (unat targetSize) (drop m delta1) [] of
                 Inl e \<Rightarrow> Inl e
               | Inr out \<Rightarrow> if length out \<noteq> unat targetSize then Inl TargetSizeMismatch else Inr out)"

subsection \<open>Parsing a pack\<close>

datatype pack_error =
    TooShort
  | BadSignature
  | BadVersion nat
  | UnexpectedEndOfPack
  | TruncatedHeader
  | TruncatedOfsDelta
  | TruncatedRefDelta
  | ZlibError string
  | AllocPanic
  | DeltaFailed delta_error
  | UnresolvedDeltas

record rawPackEntry =
  pe_type :: nat
  pe_offset :: nat
  pe_baseOffset :: int
  pe_baseOID :: string
  pe_data :: bytes

text \<open>
  The variable-length parts of an entry header.  They are read from the bytes before the trailer
  only (\<open>hs\<close>); the result carries the bytes that are left of these.
\<close>

fun size_loop :: "bytes \<Rightarrow> 64 word \<Rightarrow> nat \<Rightarrow> (64 word \<times> bytes) option" where
  "size_loop [] sz shift = None"
| "size_loop (b # hs) sz shift =
     (let sz' = sz OR push_bit shift (low7 b) in
      if b AND 0x80 \<noteq> 0 then size_loop hs sz' (shift + 7) else Some (sz', hs))"

fun ofs_loop :: "bytes \<Rightarrow> 64 word \<Rightarrow> (64 word \<times> bytes) option" where
  "ofs_loop [] ofs = None"
| "ofs_loop (b # hs) ofs =
     (let ofs' = push_bit 7 (ofs + 1) OR low7 b in
      if b AND 0x80 \<noteq> 0 then ofs_loop hs ofs' else Some (ofs', hs))"

definition read_size :: "8 word \<Rightarrow> bytes \<Rightarrow> (64 word \<times> bytes) option" where
  "read_size b hs = (if b AND 0x80 \<noteq> 0 then size_loop hs (ucast (b AND 0x0f)) 4 else Some (ucast (b AND 0x0f), hs))"

definition read_ofs :: "bytes \<Rightarrow> (64 word \<times> bytes) option" where
  "read_ofs hs =
     (case hs of
        [] \<Rightarrow> None
      | b # t \<Rightarrow> if b AND 0x80 \<noteq> 0 then ofs_loop t (low7 b) else Some (low7 b, t))"

definition read_base :: "nat \<Rightarrow> nat \<Rightarrow> bytes \<Rightarrow> pack_error + (int \<times> string \<times> bytes)" where
  "read_base objType entryOffset hs =
     (if objType = ObjOfsDelta then
        (case read_ofs hs of
           None \<Rightarrow> Inl TruncatedOfsDelta
         | Some (ofs, hs') \<Rightarrow> Inr (sint (word_of_nat entryOffset - ofs :: 64 word), [], hs'))
      else if objType = ObjRefDelta then
        (if length hs < 20 then Inl TruncatedRefDelta
         else Inr (0, hex_encode (take 20 hs), drop 20 hs))
      else Inr (0, [], hs))"

type_synonym inflater = "bytes \<Rightarrow> nat \<Rightarrow> string + (bytes \<times> nat)"

definition parse_entry :: "inflater \<Rightarrow> bytes \<Rightarrow> nat \<Rightarrow> pack_error + (rawPackEntry \<times> nat)" where
  "parse_entry inflate data pos =
     (let lim = length data - 20 in
      case take (lim - pos) (drop pos data) of
        [] \<Rightarrow> Inl UnexpectedEndOfPack
      | b # hs \<Rightarrow>
          (case read_size b hs of
             None \<Rightarrow> Inl TruncatedHeader
           | Some (sz, hs1) \<Rightarrow>
               (let objType = unat (drop_bit 4 b AND 0x07) in
                and_then (read_base objType pos hs1) (\<lambda>(bofs, boid, hs2).
                  let start = lim - length hs2 in
                  if unat sz > max_alloc then Inl AllocPanic
                  else case inflate (drop start data) (unat sz) of
                         Inl e \<Rightarrow> Inl (ZlibError e)
                       | Inr (d, count) \<Rightarrow>
                           Inr (\<lparr>pe_type = objType, pe_offset = pos, pe_baseOffset = bofs, pe_baseOID = boid,
                                 pe_data = d\<rparr>, start + count)))))"

fun parse_entries :: "inflater \<Rightarrow> bytes \<Rightarrow> nat \<Rightarrow> nat \<Rightarrow> pack_error + rawPackEntry list" where
  "parse_entries inflate data 0 pos = Inr []"
| "parse_entries inflate data (Suc n) pos =
     and_then (parse_entry inflate data pos) (\<lambda>(e, pos').
     and_then (parse_entries inflate data n pos') (\<lambda>es. Inr (e # es)))"

subsection \<open>Resolving deltas\<close>

record resolved =
  rv_objects :: "string \<rightharpoonup> RawObject"
  rv_byOffset :: "nat \<rightharpoonup> RawObject"

definition is_delta :: "rawPackEntry \<Rightarrow> bool" where
  "is_delta e \<longleftrightarrow> pe_type e = ObjOfsDelta \<or> pe_type e = ObjRefDelta"

definition register :: "RawObject \<Rightarrow> nat \<Rightarrow> resolved \<Rightarrow> resolved" where
  "register obj ofs st =
     st\<lparr>rv_objects := (rv_objects st)(ro_OID obj \<mapsto> obj), rv_byOffset := (rv_byOffset st)(ofs \<mapsto> obj)\<rparr>"

definition register_whole :: "(bytes \<Rightarrow> bytes) \<Rightarrow> rawPackEntry list \<Rightarrow> resolved" where
  "register_whole sha1 entries =
     fold (\<lambda>e st. if is_delta e then st else register (raw_object sha1 (pe_type e) (pe_data e)) (pe_offset e) st)
       entries \<lparr>rv_objects = (\<lambda>_. None), rv_byOffset = (\<lambda>_. None)\<rparr>"

text \<open>The base of a delta, if it is known by now.\<close>

definition find_base :: "(string \<rightharpoonup> RawObject) \<Rightarrow> rawPackEntry \<Rightarrow> resolved \<Rightarrow> RawObject option" where
  "find_base baseLookup e st =
     (if pe_type e = ObjOfsDelta
      then (if pe_baseOffset e < 0 then None else rv_byOffset st (nat (pe_baseOffset e)))
      else (case rv_objects st (pe_baseOID e) of
              Some obj \<Rightarrow> Some obj
            | None \<Rightarrow> baseLookup (pe_baseOID e)))"

definition resolve_entry ::
  "(bytes \<Rightarrow> bytes) \<Rightarrow> (string \<rightharpoonup> RawObject) \<Rightarrow> rawPackEntry \<Rightarrow> resolved \<times> bool \<Rightarrow> pack_error + (resolved \<times> bool)" where
  "resolve_entry sha1 baseLookup e sp =
     (if \<not> is_delta e \<or> rv_byOffset (fst sp) (pe_offset e) \<noteq> None then Inr sp
      else case find_base baseLookup e (fst sp) of
             None \<Rightarrow> Inr sp
           | Some base \<Rightarrow>
               (case applyDelta (ro_Data base) (pe_data e) of
                  Inl err \<Rightarrow> Inl (DeltaFailed err)
                | Inr applied \<Rightarrow>
                    Inr (register (raw_object sha1 (ro_Type base) applied) (pe_offset e) (fst sp), True)))"

fun resolve_pass ::
  "(bytes \<Rightarrow> bytes) \<Rightarrow> (string \<rightharpoonup> RawObject) \<Rightarrow> rawPackEntry list \<Rightarrow> resolved \<times> bool \<Rightarrow> pack_error + (resolved \<times> bool)" where
  "resolve_pass sha1 baseLookup [] sp = Inr sp"
| "resolve_pass sha1 baseLookup (e # es) sp =
     and_then (resolve_entry sha1 baseLookup e sp) (resolve_pass sha1 baseLookup es)"

definition all_resolved :: "rawPackEntry list \<Rightarrow> resolved \<Rightarrow> bool" where
  "all_resolved entries st \<longleftrightarrow> list_all (\<lambda>e. rv_byOffset st (pe_offset e) \<noteq> None) entries"

fun resolve_passes ::
  "(bytes \<Rightarrow> bytes) \<Rightarrow> (string \<rightharpoonup> RawObject) \<Rightarrow> nat \<Rightarrow> rawPackEntry list \<Rightarrow> resolved \<Rightarrow> pack_error + resolved" where
  "resolve_passes sha1 baseLookup 0 entries st = Inr st"
| "resolve_passes sha1 baseLookup (Suc k) entries st =
     and_then (resolve_pass sha1 baseLookup entries (st, False)) (\<lambda>(st', progress).
       if all_resolved entries st' \<or> \<not> progress then Inr st'
       else resolve_passes sha1 baseLookup k entries st')"

definition max_passes :: nat where
  "max_passes = 50"

definition resolve_all ::
  "(bytes \<Rightarrow> bytes) \<Rightarrow> (string \<rightharpoonup> RawObject) \<Rightarrow> rawPackEntry list \<Rightarrow> pack_error + RawObject list" where
  "resolve_all sha1 baseLookup entries =
     and_then (resolve_passes sha1 baseLookup max_passes entries (register_whole sha1 entries)) (\<lambda>st.
       if \<not> all_resolved entries st then Inl UnresolvedDeltas
       else Inr (List.map_filter (\<lambda>e. rv_byOffset st (pe_offset e)) entries))"

definition ParsePackfileWithBase ::
  "(bytes \<Rightarrow> bytes) \<Rightarrow> inflater \<Rightarrow> bytes \<Rightarrow> (string \<rightharpoonup> RawObject) \<Rightarrow> pack_error + RawObject list" where
  "ParsePackfileWithBase sha1 inflate data baseLookup =
     (if length data < 12 + 20 then Inl TooShort
      else if take 4 data \<noteq> to_bytes ''PACK'' then Inl BadSignature
      else let version = be_uint32 (drop 4 data) in
        if version \<noteq> 2 \<and> version \<noteq> 3 then Inl (BadVersion version)
        else and_then (parse_entries inflate data (be_uint32 (drop 8 data)) 12) (resolve_all sha1 baseLookup))"

definition ParsePackfile :: "(bytes \<Rightarrow> bytes) \<Rightarrow> inflater \<Rightarrow> bytes \<Rightarrow> pack_error + RawObject list" where
  "ParsePackfile sha1 inflate data = ParsePackfileWithBase sha1 inflate data (\<lambda>_. None)"

subsection \<open>Building a pack\<close>

text \<open>The rest of an object header: groups of seven bits, lowest first.\<close>

function size_groups :: "64 word \<Rightarrow> bytes" where
  "size_groups sz =
     (if sz = 0 then []
      else let rest = drop_bit 7 sz; b = ucast (sz AND 0x7f)
           in (if rest \<noteq> 0 then b OR 0x80 else b) # size_groups rest)"
  by auto
termination
proof (relation "measure (unat :: 64 word \<Rightarrow> nat)", simp)
  fix sz :: "64 word" and rest :: "64 word" and b :: "8 word"
  assume "sz \<noteq> 0" "rest = drop_bit 7 sz"
  then have "0 < unat sz" by (simp add: unat_gt_0)
  moreover have "unat (drop_bit 7 sz) = unat sz div 128"
    unfolding unat_drop_bit_eq by (simp add: drop_bit_nat_def)
  ultimately show "(rest, sz) \<in> measure unat"
    using \<open>rest = drop_bit 7 sz\<close> by simp
qed

declare size_groups.simps [simp del]

definition object_header :: "nat \<Rightarrow> 64 word \<Rightarrow> bytes" where
  "object_header t sz =
     (let b = push_bit 4 (word_of_nat t) OR ucast (sz AND 0x0f); rest = drop_bit 4 sz
      in (if rest \<noteq> 0 then b OR 0x80 else b) # size_groups rest)"

definition pack_object :: "(bytes \<Rightarrow> bytes) \<Rightarrow> RawObject \<Rightarrow> bytes" where
  "pack_object deflate obj = object_header (ro_Type obj) (word_of_nat (length (ro_Data obj))) @ deflate (ro_Data obj)"

definition BuildPackfile :: "(bytes \<Rightarrow> bytes) \<Rightarrow> (bytes \<Rightarrow> bytes) \<Rightarrow> RawObject list \<Rightarrow> bytes" where
  "BuildPackfile sha1 deflate objects =
     (let buf = to_bytes ''PACK'' @ put_be 4 2 @ put_be 4 (length objects mod 2 ^ 32) @
                concat (map (pack_object deflate) objects)
      in buf @ sha1 buf)"

subsection \<open>The sideband\<close>

definition maxChunk :: nat where
  "maxChunk = 65515"

function sideband_chunks :: "bytes \<Rightarrow> bytes" where
  "sideband_chunks p =
     (if p = [] then []
      else let chunk = take maxChunk p
           in to_bytes (hex_pad4 (length chunk + 5) @ [CHR 0x01]) @ chunk @ sideband_chunks (drop maxChunk p))"
  by auto
termination by (relation "measure length") (auto simp: maxChunk_def)

declare sideband_chunks.simps [simp del]

definition sideband_header :: "bool \<Rightarrow> string list \<Rightarrow> bool \<Rightarrow> string" where
  "sideband_header isV2 acks hasHaves =
     (if isV2 then
        (if hasHaves then
           writePktLineString (''acknowledgments'' @ nl) @
           concat (map (\<lambda>a. writePktLineString (''ACK '' @ a @ nl)) acks) @
           (if acks = [] then writePktLineString (''NAK'' @ nl) else []) @
           writePktLineString (''ready'' @ nl) @ writeDelimPkt
         else []) @
        writePktLineString (''packfile'' @ nl)
      else if acks \<noteq> [] then concat (map (\<lambda>a. writePktLineString (''ACK '' @ a @ '' common'' @ nl)) acks)
      else writePktLineString (''NAK'' @ nl))"

definition FormatSidebandPackfile :: "bytes \<Rightarrow> bool \<Rightarrow> string list \<Rightarrow> bool \<Rightarrow> bytes" where
  "FormatSidebandPackfile packfile isV2 acks hasHaves =
     to_bytes (sideband_header isV2 acks hasHaves) @ sideband_chunks packfile @ to_bytes writeFlushPkt"

text \<open>The loop over the packets of a response: the concatenated data of band 1.\<close>

function extract_loop :: "bytes \<Rightarrow> bytes" where
  "extract_loop data =
     (if length data < 4 then []
      else case hex_val_list (of_bytes (take 4 data)) 0 of
        None \<Rightarrow> []
      | Some pktLen \<Rightarrow>
          if pktLen = 0 \<or> pktLen = 1 \<or> pktLen = 2 then extract_loop (drop 4 data)
          else if pktLen < 4 \<or> pktLen > length data then []
          else (let packet = take (pktLen - 4) (drop 4 data)
                in (if packet \<noteq> [] \<and> hd packet = 1 then tl packet else []) @ extract_loop (drop pktLen data)))"
  by auto
termination by (relation "measure length") auto

declare extract_loop.simps [simp del]

definition ExtractPackfileFromResponse :: "bytes \<Rightarrow> bytes option" where
  "ExtractPackfileFromResponse respBody =
     (if has_prefix respBody (to_bytes ''PACK'') then Some respBody
      else let pack = extract_loop respBody in
        if pack \<noteq> [] then Some pack
        else map_option (\<lambda>i. drop i respBody) (index_of respBody (to_bytes ''PACK'')))"

subsection \<open>Sideband lemmas\<close>

lemma extract_packet:
  assumes "length p + 4 < 65536"
  shows "extract_loop (to_bytes (hex_pad4 (length p + 4)) @ p @ rest) =
           (if p \<noteq> [] \<and> hd p = 1 then tl p else []) @ extract_loop rest"
proof -
  have l: "length (hex_pad4 (length p + 4)) = 4" using assms by (simp add: length_hex_pad4)
  have d: "drop (length p + 4) (to_bytes (hex_pad4 (length p + 4)) @ p @ rest) = rest" using l by simp
  show ?thesis
    using l d by (subst extract_loop.simps) (simp add: hex_val_list_pad4 Let_def)
qed

lemma extract_text_line:
  assumes "length s + 4 < 65536" and "s \<noteq> []" and "hd s \<noteq> CHR 0x01"
  shows "extract_loop (to_bytes (writePktLineString s) @ rest) = extract_loop rest"
proof -
  have "byte_of_char (hd s) \<noteq> 1"
  proof
    assume "byte_of_char (hd s) = 1"
    then have "char_of_byte (byte_of_char (hd s)) = char_of_byte 1" by simp
    moreover have "char_of_byte 1 = CHR 0x01" by code_simp
    ultimately show False using assms(3) by simp
  qed
  then have "hd (to_bytes s) \<noteq> 1" using assms(2) by (cases s) (simp_all add: to_bytes_def)
  then show ?thesis
    using extract_packet [of "to_bytes s" rest] assms(1,2) by (simp add: writePktLineString_def)
qed

lemma extract_text_lines:
  assumes "list_all (\<lambda>s. length s + 4 < 65536 \<and> s \<noteq> [] \<and> hd s \<noteq> CHR 0x01) lines"
  shows "extract_loop (to_bytes (concat (map writePktLineString lines)) @ rest) = extract_loop rest"
  using assms by (induction lines) (simp_all add: extract_text_line)

lemma extract_skip:
  assumes "length p = 4" and "hex_val_list p 0 = Some n" and "n \<in> {0, 1, 2}"
  shows "extract_loop (to_bytes p @ rest) = extract_loop rest"
  using assms by (subst extract_loop.simps [of "to_bytes p @ rest"]) auto

lemma extract_special:
  "extract_loop (to_bytes writeFlushPkt @ rest) = extract_loop rest"
  "extract_loop (to_bytes writeDelimPkt @ rest) = extract_loop rest"
proof -
  have "hex_val_list writeFlushPkt 0 = Some 0" "hex_val_list writeDelimPkt 0 = Some 1"
    "length writeFlushPkt = 4" "length writeDelimPkt = 4" by code_simp+
  then show "extract_loop (to_bytes writeFlushPkt @ rest) = extract_loop rest"
    "extract_loop (to_bytes writeDelimPkt @ rest) = extract_loop rest"
    using extract_skip by blast+
qed

lemma extract_chunks: "extract_loop (sideband_chunks p @ rest) = p @ extract_loop rest"
proof (induction p rule: sideband_chunks.induct)
  case (1 p)
  show ?case
  proof (cases "p = []")
    case True
    then show ?thesis by (simp add: sideband_chunks.simps)
  next
    case False
    let ?c = "take maxChunk p" and ?b = "byte_of_char (CHR 0x01)"
    have b: "?b = 1" by code_simp
    have len: "length (?b # ?c) + 4 < 65536" by (simp add: maxChunk_def)
    have "sideband_chunks p @ rest =
        to_bytes (hex_pad4 (length (?b # ?c) + 4)) @ (?b # ?c) @ (sideband_chunks (drop maxChunk p) @ rest)"
      using False by (subst sideband_chunks.simps) (simp add: to_bytes_def add.commute)
    then have "extract_loop (sideband_chunks p @ rest) =
        ?c @ extract_loop (sideband_chunks (drop maxChunk p) @ rest)"
      using extract_packet [OF len, of "sideband_chunks (drop maxChunk p) @ rest"] b by simp
    then show ?thesis using 1 [OF False] by simp
  qed
qed

text \<open>The lines of the header, without the delimiter.\<close>

definition ack_lines :: "bool \<Rightarrow> string list \<Rightarrow> bool \<Rightarrow> string list" where
  "ack_lines isV2 acks hasHaves =
     (if isV2 then
        (if hasHaves then
           [''acknowledgments'' @ nl] @ map (\<lambda>a. ''ACK '' @ a @ nl) acks @ (if acks = [] then [''NAK'' @ nl] else []) @
           [''ready'' @ nl]
         else [])
      else if acks \<noteq> [] then map (\<lambda>a. ''ACK '' @ a @ '' common'' @ nl) acks else [''NAK'' @ nl])"

lemma sideband_header_lines:
  "sideband_header isV2 acks hasHaves =
     concat (map writePktLineString (ack_lines isV2 acks hasHaves)) @
     (if isV2 \<and> hasHaves then writeDelimPkt else []) @
     (if isV2 then writePktLineString (''packfile'' @ nl) else [])"
  by (simp add: sideband_header_def ack_lines_def o_def)

lemma extract_header:
  assumes "list_all (\<lambda>a. length a < 65000) acks"
  shows "extract_loop (to_bytes (sideband_header isV2 acks hasHaves) @ rest) = extract_loop rest"
proof -
  have l: "list_all (\<lambda>s. length s + 4 < 65536 \<and> s \<noteq> [] \<and> hd s \<noteq> CHR 0x01) (ack_lines isV2 acks hasHaves)"
    using assms by (auto simp: ack_lines_def list_all_iff nl_def)
  have p: "extract_loop (to_bytes (writePktLineString (''packfile'' @ nl)) @ rest) = extract_loop rest" for rest
    by (rule extract_text_line) (simp_all add: nl_def)
  show ?thesis
    unfolding sideband_header_lines to_bytes_append append_assoc extract_text_lines [OF l]
    using p extract_special(2) by (cases isV2; cases hasHaves) (simp_all only: if_True if_False simp_thms to_bytes_Nil append_Nil)
qed

lemma sideband_not_PACK: "\<not> has_prefix (to_bytes (writePktLineString s) @ rest) (to_bytes ''PACK'')"
proof
  assume "has_prefix (to_bytes (writePktLineString s) @ rest) (to_bytes ''PACK'')"
  then have "hd (to_bytes (writePktLineString s) @ rest) = byte_of_char (CHR ''P'')"
    by (auto simp: has_prefix_iff to_bytes_def)
  moreover obtain c t where c: "hex_pad4 (length s + 4) = c # t"
    using hex_val_list_pad4 [of "length s + 4"] by (cases "hex_pad4 (length s + 4)") auto
  ultimately have "c = CHR ''P''"
    by (simp add: writePktLineString_def to_bytes_def) (metis char_of_byte_of_char)
  then show False using hex_val_list_pad4 [of "length s + 4"] c by (simp add: hex_val_def)
qed

subsection \<open>The size encoding\<close>

lemma bit_consts:
  "bit (127 :: int) n \<longleftrightarrow> n < 7" "bit (15 :: int) n \<longleftrightarrow> n < 4" "bit (7 :: int) n \<longleftrightarrow> n < 3" "bit (128 :: int) n \<longleftrightarrow> n = 7"
  "bit (8 :: int) n \<longleftrightarrow> n = 3"
proof -
  have m: "(127 :: int) = mask 7" "(15 :: int) = mask 4" "(7 :: int) = mask 3" "(128 :: int) = 2 ^ 7"
    "(8 :: int) = 2 ^ 3"
    by (simp_all add: mask_eq_exp_minus_1)
  show "bit (127 :: int) n \<longleftrightarrow> n < 7" "bit (15 :: int) n \<longleftrightarrow> n < 4" "bit (7 :: int) n \<longleftrightarrow> n < 3"
    unfolding m(1-3) bit_mask_iff by simp_all
  show "bit (128 :: int) n \<longleftrightarrow> n = 7" unfolding m(4) by (simp only: bit_exp_iff) auto
  show "bit (8 :: int) n \<longleftrightarrow> n = 3" unfolding m(5) by (simp only: bit_exp_iff) auto
qed

lemma low7_group: "low7 (ucast (m AND 0x7f)) = (m AND 0x7f :: 64 word)"
  "low7 (ucast (m AND 0x7f) OR 0x80) = (m AND 0x7f :: 64 word)"
  by (rule bit_word_eqI, auto simp: low7_def bit_simps bit_consts)+

lemma group_split: "(m AND 0x7f) OR push_bit 7 (drop_bit 7 m) = (m :: 64 word)"
  "(m AND 0x0f) OR push_bit 4 (drop_bit 4 m) = (m :: 64 word)"
proof -
  show "(m AND 0x7f) OR push_bit 7 (drop_bit 7 m) = (m :: 64 word)"
  proof (rule bit_word_eqI)
    fix n assume "n < LENGTH(64)"
    then show "bit ((m AND 0x7f) OR push_bit 7 (drop_bit 7 m)) n = bit m n"
      by (cases "n < 7") (auto simp: bit_simps bit_consts)
  qed
  show "(m AND 0x0f) OR push_bit 4 (drop_bit 4 m) = (m :: 64 word)"
  proof (rule bit_word_eqI)
    fix n assume "n < LENGTH(64)"
    then show "bit ((m AND 0x0f) OR push_bit 4 (drop_bit 4 m)) n = bit m n"
      by (cases "n < 4") (auto simp: bit_simps bit_consts)
  qed
qed

lemma group_flag: "(ucast (m AND 0x7f :: 64 word) :: 8 word) AND 0x80 = 0"
  "((ucast (m AND 0x7f :: 64 word) :: 8 word) OR 0x80) AND 0x80 = 0x80"
  by (rule bit_word_eqI, auto simp: bit_simps bit_consts)+

lemma size_loop_groups:
  "m \<noteq> 0 \<Longrightarrow> size_loop (size_groups m @ rest) acc s = Some (acc OR push_bit s m, rest)"
proof (induction m arbitrary: acc s rule: size_groups.induct)
  case (1 m)
  let ?r = "drop_bit 7 m"
  have m: "push_bit s (m AND 0x7f) OR push_bit (s + 7) ?r = push_bit s m"
    using group_split(1) [of m] by (metis push_bit_or push_bit_push_bit add.commute)
  show ?case
  proof (cases "?r = 0")
    case True
    then have "size_groups m = [ucast (m AND 0x7f)]"
      using 1(2) by (subst size_groups.simps) (simp add: size_groups.simps [of 0])
    then show ?thesis using m True by (simp add: Let_def low7_group(1) group_flag(1))
  next
    case False
    then have "size_groups m = (ucast (m AND 0x7f) OR 0x80) # size_groups ?r"
      using 1(2) by (subst size_groups.simps) (simp add: Let_def)
    then show ?thesis
      using 1(1) [OF 1(2) refl refl False, of "acc OR push_bit s (m AND 0x7f)" "s + 7"] m
      by (simp add: Let_def low7_group(2) group_flag(2) or.assoc)
  qed
qed

lemma header_first:
  fixes sz :: "64 word"
  assumes "t < 8"
  shows "unat (drop_bit 4 ((push_bit 4 (word_of_nat t) OR ucast (sz AND 0x0f)) :: 8 word) AND 0x07) = t"
    "unat (drop_bit 4 ((push_bit 4 (word_of_nat t) OR ucast (sz AND 0x0f)) OR 0x80 :: 8 word) AND 0x07) = t"
    "ucast ((push_bit 4 (word_of_nat t) OR ucast (sz AND 0x0f) :: 8 word) AND 0x0f) = sz AND 0x0f"
    "ucast (((push_bit 4 (word_of_nat t) OR ucast (sz AND 0x0f)) OR 0x80 :: 8 word) AND 0x0f) = sz AND 0x0f"
    "(push_bit 4 (word_of_nat t) OR ucast (sz AND 0x0f) :: 8 word) AND 0x80 = 0"
    "((push_bit 4 (word_of_nat t) OR ucast (sz AND 0x0f)) OR 0x80 :: 8 word) AND 0x80 = 0x80"
proof -
  have tb: "bit t n \<Longrightarrow> n < 3" for n
  proof (rule ccontr)
    assume b: "bit t n" and n: "\<not> n < 3"
    have "t < 2 ^ 3" using assms by simp
    also have "(2 :: nat) ^ 3 \<le> 2 ^ n" using n by (intro power_increasing) simp_all
    finally have "\<not> bit t n" by (simp add: bit_iff_odd)
    with b show False by simp
  qed
  have "drop_bit 4 ((push_bit 4 (word_of_nat t) OR ucast (sz AND 0x0f)) :: 8 word) AND 0x07 = word_of_nat t"
    by (rule bit_word_eqI) (auto simp: bit_simps bit_consts dest: tb)
  moreover have "drop_bit 4 ((push_bit 4 (word_of_nat t) OR ucast (sz AND 0x0f)) OR 0x80 :: 8 word) AND 0x07 = word_of_nat t"
    by (rule bit_word_eqI) (auto simp: bit_simps bit_consts dest: tb)
  moreover have "unat (word_of_nat t :: 8 word) = t" using assms by (simp add: unat_of_nat)
  ultimately show "unat (drop_bit 4 ((push_bit 4 (word_of_nat t) OR ucast (sz AND 0x0f)) :: 8 word) AND 0x07) = t"
    "unat (drop_bit 4 ((push_bit 4 (word_of_nat t) OR ucast (sz AND 0x0f)) OR 0x80 :: 8 word) AND 0x07) = t" by metis+
  show "ucast ((push_bit 4 (word_of_nat t) OR ucast (sz AND 0x0f) :: 8 word) AND 0x0f) = sz AND 0x0f"
    "ucast (((push_bit 4 (word_of_nat t) OR ucast (sz AND 0x0f)) OR 0x80 :: 8 word) AND 0x0f) = sz AND 0x0f"
    by (rule bit_word_eqI, auto simp: bit_simps bit_consts)+
  show "(push_bit 4 (word_of_nat t) OR ucast (sz AND 0x0f) :: 8 word) AND 0x80 = 0"
    "((push_bit 4 (word_of_nat t) OR ucast (sz AND 0x0f)) OR 0x80 :: 8 word) AND 0x80 = 0x80"
    by (rule bit_word_eqI, auto simp: bit_simps bit_consts dest: tb)+
qed

subsection \<open>Reading back a pack\<close>

text \<open>
  What the round trip relies on of zlib, for one object: reading as many bytes as the object has from
  its compressed form, whatever follows it, gives the object, and leaves the reader at the end of the
  compressed form.  (A Go reader only gets that far if the last bytes of the object come with the end
  of the stream, which they do not for an empty object.)
\<close>

definition zlib_reads_back :: "(bytes \<Rightarrow> bytes) \<Rightarrow> inflater \<Rightarrow> bytes \<Rightarrow> bool" where
  "zlib_reads_back deflate inflate d \<longleftrightarrow>
     (\<forall>rest. inflate (deflate d @ rest) (length d) = Inr (d, length (deflate d)))"

text \<open>An object that can stand in a pack as it is: its type has a code and its size can be allocated.\<close>

definition whole_object :: "(bytes \<Rightarrow> bytes) \<Rightarrow> RawObject \<Rightarrow> bool" where
  "whole_object sha1 obj \<longleftrightarrow>
     ro_Type obj < 6 \<and> length (ro_Data obj) \<le> max_alloc \<and> ro_OID obj = ComputeOID sha1 (ro_Type obj) (ro_Data obj)"

lemma read_header:
  assumes "t < 8"
  shows "\<exists>b hs. object_header t sz = b # hs \<and> read_size b (hs @ rest) = Some (sz, rest) \<and>
    unat (drop_bit 4 b AND 0x07) = t"
proof (cases "drop_bit 4 sz = 0")
  case True
  have g: "sz AND 0x0f = sz" using group_split(2) [of sz] True by simp
  then show ?thesis
    using True header_first [OF assms, of sz]
    by (simp add: object_header_def Let_def size_groups.simps [of 0] read_size_def)
next
  case False
  then show ?thesis
    using header_first [OF assms, of sz] group_split(2) [of sz] size_loop_groups [OF False]
    by (simp add: object_header_def Let_def read_size_def)
qed

lemma parse_whole:
  assumes "whole_object sha1 obj" and "zlib_reads_back deflate inflate (ro_Data obj)" and "length trailer = 20"
  shows "parse_entry inflate (pre @ pack_object deflate obj @ rest @ trailer) (length pre) =
    Inr (\<lparr>pe_type = ro_Type obj, pe_offset = length pre, pe_baseOffset = 0, pe_baseOID = [], pe_data = ro_Data obj\<rparr>,
         length (pre @ pack_object deflate obj))"
proof -
  let ?sz = "word_of_nat (length (ro_Data obj)) :: 64 word" and ?c = "deflate (ro_Data obj)"
  let ?data = "pre @ pack_object deflate obj @ rest @ trailer"
  have t: "ro_Type obj < 8" "ro_Type obj < 6" and l: "length (ro_Data obj) \<le> max_alloc"
    using assms(1) by (simp_all add: whole_object_def)
  obtain b hs where h: "object_header (ro_Type obj) ?sz = b # hs"
    "read_size b (hs @ ?c @ rest) = Some (?sz, ?c @ rest)" "unat (drop_bit 4 b AND 0x07) = ro_Type obj"
    using read_header [OF t(1), of ?sz "?c @ rest"] by blast
  have sz: "unat ?sz = length (ro_Data obj)"
    using l by (simp add: unat_of_nat max_alloc_def)
  have tk: "take (length ?data - 20 - length pre) (drop (length pre) ?data) = b # hs @ ?c @ rest"
    using assms(3) h(1) by (simp add: pack_object_def)
  have st: "length ?data - 20 - length (?c @ rest) = length pre + Suc (length hs)"
    using assms(3) h(1) by (simp add: pack_object_def)
  have dr: "drop (length pre + Suc (length hs)) ?data = ?c @ rest @ trailer"
    using h(1) by (simp add: pack_object_def)
  have base: "read_base (ro_Type obj) (length pre) (?c @ rest) = Inr (0, [], ?c @ rest)"
    using t(2) by (simp add: read_base_def)
  have inf: "inflate (?c @ rest @ trailer) (length (ro_Data obj)) = Inr (ro_Data obj, length ?c)"
    using assms(2) by (simp add: zlib_reads_back_def)
  show ?thesis
    unfolding parse_entry_def Let_def tk list.case h(2) option.case prod.case h(3) base and_then_simps st sz
      dr inf sum.case
    using l h(1) by (simp add: pack_object_def)
qed

fun whole_entries :: "(bytes \<Rightarrow> bytes) \<Rightarrow> nat \<Rightarrow> RawObject list \<Rightarrow> rawPackEntry list" where
  "whole_entries deflate pos [] = []"
| "whole_entries deflate pos (obj # objs) =
     \<lparr>pe_type = ro_Type obj, pe_offset = pos, pe_baseOffset = 0, pe_baseOID = [], pe_data = ro_Data obj\<rparr> #
     whole_entries deflate (pos + length (pack_object deflate obj)) objs"

lemma parse_whole_entries:
  assumes "list_all (whole_object sha1) objs" and "list_all (\<lambda>obj. zlib_reads_back deflate inflate (ro_Data obj)) objs"
    and "length trailer = 20"
  shows "parse_entries inflate (pre @ concat (map (pack_object deflate) objs) @ trailer) (length objs) (length pre) =
    Inr (whole_entries deflate (length pre) objs)"
  using assms
proof (induction objs arbitrary: pre)
  case (Cons obj objs)
  let ?p = "pre @ pack_object deflate obj"
  have e: "pre @ concat (map (pack_object deflate) (obj # objs)) @ trailer =
      pre @ pack_object deflate obj @ concat (map (pack_object deflate) objs) @ trailer" by simp
  have p: "parse_entry inflate (pre @ pack_object deflate obj @ concat (map (pack_object deflate) objs) @ trailer) (length pre) =
    Inr (\<lparr>pe_type = ro_Type obj, pe_offset = length pre, pe_baseOffset = 0, pe_baseOID = [], pe_data = ro_Data obj\<rparr>,
         length ?p)"
    using Cons.prems by (intro parse_whole [of sha1]) simp_all
  have "parse_entries inflate (?p @ concat (map (pack_object deflate) objs) @ trailer) (length objs) (length ?p) =
      Inr (whole_entries deflate (length ?p) objs)"
    using Cons.prems by (intro Cons.IH) simp_all
  then show ?case using p unfolding e by simp
qed simp

lemma whole_entries_offsets:
  "e \<in> set (whole_entries deflate pos objs) \<Longrightarrow> pos \<le> pe_offset e"
  by (induction objs arbitrary: pos) (fastforce+)

lemma pack_object_nonempty: "0 < length (pack_object deflate obj)"
  by (simp add: pack_object_def object_header_def Let_def)

lemma whole_entries_distinct: "distinct (map pe_offset (whole_entries deflate pos objs))"
proof (induction objs arbitrary: pos)
  case (Cons obj objs)
  have "pos \<notin> pe_offset ` set (whole_entries deflate (pos + length (pack_object deflate obj)) objs)"
    using whole_entries_offsets pack_object_nonempty [of deflate obj] by fastforce
  then show ?case using Cons by simp
qed simp

lemma whole_entries_objects:
  "list_all (whole_object sha1) objs \<Longrightarrow>
   map (\<lambda>e. raw_object sha1 (pe_type e) (pe_data e)) (whole_entries deflate pos objs) = objs"
  by (induction objs arbitrary: pos) (simp_all add: raw_object_def whole_object_def)

lemma whole_entries_no_delta:
  "list_all (whole_object sha1) objs \<Longrightarrow> list_all (\<lambda>e. \<not> is_delta e) (whole_entries deflate pos objs)"
  by (induction objs arbitrary: pos) (simp_all add: is_delta_def whole_object_def)

lemma fold_register_other:
  "ofs \<notin> pe_offset ` set es \<Longrightarrow>
   rv_byOffset (fold (\<lambda>e st. if is_delta e then st else register (raw_object sha1 (pe_type e) (pe_data e)) (pe_offset e) st) es st) ofs =
   rv_byOffset st ofs"
  by (induction es arbitrary: st) (auto simp: register_def)

lemma fold_register_whole:
  "list_all (\<lambda>e. \<not> is_delta e) es \<Longrightarrow> distinct (map pe_offset es) \<Longrightarrow> e \<in> set es \<Longrightarrow>
   rv_byOffset (fold (\<lambda>e st. if is_delta e then st else register (raw_object sha1 (pe_type e) (pe_data e)) (pe_offset e) st) es st)
     (pe_offset e) = Some (raw_object sha1 (pe_type e) (pe_data e))"
proof (induction es arbitrary: st)
  case (Cons x es)
  show ?case
  proof (cases "e = x")
    case True
    then show ?thesis using Cons.prems by (simp add: fold_register_other) (simp add: register_def)
  next
    case False
    then show ?thesis using Cons by simp
  qed
qed simp

lemma resolve_pass_whole: "list_all (\<lambda>e. \<not> is_delta e) es \<Longrightarrow> resolve_pass sha1 lookup es sp = Inr sp"
  by (induction es) (simp_all add: resolve_entry_def)

lemma resolve_whole:
  assumes "list_all (\<lambda>e. \<not> is_delta e) es" and "distinct (map pe_offset es)"
  shows "resolve_all sha1 lookup es = Inr (map (\<lambda>e. raw_object sha1 (pe_type e) (pe_data e)) es)"
proof -
  let ?st = "register_whole sha1 es"
  have r: "rv_byOffset ?st (pe_offset e) = Some (raw_object sha1 (pe_type e) (pe_data e))" if "e \<in> set es" for e
    unfolding register_whole_def using fold_register_whole [OF assms that] .
  then have all: "all_resolved es ?st" by (simp add: all_resolved_def list_all_iff)
  have ps: "resolve_passes sha1 lookup max_passes es ?st = Inr ?st"
    using resolve_pass_whole [OF assms(1)] by (simp add: max_passes_def eval_nat_numeral)
  have "List.map_filter (\<lambda>e. rv_byOffset ?st (pe_offset e)) es' = map (\<lambda>e. raw_object sha1 (pe_type e) (pe_data e)) es'"
    if "set es' \<subseteq> set es" for es'
    using that r by (induction es') (simp_all add: List.map_filter_simps)
  then show ?thesis using ps all by (simp add: resolve_all_def)
qed

subsection \<open>A reference semantics of deltas\<close>

text \<open>
  A delta as the pack format documents it: a list of instructions that copy a range of the base or
  insert literal bytes, what they produce, and their encoding, in which a copy omits the bytes of its
  offset and length that are zero and tells so in the command byte.
\<close>

datatype delta_op = DCopy nat nat | DInsert bytes

fun op_result :: "bytes \<Rightarrow> delta_op \<Rightarrow> bytes" where
  "op_result base (DCopy off len) = take len (drop off base)"
| "op_result base (DInsert bs) = bs"

fun op_fits :: "bytes \<Rightarrow> delta_op \<Rightarrow> bool" where
  "op_fits base (DCopy off len) \<longleftrightarrow> 0 < len \<and> len < 2 ^ 24 \<and> off + len \<le> length base"
| "op_fits base (DInsert bs) \<longleftrightarrow> bs \<noteq> [] \<and> length bs < 128"

definition word_byte :: "32 word \<Rightarrow> nat \<Rightarrow> 8 word" where
  "word_byte w k = ucast (drop_bit (8 * k) w)"

definition copy_args :: "nat \<Rightarrow> nat \<Rightarrow> bytes" where
  "copy_args off len =
     map (word_byte (word_of_nat off)) [0, 1, 2, 3] @ map (word_byte (word_of_nat len)) [0, 1, 2]"

fun op_encode :: "delta_op \<Rightarrow> bytes" where
  "op_encode (DCopy off len) =
     horner_sum of_bool 2 (map (\<lambda>b. b \<noteq> 0) (copy_args off len) @ [True]) #
     filter (\<lambda>b. b \<noteq> 0) (copy_args off len)"
| "op_encode (DInsert bs) = word_of_nat (length bs) # bs"

definition leb_encode :: "nat \<Rightarrow> bytes" where
  "leb_encode n = (if n = 0 then [0] else size_groups (word_of_nat n))"

definition delta_result :: "bytes \<Rightarrow> delta_op list \<Rightarrow> bytes" where
  "delta_result base ops = concat (map (op_result base) ops)"

definition delta_encode :: "bytes \<Rightarrow> delta_op list \<Rightarrow> bytes" where
  "delta_encode base ops =
     leb_encode (length base) @ leb_encode (length (delta_result base ops)) @ concat (map op_encode ops)"

lemma leb_loop_groups:
  "m \<noteq> 0 \<Longrightarrow> s < 64 \<Longrightarrow> drop_bit (64 - s) m = 0 \<Longrightarrow>
   leb_loop (size_groups m @ rest) acc s i = (acc OR push_bit s m, i + length (size_groups m))"
proof (induction m arbitrary: acc s i rule: size_groups.induct)
  case (1 m)
  let ?r = "drop_bit 7 m"
  have m: "push_bit s (m AND 0x7f) OR push_bit (s + 7) ?r = push_bit s m"
    using group_split(1) [of m] by (metis push_bit_or push_bit_push_bit add.commute)
  show ?case
  proof (cases "?r = 0")
    case True
    then have "size_groups m = [ucast (m AND 0x7f)]"
      using 1(2) by (subst size_groups.simps) (simp add: size_groups.simps [of 0])
    then show ?thesis using m True by (simp add: Let_def low7_group(1) group_flag(1))
  next
    case False
    then have g: "size_groups m = (ucast (m AND 0x7f) OR 0x80) # size_groups ?r"
      using 1(2) by (subst size_groups.simps) (simp add: Let_def)
    have s: "s + 7 < 64"
    proof (rule ccontr)
      assume "\<not> s + 7 < 64"
      then have "7 = (64 - s) + (7 - (64 - s))" by simp
      then have "?r = drop_bit (7 - (64 - s)) (drop_bit (64 - s) m)"
        by (metis add.commute drop_bit_drop_bit)
      then show False using 1(4) False by simp
    qed
    have "drop_bit (64 - (s + 7)) ?r = 0"
      using 1(4) s by (simp add: drop_bit_drop_bit add.commute)
    then show ?thesis
      using 1(1) [OF 1(2) refl refl False s, of "acc OR push_bit s (m AND 0x7f)" "i + 1"] m s
      by (simp add: g Let_def low7_group(2) group_flag(2) or.assoc)
  qed
qed

lemma readLEB128_encode:
  assumes "n < 2 ^ 64"
  shows "readLEB128 (leb_encode n @ rest) = (word_of_nat n, length (leb_encode n))" "0 < length (leb_encode n)"
proof -
  have "(word_of_nat n :: 64 word) \<noteq> 0" if "n \<noteq> 0"
  proof
    assume "(word_of_nat n :: 64 word) = 0"
    then have "unat (word_of_nat n :: 64 word) = 0" by simp
    then show False using assms that by (simp add: unat_of_nat)
  qed
  moreover have "drop_bit 64 (word_of_nat n :: 64 word) = 0"
    by (rule bit_word_eqI) (simp add: bit_simps)
  ultimately show "readLEB128 (leb_encode n @ rest) = (word_of_nat n, length (leb_encode n))"
    using leb_loop_groups [of "word_of_nat n" 0 rest 0 0]
    by (auto simp: readLEB128_def leb_encode_def low7_def Let_def)
  show "0 < length (leb_encode n)"
    using \<open>n \<noteq> 0 \<Longrightarrow> (word_of_nat n :: 64 word) \<noteq> 0\<close>
    by (subst leb_encode_def) (subst size_groups.simps, simp add: Let_def)
qed

lemma copy_byte_opt:
  "(bit cmd f \<longleftrightarrow> b \<noteq> 0) \<Longrightarrow>
   copy_byte cmd f k (acc, filter (\<lambda>b. b \<noteq> 0) (b # bs) @ rest) =
     Inr (acc OR push_bit k (ucast b), filter (\<lambda>b. b \<noteq> 0) bs @ rest)"
  by (simp add: copy_byte_def)

lemma word_bytes4:
  "ucast (word_byte w 0) OR push_bit 8 (ucast (word_byte w 1)) OR push_bit 16 (ucast (word_byte w 2)) OR
   push_bit 24 (ucast (word_byte w 3)) = w"
proof (rule bit_word_eqI)
  fix n assume "n < LENGTH(32)"
  then consider "n < 8" | "8 \<le> n" "n < 16" | "16 \<le> n" "n < 24" | "24 \<le> n" "n < 32" by fastforce
  then show "bit (ucast (word_byte w 0) OR push_bit 8 (ucast (word_byte w 1)) OR push_bit 16 (ucast (word_byte w 2)) OR
    push_bit 24 (ucast (word_byte w 3)) :: 32 word) n = bit w n"
    by cases (auto simp: word_byte_def bit_simps)
qed

lemma word_bytes3:
  assumes "n < 2 ^ 24"
  shows "ucast (word_byte (word_of_nat n) 0) OR push_bit 8 (ucast (word_byte (word_of_nat n) 1)) OR
    push_bit 16 (ucast (word_byte (word_of_nat n) 2)) = (word_of_nat n :: 32 word)"
proof -
  have "word_byte (word_of_nat n) 3 = 0"
  proof (rule bit_word_eqI)
    fix k assume "k < LENGTH(8)"
    have "\<not> bit n (24 + k)"
      using assms by (metis bit_take_bit_iff not_add_less1 take_bit_nat_eq_self)
    then show "bit (word_byte (word_of_nat n) 3) k = bit (0 :: 8 word) k"
      by (simp add: word_byte_def bit_simps)
  qed
  then show ?thesis using word_bytes4 [of "word_of_nat n"] by simp
qed

lemma copy_decode:
  fixes off len :: nat
  defines "cmd \<equiv> horner_sum of_bool 2 (map (\<lambda>b. b \<noteq> 0) (copy_args off len) @ [True]) :: 8 word"
  assumes "0 < len" and "len < 2 ^ 24"
  shows "bit cmd 7"
    "\<exists>d. copy_offset cmd (filter (\<lambda>b. b \<noteq> 0) (copy_args off len) @ rest) = Inr (word_of_nat off, d) \<and>
       copy_length cmd d = Inr (word_of_nat len, rest)"
proof -
  let ?o = "word_byte (word_of_nat off)" and ?l = "word_byte (word_of_nat len)"
  have args: "copy_args off len = [?o 0, ?o 1, ?o 2, ?o 3, ?l 0, ?l 1, ?l 2]"
    by (simp add: copy_args_def)
  have b: "bit cmd n \<longleftrightarrow> n < 8 \<and> (map (\<lambda>b. b \<noteq> 0) (copy_args off len) @ [True]) ! n" for n
    unfolding cmd_def bit_horner_sum_bit_word_iff by (auto simp: args)
  have bits: "bit cmd 0 \<longleftrightarrow> ?o 0 \<noteq> 0" "bit cmd 1 \<longleftrightarrow> ?o 1 \<noteq> 0" "bit cmd 2 \<longleftrightarrow> ?o 2 \<noteq> 0" "bit cmd 3 \<longleftrightarrow> ?o 3 \<noteq> 0"
    "bit cmd 4 \<longleftrightarrow> ?l 0 \<noteq> 0" "bit cmd 5 \<longleftrightarrow> ?l 1 \<noteq> 0" "bit cmd 6 \<longleftrightarrow> ?l 2 \<noteq> 0"
    unfolding b args by simp_all
  show "bit cmd 7" unfolding b args by simp
  have nz: "(word_of_nat len :: 32 word) \<noteq> 0"
  proof
    assume "(word_of_nat len :: 32 word) = 0"
    then have "unat (word_of_nat len :: 32 word) = 0" by simp
    then show False using assms(2,3) by (simp add: unat_of_nat)
  qed
  let ?d = "filter (\<lambda>b. b \<noteq> 0) [?l 0, ?l 1, ?l 2] @ rest"
  have "copy_offset cmd (filter (\<lambda>b. b \<noteq> 0) (copy_args off len) @ rest) = Inr (word_of_nat off, ?d)"
    using word_bytes4 [of "word_of_nat off"]
    unfolding copy_offset_def args copy_byte_opt [OF bits(1)] copy_byte_opt [OF bits(2)] copy_byte_opt [OF bits(3)]
      copy_byte_opt [OF bits(4)] and_then_simps
    by (simp add: or.assoc)
  moreover have "copy_length cmd ?d = Inr (word_of_nat len, rest)"
    using word_bytes3 [OF assms(3)] nz
    unfolding copy_length_def copy_byte_opt [OF bits(5)] copy_byte_opt [OF bits(6)] copy_byte_opt [OF bits(7)] and_then_simps
    by (simp add: or.assoc)
  ultimately show "\<exists>d. copy_offset cmd (filter (\<lambda>b. b \<noteq> 0) (copy_args off len) @ rest) = Inr (word_of_nat off, d) \<and>
       copy_length cmd d = Inr (word_of_nat len, rest)" by blast
qed

lemma delta_step_op:
  assumes "op_fits base oper" and "length base < 2 ^ 32" and "length out + length (op_result base oper) \<le> tsize"
  shows "delta_step base tsize (hd (op_encode oper)) (tl (op_encode oper) @ rest) out = Inr (out @ op_result base oper, rest)"
proof (cases oper)
  case (DCopy off len)
  let ?cmd = "horner_sum of_bool 2 (map (\<lambda>b. b \<noteq> 0) (copy_args off len) @ [True]) :: 8 word"
  have l: "0 < len" "len < 2 ^ 24" "off + len \<le> length base" using assms(1) DCopy by simp_all
  obtain d where d: "copy_offset ?cmd (filter (\<lambda>b. b \<noteq> 0) (copy_args off len) @ rest) = Inr (word_of_nat off, d)"
    "copy_length ?cmd d = Inr (word_of_nat len, rest)"
    using copy_decode(2) [OF l(1,2)] by blast
  have u: "unat (word_of_nat off + word_of_nat len :: 32 word) = off + len" "unat (word_of_nat off :: 32 word) = off"
    "unat (word_of_nat len :: 32 word) = len"
    using l(3) assms(2) by (simp_all add: unat_of_nat flip: of_nat_add)
  show ?thesis
    using copy_decode(1) [OF l(1,2), of off] l(3) assms(3) d u DCopy
    by (simp add: delta_step_def)
next
  case (DInsert bs)
  have "unat (word_of_nat (length bs) :: 8 word) = length bs" using assms(1) DInsert by (simp add: unat_of_nat)
  moreover have "\<not> bit (word_of_nat (length bs) :: 8 word) 7"
    using assms(1) DInsert by (simp add: bit_of_nat_iff bit_iff_odd [where ?'a = nat])
  moreover from calculation(1) have "(word_of_nat (length bs) :: 8 word) \<noteq> 0"
    using assms(1) DInsert by (metis unat_0 length_0_conv op_fits.simps(2))
  ultimately show ?thesis using assms(3) DInsert by (simp add: delta_step_def Let_def)
qed

lemma op_encode_Cons: "op_encode oper = hd (op_encode oper) # tl (op_encode oper)"
  by (cases oper) simp_all

lemma delta_loop_ops:
  assumes "list_all (op_fits base) ops" and "length base < 2 ^ 32" and "length out + length (delta_result base ops) \<le> tsize"
  shows "delta_loop base tsize (concat (map op_encode ops)) out = Inr (out @ delta_result base ops)"
  using assms
proof (induction ops arbitrary: out)
  case (Cons oper ops)
  have "delta_step base tsize (hd (op_encode oper)) (tl (op_encode oper) @ concat (map op_encode ops)) out =
      Inr (out @ op_result base oper, concat (map op_encode ops))"
    using Cons.prems by (intro delta_step_op) (simp_all add: delta_result_def)
  moreover have "delta_loop base tsize (concat (map op_encode ops)) (out @ op_result base oper) =
      Inr ((out @ op_result base oper) @ delta_result base ops)"
    using Cons.prems by (intro Cons.IH) (simp_all add: delta_result_def)
  ultimately have "delta_loop base tsize (hd (op_encode oper) # tl (op_encode oper) @ concat (map op_encode ops)) out =
      Inr (out @ delta_result base (oper # ops))"
    by (simp add: delta_result_def)
  moreover have "concat (map op_encode (oper # ops)) = hd (op_encode oper) # tl (op_encode oper) @ concat (map op_encode ops)"
    using op_encode_Cons [of oper] by (metis append_Cons concat.simps(2) list.map(2))
  ultimately show ?case by (simp only:)
qed (simp add: delta_result_def)

lemma applyDelta_header:
  assumes "length base < 2 ^ 32" and "n \<le> max_alloc"
  shows "applyDelta base (leb_encode (length base) @ leb_encode n @ cmds) =
    (case delta_loop base n cmds [] of
       Inl e \<Rightarrow> Inl e | Inr out \<Rightarrow> if length out \<noteq> n then Inl TargetSizeMismatch else Inr out)"
proof -
  have n: "n < 2 ^ 64" using assms(2) by (simp add: max_alloc_def)
  have b: "length base < 2 ^ 64" using assms(1) by simp
  have s: "sint (word_of_nat (length base) :: 64 word) = int (length base)"
    using assms(1) by (simp add: signed_of_nat signed_take_bit_int_eq_self)
  have u: "unat (word_of_nat n :: 64 word) = n" using n by (simp add: unat_of_nat)
  have ne: "leb_encode (length base) @ leb_encode n @ cmds \<noteq> []" using readLEB128_encode(2) [OF b] by auto
  show ?thesis
    unfolding applyDelta_def Let_def readLEB128_encode(1) [OF b] prod.case
    using readLEB128_encode(1) [OF n, of cmds] readLEB128_encode(2) [OF n] readLEB128_encode(2) [OF b] ne s u assms(2)
    by (simp split: sum.split)
qed


lemma parse_built_pack:
  assumes "list_all (whole_object sha1) objs" and "list_all (\<lambda>obj. zlib_reads_back deflate inflate (ro_Data obj)) objs"
    and "length objs < 2 ^ 32" and "\<And>b. length (sha1 b) = 20"
  shows "ParsePackfileWithBase sha1 inflate (BuildPackfile sha1 deflate objs) lookup = Inr objs"
proof -
  let ?pre = "to_bytes ''PACK'' @ put_be 4 2 @ put_be 4 (length objs)"
  let ?body = "concat (map (pack_object deflate) objs)"
  define trailer where "trailer = sha1 (?pre @ ?body)"
  have ls: "length trailer = 20" using assms(4) by (simp add: trailer_def)
  have lp: "length ?pre = 12" by simp
  have d: "BuildPackfile sha1 deflate objs = ?pre @ ?body @ trailer"
    using assms(3) by (simp add: BuildPackfile_def Let_def trailer_def)
  have v: "be_uint32 (drop 4 (?pre @ ?body @ trailer)) = 2"
    using be_uint32_put [of 2 "put_be 4 (length objs) @ ?body @ trailer"] by simp
  have n: "be_uint32 (drop 8 (?pre @ ?body @ trailer)) = length objs"
    using be_uint32_put [of "length objs" "?body @ trailer"] assms(3) by simp
  have pe: "parse_entries inflate (?pre @ ?body @ trailer) (length objs) 12 = Inr (whole_entries deflate 12 objs)"
    using parse_whole_entries [OF assms(1,2) ls, of ?pre] lp by simp
  have len: "\<not> length (?pre @ ?body @ trailer) < 12 + 20" using ls by simp
  have sig: "take 4 (?pre @ ?body @ trailer) = to_bytes ''PACK''" by simp
  have rw: "resolve_all sha1 lookup (whole_entries deflate 12 objs) = Inr objs"
    using resolve_whole [OF whole_entries_no_delta [OF assms(1)] whole_entries_distinct] whole_entries_objects [OF assms(1)] by metis
  show ?thesis
    unfolding ParsePackfileWithBase_def d Let_def v n pe and_then_simps rw
    using len sig by simp
qed

lemma extract_formatted:
  assumes "pack \<noteq> []" and "list_all (\<lambda>a. length a < 65000) acks"
  shows "ExtractPackfileFromResponse (FormatSidebandPackfile pack isV2 acks hasHaves) = Some pack"
proof -
  have "extract_loop (FormatSidebandPackfile pack isV2 acks hasHaves) = pack"
  proof -
    have "extract_loop (to_bytes writeFlushPkt) = []"
      using extract_special(1) [of "[]"] by (simp add: extract_loop.simps [of "[]"])
    then show ?thesis
      unfolding FormatSidebandPackfile_def extract_header [OF assms(2)] extract_chunks by simp
  qed
  moreover have "\<not> has_prefix (FormatSidebandPackfile pack isV2 acks hasHaves) (to_bytes ''PACK'')"
  proof -
    obtain s rest where "sideband_header isV2 acks hasHaves = writePktLineString s @ rest"
      by (cases acks; cases isV2; cases hasHaves) (simp_all add: sideband_header_def, blast+)
    then show ?thesis using sideband_not_PACK by (simp add: FormatSidebandPackfile_def)
  qed
  ultimately show ?thesis using assms(1) by (simp add: ExtractPackfileFromResponse_def Let_def)
qed

subsection \<open>Properties\<close>



text \<open>
  The sideband framing loses nothing: whatever acknowledgements, protocol version and
  number of chunks, extracting the pack from the response the proxy formats gives the pack.
\<close>

theorem sideband_round_trip:
  assumes "pack \<noteq> []" and "list_all (\<lambda>a. length a < 65000) acks"
  shows "ExtractPackfileFromResponse (FormatSidebandPackfile pack isV2 acks hasHaves) = Some pack"
  by (rule extract_formatted [OF assms])

theorem sideband_round_trip_witness:
  "ExtractPackfileFromResponse (FormatSidebandPackfile [80, 65, 67, 75] True [''ab''] True) = Some [80, 65, 67, 75]"
  by (rule sideband_round_trip) simp_all




text \<open>A copy whose offset and length overflow 32 bits passes the bounds check.\<close>

lemma overflow_step: "delta_step base 1 0x9f [0xff, 0xff, 0xff, 0xff, 1] out = Inl (if out = [] then DeltaPanic else CopyOutOfBounds)"
proof -
  have "copy_offset 0x9f [0xff, 0xff, 0xff, 0xff, 1] = Inr (0xffffffff, [1])" by code_simp
  moreover have "copy_length 0x9f [1] = Inr (1, [])" by code_simp
  ultimately show ?thesis by (simp add: delta_step_def)
qed

text \<open>
  The bounds check of a copy is done in 32 bits: a delta that copies one byte from offset
  \<open>0xffffffff\<close> passes it on every base, and taking the slice then panics.
\<close>

theorem delta_overflow_panics:
  assumes "length base < 2 ^ 32"
  shows "applyDelta base (leb_encode (length base) @ leb_encode 1 @ [0x9f, 0xff, 0xff, 0xff, 0xff, 1]) = Inl DeltaPanic"
  using applyDelta_header [OF assms, of 1] by (simp add: max_alloc_def overflow_step del: One_nat_def)

theorem delta_overflow_panics_witness:
  "applyDelta [7, 7]
     (leb_encode (length [7, 7 :: 8 word]) @ leb_encode 1 @ [0x9f, 0xff, 0xff, 0xff, 0xff, 1]) = Inl DeltaPanic"
  by (rule delta_overflow_panics) simp

lemma before_trailer:
  assumes "drop p data = front @ trailer" and "length trailer = 20"
  shows "take (length data - 20 - p) (drop p data) = front"
proof -
  have "length data - p = length front + 20" using arg_cong [OF assms(1), of length] assms(2) by simp
  then have "length data - 20 - p = length front" by simp
  then show ?thesis using assms(1) by simp
qed

text \<open>
  An empty object makes the rest of a pack unreadable: reading zero bytes takes only the
  two header bytes of its zlib stream, so that the next object is read from the middle of that
  stream.  A pack the proxy builds with an empty blob before another object is refused by its own
  parser (with Go's compressed form of the empty string, and a zlib reader that refuses the header
  bytes 0, 0).
\<close>

theorem empty_object_desync:
  assumes "deflate [] = [0x78, 0x9c, 1, 0, 0, 0xff, 0xff, 0, 0, 0, 1]"
    and "\<And>rest. inflate (deflate [] @ rest) 0 = Inr ([], 2)"
    and "\<And>n rest. inflate (0 # 0 # rest) n = Inl ''zlib: invalid header''"
    and "\<And>b. length (sha1 b) = 20" and "objs \<noteq> []" and "length objs < 2 ^ 32 - 1"
  shows "ParsePackfile sha1 inflate (BuildPackfile sha1 deflate (raw_object sha1 ObjBlob [] # objs)) =
           Inl (ZlibError ''zlib: invalid header'')"
proof -
  let ?n = "Suc (length objs)" and ?obj = "raw_object sha1 ObjBlob []"
  let ?body = "concat (map (pack_object deflate) objs)"
  let ?pre = "to_bytes ''PACK'' @ put_be 4 2 @ put_be 4 ?n"
  define trailer where "trailer = sha1 (?pre @ pack_object deflate ?obj @ ?body)"
  define data where "data = ?pre @ pack_object deflate ?obj @ ?body @ trailer"
  have ls: "length trailer = 20" using assms(4) by (simp add: trailer_def)
  have h: "object_header 3 0 = [0x30]" by code_simp
  have po: "pack_object deflate ?obj = 0x30 # deflate []" by (simp add: pack_object_def raw_object_def h)
  have d: "BuildPackfile sha1 deflate (?obj # objs) = data"
    using assms(6) by (simp add: BuildPackfile_def Let_def data_def trailer_def)
  have lp: "length ?pre = 12" by simp
  have l: "length data = 12 + (1 + (11 + (length ?body + 20)))"
    unfolding data_def length_append lp po ls by (simp add: assms(1))
  have first: "\<exists>e. parse_entry inflate data 12 = Inr (e, 15)"
  proof -
    have dr0: "drop 12 data = 0x30 # deflate [] @ ?body @ trailer" using lp by (simp add: data_def po)
    have tk: "take (length data - 20 - 12) (drop 12 data) = 0x30 # deflate [] @ ?body"
      using before_trailer [OF _ ls, of 12 data "0x30 # deflate [] @ ?body"] dr0 by simp
    have r: "read_size 0x30 hs = Some (0, hs)" for hs by (simp add: read_size_def)
    have t: "unat (drop_bit 4 (0x30 :: 8 word) AND 0x07) = 3" by code_simp
    have st: "length data - 20 - length (deflate [] @ ?body) = 13" using l assms(1) by simp
    have dr: "drop 13 data = deflate [] @ ?body @ trailer" using lp by (simp add: data_def po)
    have rb: "read_base 3 12 hs = Inr (0, [], hs)" for hs by (simp add: read_base_def)
    show ?thesis
      unfolding parse_entry_def Let_def tk list.case r option.case prod.case t rb and_then_simps st dr
      by (simp add: assms(2) max_alloc_def)
  qed
  have second: "parse_entry inflate data 15 = Inl (ZlibError ''zlib: invalid header'')"
  proof -
    have dr: "drop 15 data = 1 # 0 # 0 # [0xff, 0xff, 0, 0, 0, 1] @ ?body @ trailer"
      using lp by (simp add: data_def po assms(1))
    have tk: "take (length data - 20 - 15) (drop 15 data) = 1 # 0 # 0 # [0xff, 0xff, 0, 0, 0, 1] @ ?body"
      using before_trailer [OF _ ls, of 15 data "1 # 0 # 0 # [0xff, 0xff, 0, 0, 0, 1] @ ?body"] dr by simp
    have r: "read_size 1 hs = Some (1, hs)" for hs by (simp add: read_size_def)
    have t: "unat (drop_bit 4 (1 :: 8 word) AND 0x07) = 0" by code_simp
    have st: "length data - 20 - length (0 # 0 # [0xff, 0xff, 0, 0, 0, 1 :: 8 word] @ ?body) = 16" using l by simp
    have dr2: "drop 16 data = 0 # 0 # [0xff, 0xff, 0, 0, 0, 1] @ ?body @ trailer"
      using arg_cong [OF dr, of tl] by (simp add: drop_Suc tl_drop flip: drop_Suc)
    have rb: "read_base 0 15 hs = Inr (0, [], hs)" for hs by (simp add: read_base_def)
    show ?thesis
      unfolding parse_entry_def Let_def tk list.case r option.case prod.case t rb and_then_simps st dr2 assms(3) sum.case
      by (simp add: max_alloc_def)
  qed
  obtain m where m: "length objs = Suc m" using assms(5) by (cases objs) auto
  have pe: "parse_entries inflate data ?n 12 = Inl (ZlibError ''zlib: invalid header'')"
    using first second unfolding m by auto
  have v: "be_uint32 (drop 4 data) = 2"
    using be_uint32_put [of 2 "put_be 4 ?n @ pack_object deflate ?obj @ ?body @ trailer"] by (simp add: data_def)
  have n: "be_uint32 (drop 8 data) = ?n"
    using be_uint32_put [of ?n "pack_object deflate ?obj @ ?body @ trailer"] assms(6) by (simp add: data_def)
  show ?thesis
    unfolding d ParsePackfile_def ParsePackfileWithBase_def Let_def v n pe and_then_simps
    using l by (simp add: data_def)
qed

theorem empty_object_desync_witness:
  "let sha1 = (\<lambda>_. replicate 20 0); deflate = (\<lambda>d. if d = [] then [0x78, 0x9c, 1, 0, 0, 0xff, 0xff, 0, 0, 0, 1] else d);
       inflate = (\<lambda>s n. if take 2 s = [0, 0] then Inl ''zlib: invalid header''
                        else if n = 0 then Inr ([], 2) else Inr (take n s, n))
   in ParsePackfile sha1 inflate (BuildPackfile sha1 deflate [raw_object sha1 ObjBlob [], raw_object sha1 ObjBlob [1]]) =
        Inl (ZlibError ''zlib: invalid header'')"
  unfolding Let_def by (rule empty_object_desync) simp_all

end
