(* ===== verification/Git_Repo.thy ===== *)
theory Git_Repo
  imports Git_Packfile "HOL-Library.List_Lexorder" "HOL-Library.Char_ord"
begin

text \<open>
  pkg/gitproxy/repocache.go: the per-repository object store of the Git proxy with its commit graph,
  the ingestion of packs, the search for the objects of a commit, the collection of what a fetch
  needs, and the table of stores.  A Go map that is used as a set is the list of its keys in the
  order of insertion.  The searches are loops over a queue that only end because the graph is finite:
  they are partial functions, and that they return is a theorem.
\<close>

subsection \<open>The store\<close>

record RepoStore =
  gs_objects :: "string \<rightharpoonup> RawObject"
  gs_commits :: "string \<rightharpoonup> CommitInfo"
  gs_treeEntries :: "string \<rightharpoonup> string list"
  gs_commitObjects :: "string \<rightharpoonup> string list"
  gs_dir :: string

definition NewRepoStore :: "string \<Rightarrow> RepoStore" where
  "NewRepoStore dir =
     \<lparr>gs_objects = (\<lambda>_. None), gs_commits = (\<lambda>_. None), gs_treeEntries = (\<lambda>_. None),
      gs_commitObjects = (\<lambda>_. None), gs_dir = dir\<rparr>"

definition HasCommit :: "RepoStore \<Rightarrow> string \<Rightarrow> bool" where
  "HasCommit s oid \<longleftrightarrow> gs_commits s oid \<noteq> None"

definition HasAllCommits :: "RepoStore \<Rightarrow> string list \<Rightarrow> bool" where
  "HasAllCommits s oids \<longleftrightarrow> oids \<noteq> [] \<and> list_all (\<lambda>oid. gs_commits s oid \<noteq> None) oids"

definition GetCommit :: "RepoStore \<Rightarrow> string \<Rightarrow> CommitInfo option" where
  "GetCommit s oid = gs_commits s oid"

text \<open>\<open>ord\<close> gives the order in which a range over the commits visits them.\<close>

type_synonym commit_order = "(string \<rightharpoonup> CommitInfo) \<Rightarrow> string list"

definition GetKnownCommits :: "commit_order \<Rightarrow> RepoStore \<Rightarrow> string list" where
  "GetKnownCommits ord s = sort (ord (gs_commits s))"

subsection \<open>Searching\<close>

text \<open>
  The loop over the successors of a node: unless it is skipped or visited, a successor is added to the
  visited nodes, and to the queue if it is to be expanded.
\<close>

fun mark_all ::
  "('a \<Rightarrow> bool) \<Rightarrow> ('a \<Rightarrow> bool) \<Rightarrow> 'a list \<Rightarrow> 'a list \<times> 'a list \<Rightarrow> 'a list \<times> 'a list" where
  "mark_all skip enq [] s = s"
| "mark_all skip enq (y # ys) (visited, queue) =
     mark_all skip enq ys
       (if skip y \<or> y \<in> set visited then (visited, queue)
        else (visited @ [y], if enq y then queue @ [y] else queue))"

partial_function (option) search ::
  "('a \<Rightarrow> 'a list \<times> 'a list \<Rightarrow> 'a list \<times> 'a list) \<Rightarrow> 'a list \<times> 'a list \<Rightarrow> 'a list option" where
  "search body s =
     (case snd s of
        [] \<Rightarrow> Some (fst s)
      | x # queue \<Rightarrow> search body (body x (fst s, queue)))"

declare search.simps [code]

definition children :: "RepoStore \<Rightarrow> string \<Rightarrow> string list" where
  "children s oid = (case gs_treeEntries s oid of None \<Rightarrow> [] | Some es \<Rightarrow> es)"

definition is_tree :: "RepoStore \<Rightarrow> string \<Rightarrow> bool" where
  "is_tree s oid = (case gs_objects s oid of None \<Rightarrow> False | Some obj \<Rightarrow> ro_Type obj = ObjTree)"

definition parents :: "RepoStore \<Rightarrow> string \<Rightarrow> string list" where
  "parents s oid = (case gs_commits s oid of None \<Rightarrow> [] | Some c \<Rightarrow> co_Parents c)"

definition add_key :: "'a \<Rightarrow> 'a list \<Rightarrow> 'a list" where
  "add_key k ks = (if k \<in> set ks then ks else ks @ [k])"

definition tree_body :: "RepoStore \<Rightarrow> string \<Rightarrow> string list \<times> string list \<Rightarrow> string list \<times> string list" where
  "tree_body s treeOID st =
     mark_all (\<lambda>_. False) (is_tree s) (children s treeOID) (add_key treeOID (fst st), snd st)"

definition have_body :: "RepoStore \<Rightarrow> string \<Rightarrow> string list \<times> string list \<Rightarrow> string list \<times> string list" where
  "have_body s cur st = mark_all (\<lambda>_. False) (\<lambda>_. True) (parents s cur) st"

definition want_body ::
  "RepoStore \<Rightarrow> string list \<Rightarrow> string \<Rightarrow> string list \<times> string list \<Rightarrow> string list \<times> string list" where
  "want_body s excluded cur st = mark_all (\<lambda>p. p \<in> set excluded) (\<lambda>_. True) (parents s cur) st"

definition computeReachableObjects :: "RepoStore \<Rightarrow> CommitInfo \<Rightarrow> RepoStore option" where
  "computeReachableObjects s commit =
     map_option (\<lambda>objectList. s\<lparr>gs_commitObjects := (gs_commitObjects s)(co_OID commit \<mapsto> objectList)\<rparr>)
       (if co_Tree commit \<noteq> [] then search (tree_body s) ([co_OID commit], [co_Tree commit])
        else Some [co_OID commit])"

subsection \<open>Ingesting a pack\<close>

definition store_object :: "RawObject \<Rightarrow> RepoStore \<Rightarrow> RepoStore" where
  "store_object obj s0 =
     (let s = s0\<lparr>gs_objects := (gs_objects s0)(ro_OID obj \<mapsto> obj)\<rparr> in
      if ro_Type obj = ObjTree
      then s\<lparr>gs_treeEntries := (gs_treeEntries s)(ro_OID obj \<mapsto> ParseTreeEntries (ro_Data obj))\<rparr>
      else if ro_Type obj = ObjCommit
      then s\<lparr>gs_commits := (gs_commits s)(ro_OID obj \<mapsto> ParseCommitObject (ro_OID obj) (ro_Data obj))\<rparr>
      else s)"

fun compute_all :: "string list \<Rightarrow> RepoStore \<Rightarrow> RepoStore option" where
  "compute_all [] s = Some s"
| "compute_all (oid # oids) s =
     (case gs_commits s oid of
        None \<Rightarrow> compute_all oids s
      | Some commit \<Rightarrow> Option.bind (computeReachableObjects s commit) (compute_all oids))"

definition IngestPackfile ::
  "(bytes \<Rightarrow> bytes) \<Rightarrow> inflater \<Rightarrow> commit_order \<Rightarrow> bytes \<Rightarrow> RepoStore \<Rightarrow>
   ((pack_error + string list) \<times> RepoStore) option" where
  "IngestPackfile sha1 inflate ord packData s =
     (case ParsePackfileWithBase sha1 inflate packData (gs_objects s) of
        Inl err \<Rightarrow> Some (Inl err, s)
      | Inr objects \<Rightarrow>
          (let s1 = fold store_object objects s;
               newCommits = map ro_OID (filter (\<lambda>obj. ro_Type obj = ObjCommit) objects)
           in map_option (\<lambda>s2. (Inr newCommits, s2)) (compute_all (ord (gs_commits s1)) s1)))"

subsection \<open>Collecting the objects of a fetch\<close>

definition commit_objects :: "RepoStore \<Rightarrow> string \<Rightarrow> string list" where
  "commit_objects s oid = (case gs_commitObjects s oid of None \<Rightarrow> [] | Some oids \<Rightarrow> oids)"

definition excluded_commits :: "RepoStore \<Rightarrow> string list \<Rightarrow> string list option" where
  "excluded_commits s acks = search (have_body s) (fold add_key acks [], acks)"

definition needed_commits :: "RepoStore \<Rightarrow> string list \<Rightarrow> string list \<Rightarrow> string list option" where
  "needed_commits s excluded wants =
     (let start = filter (\<lambda>w. w \<notin> set excluded) wants
      in search (want_body s excluded) (fold add_key start [], start))"

text \<open>\<open>perm\<close> gives the order in which the range over the needed commits visits them.\<close>

definition final_oids ::
  "RepoStore \<Rightarrow> (string list \<Rightarrow> string list) \<Rightarrow> string list \<Rightarrow> string list \<Rightarrow> string list \<Rightarrow> string list" where
  "final_oids s perm excluded needed wants =
     (let haveObjects = concat (map (commit_objects s) excluded);
          oids = fold (\<lambda>oid f. if oid \<in> set haveObjects then f else add_key oid f)
                   (concat (map (commit_objects s) (perm needed))) []
      in if oids = [] then fold add_key wants [] else oids)"

definition CollectObjectsForCommits ::
  "(string list \<Rightarrow> string list) \<Rightarrow> RepoStore \<Rightarrow> string list \<Rightarrow> string list \<Rightarrow>
   (RawObject list \<times> string list) option" where
  "CollectObjectsForCommits perm s wants haves =
     (let acks = filter (\<lambda>h. gs_commits s h \<noteq> None) haves in
      Option.bind (excluded_commits s acks) (\<lambda>excluded.
      Option.bind (needed_commits s excluded wants) (\<lambda>needed.
        Some (List.map_filter (gs_objects s) (final_oids s perm excluded needed wants), acks))))"

subsection \<open>The table of stores\<close>

record RepoCacheManager =
  cm_stores :: "string \<rightharpoonup> RepoStore"
  cm_cacheDir :: string

definition NewRepoCacheManager :: "string \<Rightarrow> RepoCacheManager" where
  "NewRepoCacheManager cacheDir = \<lparr>cm_stores = (\<lambda>_. None), cm_cacheDir = cacheDir\<rparr>"

definition GetRepoStore :: "(bytes \<Rightarrow> bytes) \<Rightarrow> string \<Rightarrow> RepoCacheManager \<Rightarrow> RepoStore \<times> RepoCacheManager" where
  "GetRepoStore sha256 repoID m =
     (case cm_stores m repoID of
        Some store \<Rightarrow> (store, m)
      | None \<Rightarrow>
          (let repoDir = (if cm_cacheDir m \<noteq> []
                          then path_join (cm_cacheDir m) (hex_encode (take 8 (sha256 (to_bytes repoID)))) else []);
               store = NewRepoStore repoDir
           in (store, m\<lparr>cm_stores := (cm_stores m)(repoID \<mapsto> store)\<rparr>)))"

subsection \<open>What a search finds\<close>

lemma mark_all_spec:
  "\<exists>new. mark_all skip enq ys (visited, queue) = (visited @ new, queue @ filter enq new) \<and> distinct new \<and>
     set new = {y \<in> set ys. \<not> skip y} - set visited"
proof (induction ys arbitrary: visited queue)
  case (Cons y ys)
  show ?case
  proof (cases "skip y \<or> y \<in> set visited")
    case True
    then show ?thesis using Cons [of visited queue] by auto
  next
    case False
    obtain new where "mark_all skip enq ys (visited @ [y], if enq y then queue @ [y] else queue) =
        ((visited @ [y]) @ new, (if enq y then queue @ [y] else queue) @ filter enq new)"
      "distinct new" "set new = {y \<in> set ys. \<not> skip y} - set (visited @ [y])"
      using Cons [of "visited @ [y]" "if enq y then queue @ [y] else queue"] by blast
    then show ?thesis using False by (intro exI [of _ "y # new"]) auto
  qed
qed simp

text \<open>
  A search body expands a visited node by \<open>next\<close>.  The three searches of the store have such bodies, and
  what a search of this kind returns is proved once: the nodes it started with and new ones, each once,
  all of them descendants of the queue, closed under the successors of the nodes that were expanded.
\<close>

locale graph_search =
  fixes body :: "'a \<Rightarrow> 'a list \<times> 'a list \<Rightarrow> 'a list \<times> 'a list"
    and succs :: "'a \<Rightarrow> 'a list"
    and skip :: "'a \<Rightarrow> bool"
    and enq :: "'a \<Rightarrow> bool"
  assumes expands: "x \<in> set visited \<Longrightarrow> body x (visited, queue) = mark_all skip enq (succs x) (visited, queue)"
begin

definition edges :: "('a \<times> 'a) set" where
  "edges = {(x, y). y \<in> set (succs x) \<and> \<not> skip y}"

lemma edges_Image: "edges `` {x} = {y \<in> set (succs x). \<not> skip y}"
  by (auto simp: edges_def)

lemma body_step:
  assumes "x \<in> set visited"
  shows "\<exists>new. body x (visited, queue) = (visited @ new, queue @ filter enq new) \<and> distinct new \<and>
    set new = edges `` {x} - set visited"
  unfolding expands [OF assms] edges_Image by (rule mark_all_spec)

definition explores :: "'a list \<Rightarrow> 'a list \<Rightarrow> 'a list \<Rightarrow> bool" where
  "explores visited queue found \<longleftrightarrow>
     (\<exists>new. found = visited @ new \<and> distinct new \<and> set new \<inter> set visited = {} \<and>
        edges `` (set queue \<union> {x \<in> set new. enq x}) \<subseteq> set found \<and> set new \<subseteq> edges\<^sup>+ `` set queue)"

lemma explores_Nil: "explores visited [] visited"
  by (simp add: explores_def)

lemma explores_step:
  assumes "explores (visited @ n1) (q @ filter enq n1) found" and "distinct n1"
    and "set n1 = edges `` {x} - set visited"
  shows "explores visited (x # q) found"
proof -
  obtain n2 where n2: "found = (visited @ n1) @ n2" "distinct n2" "set n2 \<inter> set (visited @ n1) = {}"
    "edges `` (set (q @ filter enq n1) \<union> {x \<in> set n2. enq x}) \<subseteq> set found"
    "set n2 \<subseteq> edges\<^sup>+ `` set (q @ filter enq n1)"
    using assms(1) unfolding explores_def by blast
  have d2: "y \<in> edges\<^sup>+ `` set (x # q)" if "y \<in> set n2" for y
  proof -
    have "y \<in> edges\<^sup>+ `` set (q @ filter enq n1)" using n2(5) that by (rule subsetD)
    then obtain z where z: "(z, y) \<in> edges\<^sup>+" "z \<in> set q \<or> z \<in> set n1" by auto
    from z(2) show ?thesis
    proof
      assume "z \<in> set q"
      then show ?thesis using z(1) by auto
    next
      assume "z \<in> set n1"
      then have "(x, z) \<in> edges" using assms(3) by blast
      then have "(x, y) \<in> edges\<^sup>+" using z(1) by (rule trancl_into_trancl2)
      then show ?thesis by auto
    qed
  qed
  have d1: "y \<in> edges\<^sup>+ `` set (x # q)" if "y \<in> set n1" for y using that assms(3) by auto
  have c: "edges `` {x} \<subseteq> set found" using assms(3) n2(1) by auto
  have "found = visited @ (n1 @ n2)" "distinct (n1 @ n2)" "set (n1 @ n2) \<inter> set visited = {}"
    using n2(1,2,3) assms(2,3) by auto
  moreover have "edges `` (set (x # q) \<union> {x \<in> set (n1 @ n2). enq x}) \<subseteq> set found"
  proof -
    have "set (x # q) \<union> {x \<in> set (n1 @ n2). enq x} =
        {x} \<union> (set (q @ filter enq n1) \<union> {x \<in> set n2. enq x})" by auto
    then show ?thesis using c n2(4) by (simp only: Image_Un Un_subset_iff)
  qed
  moreover have "set (n1 @ n2) \<subseteq> edges\<^sup>+ `` set (x # q)" using d1 d2 by auto
  ultimately show ?thesis unfolding explores_def by blast
qed

lemma search_result:
  assumes "search body (visited, queue) = Some found" and "set queue \<subseteq> set visited"
  shows "explores visited queue found"
proof -
  have "body = body \<longrightarrow> set (snd (visited, queue)) \<subseteq> set (fst (visited, queue)) \<longrightarrow>
      explores (fst (visited, queue)) (snd (visited, queue)) found"
    using assms(1)
  proof (rule search.raw_induct [where P = "\<lambda>b s found. b = body \<longrightarrow> set (snd s) \<subseteq> set (fst s) \<longrightarrow>
      explores (fst s) (snd s) found", rotated], goal_cases)
    case (1 srch b s found)
    show ?case
    proof (intro impI, cases "snd s")
      case Nil
      then have "found = fst s" using 1(2) by simp
      then show "explores (fst s) (snd s) found" using Nil by (simp add: explores_Nil)
    next
      case (Cons x q)
      assume b: "b = body" and sub: "set (snd s) \<subseteq> set (fst s)"
        then have xs: "x \<in> set (fst s)" using Cons by simp
        obtain n1 where n1: "body x (fst s, q) = (fst s @ n1, q @ filter enq n1)" "distinct n1"
          "set n1 = edges `` {x} - set (fst s)"
          using body_step [OF xs, of q] by blast
        have e: "srch b (fst s @ n1, q @ filter enq n1) = Some found" using 1(2) b Cons n1(1) by simp
        have "set (q @ filter enq n1) \<subseteq> set (fst s @ n1)" using sub Cons by auto
        then have "explores (fst s @ n1) (q @ filter enq n1) found" using 1(1) [OF e] b by simp
        then show "explores (fst s) (snd s) found" using explores_step n1(2,3) Cons by simp
    qed
  qed
  then show ?thesis using assms(2) by simp
qed

lemma search_returns:
  assumes "finite nodes" and "set visited \<subseteq> nodes" and "edges `` nodes \<subseteq> nodes" and "set queue \<subseteq> set visited"
  shows "\<exists>found. search body (visited, queue) = Some found"
  using assms(2,4)
proof (induction "2 * card (nodes - set visited) + length queue" arbitrary: visited queue rule: less_induct)
  case less
  show ?case
  proof (cases queue)
    case Nil
    then show ?thesis by (simp add: search.simps)
  next
    case (Cons x q)
    obtain new where new: "body x (visited, q) = (visited @ new, q @ filter enq new)" "distinct new"
      "set new = edges `` {x} - set visited"
      using body_step [of x visited q] less.prems(2) Cons by auto
    have sub: "set new \<subseteq> nodes" using new(3) less.prems assms(3) Cons by auto
    have c: "card (nodes - set (visited @ new)) + length new = card (nodes - set visited)"
    proof -
      have "nodes - set (visited @ new) = (nodes - set visited) - set new" by auto
      moreover have "set new \<subseteq> nodes - set visited" using sub new(3) by auto
      ultimately show ?thesis
        using assms(1) new(2) by (metis card_Diff_subset card_mono distinct_card finite_Diff finite_set le_add_diff_inverse2)
    qed
    have le: "length (filter enq new) \<le> length new" by simp
    have "2 * card (nodes - set (visited @ new)) + length (q @ filter enq new) <
        2 * card (nodes - set visited) + length queue"
      unfolding Cons length_append list.size using c le by linarith
    then have "\<exists>found. search body (visited @ new, q @ filter enq new) = Some found"
      using less.hyps [of "visited @ new" "q @ filter enq new"] sub less.prems Cons by auto
    then show ?thesis by (subst search.simps) (simp add: Cons new(1))
  qed
qed

text \<open>When nodes that are not queued have no successors, the search finds exactly what can be reached.\<close>

lemma search_reaches:
  assumes "search body (visited, queue) = Some found" and "set queue \<subseteq> set visited"
    and "edges `` (set visited - set queue) \<subseteq> set visited" and "\<And>x. \<not> enq x \<Longrightarrow> succs x = []"
  shows "set found = edges\<^sup>* `` set visited" "\<exists>new. found = visited @ new \<and> distinct new \<and> set new \<inter> set visited = {}"
proof -
  obtain new where new: "found = visited @ new" "distinct new" "set new \<inter> set visited = {}"
    "edges `` (set queue \<union> {x \<in> set new. enq x}) \<subseteq> set found" "set new \<subseteq> edges\<^sup>+ `` set queue"
    using search_result [OF assms(1,2)] unfolding explores_def by blast
  have closed: "edges `` set found \<subseteq> set found"
  proof (rule subsetI, elim ImageE)
    fix x y assume x: "x \<in> set found" "(x, y) \<in> edges"
    have "enq x" using assms(4) x(2) by (fastforce simp: edges_def)
    then have "x \<in> set queue \<union> {x \<in> set new. enq x} \<or> x \<in> set visited - set queue" using x(1) new(1) by auto
    then show "y \<in> set found"
    proof
      assume "x \<in> set queue \<union> {x \<in> set new. enq x}"
      then show ?thesis using x(2) new(4) by blast
    next
      assume "x \<in> set visited - set queue"
      then have "y \<in> set visited" using x(2) assms(3) by blast
      then show ?thesis using new(1) by simp
    qed
  qed
  have "edges\<^sup>* `` set visited \<subseteq> edges\<^sup>* `` set found" using new(1) by (intro Image_mono) auto
  also have "\<dots> = set found" using closed by (rule Image_closed_trancl)
  finally have "edges\<^sup>* `` set visited \<subseteq> set found" .
  moreover have "edges\<^sup>+ `` set queue \<subseteq> edges\<^sup>* `` set visited"
    using assms(2) by (intro Image_mono) (auto dest: trancl_into_rtrancl)
  then have "set found \<subseteq> edges\<^sup>* `` set visited" unfolding new(1) set_append using new(5) by blast
  ultimately show "set found = edges\<^sup>* `` set visited" by blast
  show "\<exists>new. found = visited @ new \<and> distinct new \<and> set new \<inter> set visited = {}" using new(1-3) by blast
qed

end

lemma add_key_set [simp]: "set (add_key k ks) = insert k (set ks)" "distinct (add_key k ks) \<longleftrightarrow> distinct ks"
  by (auto simp: add_key_def)

lemma fold_add_key [simp]: "set (fold add_key ks acc) = set ks \<union> set acc" "distinct acc \<Longrightarrow> distinct (fold add_key ks acc)"
  by (induction ks arbitrary: acc) auto

interpretation tree: graph_search "tree_body s" "children s" "\<lambda>_. False" "is_tree s" for s
  by unfold_locales (simp add: tree_body_def add_key_def)

interpretation haves: graph_search "have_body s" "parents s" "\<lambda>_. False" "\<lambda>_. True" for s
  by unfold_locales (simp add: have_body_def)

interpretation wants: graph_search "want_body s excluded" "parents s" "\<lambda>p. p \<in> set excluded" "\<lambda>_. True" for s excluded
  by unfold_locales (simp add: want_body_def)

subsection \<open>The object graph\<close>

text \<open>
  The specification, stated on the stored objects alone: the links of trees and of commits, and the
  content of a commit, that is, its object and whatever its tree leads to.
\<close>

definition tree_links :: "RepoStore \<Rightarrow> (string \<times> string) set" where
  "tree_links s = {(a, b). \<exists>obj. gs_objects s a = Some obj \<and> ro_Type obj = ObjTree \<and> b \<in> set (ParseTreeEntries (ro_Data obj))}"

definition parent_links :: "RepoStore \<Rightarrow> (string \<times> string) set" where
  "parent_links s =
     {(a, b). \<exists>obj. gs_objects s a = Some obj \<and> ro_Type obj = ObjCommit \<and> b \<in> set (co_Parents (ParseCommitObject a (ro_Data obj)))}"

definition content :: "RepoStore \<Rightarrow> string \<Rightarrow> string set" where
  "content s oid =
     (case gs_commits s oid of
        None \<Rightarrow> {}
      | Some c \<Rightarrow> insert oid (if co_Tree c = [] then {} else (tree_links s)\<^sup>* `` {co_Tree c}))"

definition stored_tree :: "RawObject option \<Rightarrow> string list option" where
  "stored_tree x = (case x of None \<Rightarrow> None | Some obj \<Rightarrow>
     if ro_Type obj = ObjTree then Some (ParseTreeEntries (ro_Data obj)) else None)"

definition stored_commit :: "RawObject option \<Rightarrow> CommitInfo option" where
  "stored_commit x = (case x of None \<Rightarrow> None | Some obj \<Rightarrow>
     if ro_Type obj = ObjCommit then Some (ParseCommitObject (ro_OID obj) (ro_Data obj)) else None)"

text \<open>The derived tables agree with the objects.\<close>

definition store_graph :: "RepoStore \<Rightarrow> bool" where
  "store_graph s \<longleftrightarrow>
     finite (dom (gs_objects s)) \<and> (\<forall>oid obj. gs_objects s oid = Some obj \<longrightarrow> ro_OID obj = oid) \<and>
     gs_treeEntries s = (\<lambda>oid. stored_tree (gs_objects s oid)) \<and>
     gs_commits s = (\<lambda>oid. stored_commit (gs_objects s oid))"

text \<open>In addition, the list of objects of every commit is exactly its content.\<close>

definition store_inv :: "RepoStore \<Rightarrow> bool" where
  "store_inv s \<longleftrightarrow>
     store_graph s \<and>
     (\<forall>oid. gs_commits s oid \<noteq> None \<longrightarrow>
        (\<exists>l. gs_commitObjects s oid = Some l \<and> distinct l \<and> set l = content s oid)) \<and>
     dom (gs_commitObjects s) \<subseteq> dom (gs_commits s)"

lemma store_graph_new: "store_graph (NewRepoStore dir)" "store_inv (NewRepoStore dir)"
  by (simp_all add: store_inv_def store_graph_def NewRepoStore_def stored_tree_def stored_commit_def)

lemma ParseCommitObject_OID [simp]: "co_OID (ParseCommitObject oid data) = oid"
proof -
  have "co_OID (fold commit_line ls c) = co_OID c" for ls c
    by (induction ls arbitrary: c) (simp_all add: commit_line_def Let_def)
  then show ?thesis by (simp add: ParseCommitObject_def Let_def)
qed

lemma tree_edges: "store_graph s \<Longrightarrow> tree.edges s = tree_links s"
  unfolding tree.edges_def tree_links_def store_graph_def children_def stored_tree_def
  by (auto split: option.splits if_splits)

lemma parent_edges: "store_graph s \<Longrightarrow> haves.edges s = parent_links s"
  unfolding haves.edges_def parent_links_def store_graph_def parents_def stored_commit_def
  by (auto split: option.splits if_splits)

lemma children_leaf: "store_graph s \<Longrightarrow> \<not> is_tree s x \<Longrightarrow> children s x = []"
  by (auto simp: store_graph_def children_def is_tree_def stored_tree_def split: option.splits)

lemma commit_not_tree: "store_graph s \<Longrightarrow> gs_commits s x = Some c \<Longrightarrow> \<not> is_tree s x \<and> co_OID c = x"
  by (auto simp: store_graph_def is_tree_def stored_commit_def split: option.splits if_splits)

text \<open>A finite store: all that the searches need to end.\<close>

definition store_finite :: "RepoStore \<Rightarrow> bool" where
  "store_finite s \<longleftrightarrow> finite (dom (gs_commits s)) \<and> finite (dom (gs_treeEntries s))"

lemma graph_finite:
  assumes "store_graph s"
  shows "store_finite s"
proof -
  have eq: "gs_commits s x = stored_commit (gs_objects s x)" "gs_treeEntries s x = stored_tree (gs_objects s x)" for x
    using assms by (simp_all add: store_graph_def)
  have "dom (gs_commits s) \<subseteq> dom (gs_objects s)" "dom (gs_treeEntries s) \<subseteq> dom (gs_objects s)"
    unfolding dom_def eq stored_commit_def stored_tree_def by (auto split: option.splits)
  moreover have "finite (dom (gs_objects s))" using assms by (simp add: store_graph_def)
  ultimately show ?thesis unfolding store_finite_def by (blast intro: finite_subset)
qed

lemma tree_search_ends:
  assumes "store_finite s" and "set queue \<subseteq> set visited"
  shows "\<exists>found. search (tree_body s) (visited, queue) = Some found"
proof -
  let ?n = "set visited \<union> (\<Union>x\<in>dom (gs_treeEntries s). set (children s x))"
  have "set (children s x) \<subseteq> ?n" for x
    by (cases "gs_treeEntries s x") (auto simp: children_def)
  then have "tree.edges s `` ?n \<subseteq> ?n" unfolding tree.edges_def by blast
  then show ?thesis using assms by (intro tree.search_returns [of ?n]) (auto simp: store_finite_def)
qed

lemma parents_nodes: "set (parents s x) \<subseteq> start \<union> (\<Union>x\<in>dom (gs_commits s). set (parents s x))"
  by (cases "gs_commits s x") (auto simp: parents_def)

lemma have_search_ends:
  assumes "store_finite s" and "set queue \<subseteq> set visited"
  shows "\<exists>found. search (have_body s) (visited, queue) = Some found"
proof -
  let ?n = "set visited \<union> (\<Union>x\<in>dom (gs_commits s). set (parents s x))"
  have "haves.edges s `` ?n \<subseteq> ?n" using parents_nodes [of s _ "set visited"] unfolding haves.edges_def by blast
  then show ?thesis using assms by (intro haves.search_returns [of ?n]) (auto simp: store_finite_def)
qed

lemma want_search_ends:
  assumes "store_finite s" and "set queue \<subseteq> set visited"
  shows "\<exists>found. search (want_body s excluded) (visited, queue) = Some found"
proof -
  let ?n = "set visited \<union> (\<Union>x\<in>dom (gs_commits s). set (parents s x))"
  have "wants.edges s excluded `` ?n \<subseteq> ?n" using parents_nodes [of s _ "set visited"] unfolding wants.edges_def by blast
  then show ?thesis using assms by (intro wants.search_returns [of ?n]) (auto simp: store_finite_def)
qed

lemma search_root: "search (tree_body s) (visited, [t]) = search (tree_body s) (add_key t visited, [t])"
proof -
  have "tree_body s t (visited, []) = tree_body s t (add_key t visited, [])"
    by (simp add: tree_body_def add_key_def)
  then show ?thesis by (simp add: search.simps [of _ "(_, [t])"])
qed

lemma Image_insert_Un: "r `` insert a b = r `` {a} \<union> r `` b"
  by blast

lemma compute_reachable:
  assumes "store_graph s" and "gs_commits s oid = Some c"
  shows "\<exists>l. computeReachableObjects s c = Some (s\<lparr>gs_commitObjects := (gs_commitObjects s)(oid \<mapsto> l)\<rparr>) \<and>
    distinct l \<and> set l = content s oid"
proof (cases "co_Tree c = []")
  case True
  then show ?thesis
    using commit_not_tree [OF assms]
    by (intro exI [of _ "[oid]"]) (simp add: computeReachableObjects_def content_def assms(2))
next
  case False
  let ?t = "co_Tree c" and ?v = "add_key (co_Tree c) [oid]"
  have o: "co_OID c = oid" "\<not> is_tree s oid" using commit_not_tree [OF assms] by simp_all
  have "\<exists>l. search (tree_body s) (?v, [?t]) = Some l"
    by (rule tree_search_ends [OF graph_finite [OF assms(1)]]) simp
  then obtain l where l: "search (tree_body s) (?v, [?t]) = Some l" by blast
  have no: "tree.edges s `` {oid} = {}"
    using children_leaf [OF assms(1) o(2)] by (auto simp: tree.edges_def)
  then have "tree.edges s `` (set ?v - set [?t]) \<subseteq> set ?v" by auto
  note r = tree.search_reaches [OF l _ this children_leaf [OF assms(1)], simplified]
  obtain new where "l = ?v @ new" "distinct new" "set new \<inter> set ?v = {}" using r(2) by auto
  moreover have "distinct ?v" by simp
  ultimately have "distinct l" by (simp only: distinct_append) blast
  moreover have "set l = content s oid"
  proof -
    have "(tree.edges s)\<^sup>* `` {oid} = {oid}" using no by (intro Image_closed_trancl) simp
    moreover have "(tree.edges s)\<^sup>* `` set ?v = (tree.edges s)\<^sup>* `` {?t} \<union> (tree.edges s)\<^sup>* `` {oid}"
      unfolding add_key_set(1) list.set by (rule Image_insert_Un)
    ultimately have "(tree.edges s)\<^sup>* `` set ?v = insert oid ((tree_links s)\<^sup>* `` {?t})"
      using tree_edges [OF assms(1)] by simp
    then show ?thesis using r(1) False by (simp add: content_def assms(2))
  qed
  ultimately show ?thesis
    using l False search_root [of s "[oid]" ?t]
    by (intro exI [of _ l]) (simp add: computeReachableObjects_def o(1))
qed

subsection \<open>Ingestion keeps the store right\<close>

text \<open>Object ids identify objects: an object of the pack with a known id is the known object.\<close>

definition no_collision :: "RepoStore \<Rightarrow> RawObject list \<Rightarrow> bool" where
  "no_collision s objs \<longleftrightarrow>
     (\<forall>obj\<in>set objs. (\<forall>p. gs_objects s (ro_OID obj) = Some p \<longrightarrow> p = obj) \<and>
        (\<forall>q\<in>set objs. ro_OID q = ro_OID obj \<longrightarrow> q = obj))"

lemma store_object_objects: "gs_objects (store_object obj s) = (gs_objects s)(ro_OID obj \<mapsto> obj)"
  by (simp add: store_object_def Let_def)

lemma store_object_commitObjects: "gs_commitObjects (store_object obj s) = gs_commitObjects s"
  by (simp add: store_object_def Let_def)

lemma store_object_graph:
  assumes "store_graph s" and "\<And>p. gs_objects s (ro_OID obj) = Some p \<Longrightarrow> p = obj"
  shows "store_graph (store_object obj s)"
proof -
  have known: "gs_objects s (ro_OID obj) = None \<or> gs_objects s (ro_OID obj) = Some obj"
    using assms(2) by (cases "gs_objects s (ro_OID obj)") simp_all
  have g: "gs_treeEntries s oid = stored_tree (gs_objects s oid)" "gs_commits s oid = stored_commit (gs_objects s oid)" for oid
    using assms(1) by (simp_all add: store_graph_def)
  have "gs_treeEntries (store_object obj s) oid = stored_tree (gs_objects (store_object obj s) oid)"
    "gs_commits (store_object obj s) oid = stored_commit (gs_objects (store_object obj s) oid)" for oid
    using known g [of oid]
    by (cases "oid = ro_OID obj"; fastforce simp: store_object_def Let_def stored_tree_def stored_commit_def)+
  then have "gs_treeEntries (store_object obj s) = (\<lambda>oid. stored_tree (gs_objects (store_object obj s) oid))"
    "gs_commits (store_object obj s) = (\<lambda>oid. stored_commit (gs_objects (store_object obj s) oid))" by blast+
  then show ?thesis using assms(1) by (simp add: store_graph_def store_object_objects)
qed

lemma fold_store_object:
  assumes "store_graph s" and "no_collision s objs"
  shows "store_graph (fold store_object objs s)" "gs_commitObjects (fold store_object objs s) = gs_commitObjects s"
    "gs_objects (fold store_object objs s) = gs_objects s ++ map_of (map (\<lambda>obj. (ro_OID obj, obj)) objs)"
proof -
  have "store_graph (fold store_object objs s) \<and> gs_commitObjects (fold store_object objs s) = gs_commitObjects s \<and>
    gs_objects (fold store_object objs s) = gs_objects s ++ map_of (map (\<lambda>obj. (ro_OID obj, obj)) objs)"
    using assms
  proof (induction objs arbitrary: s)
    case (Cons obj objs)
    have nc: "no_collision (store_object obj s) objs" "\<And>p. gs_objects s (ro_OID obj) = Some p \<Longrightarrow> p = obj"
      using Cons.prems(2) by (auto simp: no_collision_def store_object_objects)
    have "map_of (map (\<lambda>obj. (ro_OID obj, obj)) objs) (ro_OID obj) \<in> {None, Some obj}"
    proof (cases "map_of (map (\<lambda>obj. (ro_OID obj, obj)) objs) (ro_OID obj)")
      case (Some q)
      then have "(ro_OID obj, q) \<in> set (map (\<lambda>obj. (ro_OID obj, obj)) objs)" by (rule map_of_SomeD)
      then have "q \<in> set objs" "ro_OID q = ro_OID obj" by auto
      then show ?thesis using Some Cons.prems(2) by (auto simp: no_collision_def)
    qed simp
    then have m: "(gs_objects s)(ro_OID obj \<mapsto> obj) ++ map_of (map (\<lambda>obj. (ro_OID obj, obj)) objs) =
        gs_objects s ++ map_of (map (\<lambda>obj. (ro_OID obj, obj)) (obj # objs))"
      by (auto simp: fun_eq_iff map_add_def split: option.splits)
    show ?case
      using Cons.IH [OF store_object_graph [OF Cons.prems(1) nc(2)] nc(1)]
      by (simp only: fold_simps store_object_objects store_object_commitObjects m simp_thms)
  qed simp
  then show "store_graph (fold store_object objs s)" "gs_commitObjects (fold store_object objs s) = gs_commitObjects s"
    "gs_objects (fold store_object objs s) = gs_objects s ++ map_of (map (\<lambda>obj. (ro_OID obj, obj)) objs)"
    by blast+
qed

text \<open>The graph does not depend on the table of commit objects.\<close>

lemma tree_links_frame [simp]: "tree_links (s\<lparr>gs_commitObjects := m\<rparr>) = tree_links s"
  by (simp add: tree_links_def)

lemma graph_frame [simp]:
  "store_graph (s\<lparr>gs_commitObjects := m\<rparr>) = store_graph s" "content (s\<lparr>gs_commitObjects := m\<rparr>) = content s"
  by (simp_all add: store_graph_def content_def fun_eq_iff split: option.split)

lemma compute_all_spec:
  assumes "store_graph s"
  shows "\<exists>m. compute_all oids s = Some (s\<lparr>gs_commitObjects := m\<rparr>) \<and>
    (\<forall>oid. if oid \<in> set oids \<and> gs_commits s oid \<noteq> None
           then \<exists>l. m oid = Some l \<and> distinct l \<and> set l = content s oid
           else m oid = gs_commitObjects s oid)"
  using assms
proof (induction oids arbitrary: s)
  case Nil
  then show ?case by (intro exI [of _ "gs_commitObjects s"]) simp
next
  case (Cons oid oids)
  show ?case
  proof (cases "gs_commits s oid")
    case None
    then show ?thesis using Cons.IH [OF Cons.prems] by auto
  next
    case (Some c)
    obtain l where l: "computeReachableObjects s c = Some (s\<lparr>gs_commitObjects := (gs_commitObjects s)(oid \<mapsto> l)\<rparr>)"
      "distinct l" "set l = content s oid"
      using compute_reachable [OF Cons.prems Some] by blast
    let ?s = "s\<lparr>gs_commitObjects := (gs_commitObjects s)(oid \<mapsto> l)\<rparr>"
    have g: "store_graph ?s" using Cons.prems by simp
    obtain m where m: "compute_all oids ?s = Some (?s\<lparr>gs_commitObjects := m\<rparr>)"
      "\<forall>x. if x \<in> set oids \<and> gs_commits ?s x \<noteq> None
           then \<exists>l. m x = Some l \<and> distinct l \<and> set l = content ?s x else m x = gs_commitObjects ?s x"
      using Cons.IH [OF g] by blast
    have "if x \<in> set (oid # oids) \<and> gs_commits s x \<noteq> None
           then \<exists>l. m x = Some l \<and> distinct l \<and> set l = content s x
           else m x = gs_commitObjects s x" for x
      using spec [OF m(2), of x] l(2,3) Some by (cases "x = oid"; cases "x \<in> set oids") (auto split: if_splits)
    then show ?thesis using Some l(1) m(1) by (intro exI [of _ m]) simp
  qed
qed

subsection \<open>What a fetch collects\<close>

definition history :: "RepoStore \<Rightarrow> string list \<Rightarrow> string set" where
  "history s cs = (parent_links s)\<^sup>* `` set cs"

lemma wants_edges: "store_graph s \<Longrightarrow> wants.edges s excluded = {(x, y). (x, y) \<in> parent_links s \<and> y \<notin> set excluded}"
  using parent_edges [of s] by (auto simp: wants.edges_def haves.edges_def)

lemma excluded_spec:
  assumes "store_graph s"
  shows "\<exists>excluded. excluded_commits s acks = Some excluded \<and> set excluded = history s acks"
proof -
  have "\<exists>excluded. search (have_body s) (fold add_key acks [], acks) = Some excluded"
    by (rule have_search_ends [OF graph_finite [OF assms]]) simp
  then obtain excluded where e: "search (have_body s) (fold add_key acks [], acks) = Some excluded" by blast
  have "set excluded = (haves.edges s)\<^sup>* `` set (fold add_key acks [])"
    by (rule haves.search_reaches(1) [OF e]) simp_all
  then show ?thesis using e parent_edges [OF assms] by (simp add: excluded_commits_def history_def)
qed

lemma needed_spec:
  assumes "store_graph s"
  shows "\<exists>needed. needed_commits s excluded wants = Some needed \<and>
    set needed = (wants.edges s excluded)\<^sup>* `` (set wants - set excluded)"
proof -
  let ?w = "filter (\<lambda>w. w \<notin> set excluded) wants"
  have w: "set ?w = set wants - set excluded" by auto
  have "\<exists>needed. search (want_body s excluded) (fold add_key ?w [], ?w) = Some needed"
    by (rule want_search_ends [OF graph_finite [OF assms]]) simp
  then obtain needed where e: "search (want_body s excluded) (fold add_key ?w [], ?w) = Some needed" by blast
  have "set needed = (wants.edges s excluded)\<^sup>* `` set (fold add_key ?w [])"
    by (rule wants.search_reaches(1) [OF e]) simp_all
  then show ?thesis using e unfolding needed_commits_def Let_def fold_add_key(1) w by simp
qed

text \<open>A commit in the history of the wants is excluded, or reached without passing an excluded one.\<close>

lemma history_split:
  assumes "store_graph s" and "set excluded = history s acks" and "(w, c) \<in> (parent_links s)\<^sup>*"
  shows "c \<in> set excluded \<or> w \<notin> set excluded \<and> (w, c) \<in> (wants.edges s excluded)\<^sup>*"
  using assms(3)
proof (induction rule: rtrancl_induct)
  case (step y z)
  show ?case
  proof (cases "z \<in> set excluded")
    case False
    have "y \<notin> set excluded"
    proof
      assume "y \<in> set excluded"
      then have "z \<in> set excluded"
        using step(2) unfolding assms(2) history_def by (auto intro: rtrancl_into_rtrancl)
      then show False using False by contradiction
    qed
    then have "w \<notin> set excluded" "(w, y) \<in> (wants.edges s excluded)\<^sup>*" using step(3) by simp_all
    moreover have "(y, z) \<in> wants.edges s excluded" using step(2) False wants_edges [OF assms(1)] by simp
    ultimately show ?thesis by (blast intro: rtrancl_into_rtrancl)
  qed simp
qed simp

lemma needed_history:
  assumes "store_graph s" and "c \<in> (wants.edges s excluded)\<^sup>* `` (set wants - set excluded)"
  shows "c \<in> history s wants"
proof -
  have "wants.edges s excluded \<subseteq> parent_links s" using wants_edges [OF assms(1)] by auto
  from rtrancl_mono [OF this] show ?thesis using assms(2) unfolding history_def by blast
qed

lemma fold_filter_add:
  "set (fold (\<lambda>oid f. if oid \<in> h then f else add_key oid f) xs acc) = (set xs - h) \<union> set acc"
  "distinct acc \<Longrightarrow> distinct (fold (\<lambda>oid f. if oid \<in> h then f else add_key oid f) xs acc)"
  by (induction xs arbitrary: acc) auto

lemma final_oids_distinct: "distinct (final_oids s perm excluded needed wants)"
  unfolding final_oids_def Let_def by (simp only: fold_filter_add(2) fold_add_key(2) distinct.simps if_splits) simp

lemma commit_objects_content:
  assumes "store_inv s"
  shows "set (commit_objects s c) = content s c"
proof (cases "gs_commits s c")
  case None
  then have "gs_commitObjects s c = None" using assms unfolding store_inv_def by blast
  then show ?thesis using None by (simp add: commit_objects_def content_def)
next
  case (Some x)
  then obtain l where "gs_commitObjects s c = Some l" "set l = content s c" using assms unfolding store_inv_def by blast
  then show ?thesis by (simp add: commit_objects_def)
qed

lemma final_oids_set:
  assumes "store_inv s" and "\<And>l. set (perm l) = set l"
  shows "(\<Union>c\<in>set needed. content s c) - (\<Union>h\<in>set excluded. content s h) \<subseteq> set (final_oids s perm excluded needed wants)"
    "set (final_oids s perm excluded needed wants) \<subseteq> (\<Union>c\<in>set needed. content s c) \<union> set wants"
proof -
  let ?h = "set (concat (map (commit_objects s) excluded))"
  let ?xs = "concat (map (commit_objects s) (perm needed))"
  let ?f = "fold (\<lambda>oid f. if oid \<in> ?h then f else add_key oid f) ?xs []"
  have h: "?h = (\<Union>h\<in>set excluded. content s h)" and xs: "set ?xs = (\<Union>c\<in>set needed. content s c)"
    using commit_objects_content [OF assms(1)] assms(2) by simp_all
  have f: "set ?f = set ?xs - ?h" by (simp only: fold_filter_add(1) list.set Un_empty_right)
  have e: "final_oids s perm excluded needed wants = (if ?f = [] then fold add_key wants [] else ?f)"
    by (simp add: final_oids_def Let_def)
  show "(\<Union>c\<in>set needed. content s c) - (\<Union>h\<in>set excluded. content s h) \<subseteq> set (final_oids s perm excluded needed wants)"
    using f unfolding e h xs by (cases "?f = []") auto
  show "set (final_oids s perm excluded needed wants) \<subseteq> (\<Union>c\<in>set needed. content s c) \<union> set wants"
    using f unfolding e xs by (cases "?f = []") auto
qed

lemma map_filter_objects:
  assumes "store_graph s"
  shows "set (List.map_filter (gs_objects s) oids) = {obj. \<exists>oid\<in>set oids. gs_objects s oid = Some obj}"
    "distinct oids \<Longrightarrow> distinct (map ro_OID (List.map_filter (gs_objects s) oids))"
proof -
  show s: "set (List.map_filter (gs_objects s) oids) = {obj. \<exists>oid\<in>set oids. gs_objects s oid = Some obj}" for oids
    by (induction oids) (auto simp: List.map_filter_simps split: option.splits)
  have k: "gs_objects s oid = Some obj \<Longrightarrow> ro_OID obj = oid" for oid obj using assms by (simp add: store_graph_def)
  show "distinct oids \<Longrightarrow> distinct (map ro_OID (List.map_filter (gs_objects s) oids))"
  proof (induction oids)
    case (Cons oid oids)
    have "oid \<notin> ro_OID ` set (List.map_filter (gs_objects s) oids)"
      using Cons.prems unfolding s by (auto dest: k)
    then show ?case using Cons k [of oid] by (cases "gs_objects s oid") (simp_all add: List.map_filter_simps)
  qed (simp add: List.map_filter_simps)
qed

lemma map_filter_oids:
  assumes "store_graph s"
  shows "ro_OID ` set (List.map_filter (gs_objects s) oids) = set oids \<inter> dom (gs_objects s)"
proof (induction oids)
  case (Cons oid oids)
  have "gs_objects s oid = Some obj \<Longrightarrow> ro_OID obj = oid" for obj using assms by (simp add: store_graph_def)
  then show ?case
    using Cons by (cases "gs_objects s oid") (simp_all add: List.map_filter_simps Int_insert_left domIff)
qed (simp add: List.map_filter_simps)

lemma fetch_collects:
  assumes "store_inv s" and "set wants \<subseteq> dom (gs_commits s)" and "\<And>l. set (perm l) = set l"
    and acks_def: "acks = filter (\<lambda>h. gs_commits s h \<noteq> None) haves"
  shows "\<exists>objs. CollectObjectsForCommits perm s wants haves = Some (objs, acks) \<and> distinct (map ro_OID objs) \<and>
    (\<Union>c\<in>history s wants. content s c) \<inter> dom (gs_objects s) \<subseteq>
      ro_OID ` set objs \<union> (\<Union>h\<in>history s acks. content s h) \<and>
    ro_OID ` set objs \<subseteq> (\<Union>c\<in>history s wants. content s c) \<and>
    (\<forall>obj\<in>set objs. gs_objects s (ro_OID obj) = Some obj)"
proof -
  have g: "store_graph s" using assms(1) by (simp add: store_inv_def)
  obtain excluded where ex: "excluded_commits s acks = Some excluded" "set excluded = history s acks"
    using excluded_spec [OF g] by blast
  obtain needed where nd: "needed_commits s excluded wants = Some needed"
    "set needed = (wants.edges s excluded)\<^sup>* `` (set wants - set excluded)"
    using needed_spec [OF g] by blast
  let ?f = "final_oids s perm excluded needed wants" and ?objs = "List.map_filter (gs_objects s) (final_oids s perm excluded needed wants)"
  have r: "CollectObjectsForCommits perm s wants haves = Some (?objs, acks)"
    using ex(1) nd(1) unfolding CollectObjectsForCommits_def acks_def by simp
  have key: "gs_objects s oid = Some obj \<Longrightarrow> ro_OID obj = oid" for oid obj using g by (simp add: store_graph_def)
  have objs: "ro_OID ` set ?objs = set ?f \<inter> dom (gs_objects s)"
    by (rule map_filter_oids [OF g])
  have known: "\<forall>obj\<in>set ?objs. gs_objects s (ro_OID obj) = Some obj"
    unfolding map_filter_objects(1) [OF g] using key by auto
  have cover: "content s c \<subseteq> set ?f \<union> (\<Union>h\<in>history s acks. content s h)" if c: "c \<in> history s wants" for c
  proof -
    obtain w where w: "w \<in> set wants" "(w, c) \<in> (parent_links s)\<^sup>*" using c unfolding history_def by blast
    from history_split [OF g ex(2) w(2)] show ?thesis
    proof
      assume "c \<in> set excluded"
      then show ?thesis using ex(2) by blast
    next
      assume "w \<notin> set excluded \<and> (w, c) \<in> (wants.edges s excluded)\<^sup>*"
      then have "c \<in> set needed" using w(1) nd(2) by blast
      then have "content s c \<subseteq> (\<Union>c\<in>set needed. content s c)" by (rule UN_upper)
      also have "\<dots> \<subseteq> (\<Union>h\<in>history s acks. content s h) \<union> set ?f"
        using final_oids_set(1) [OF assms(1,3), of needed excluded wants] unfolding ex(2) Diff_subset_conv .
      finally show ?thesis by (simp only: Un_commute)
    qed
  qed
  have inside: "set ?f \<subseteq> (\<Union>c\<in>history s wants. content s c)"
  proof -
    have "set needed \<subseteq> history s wants" using needed_history [OF g] nd(2) by blast
    moreover have "w \<in> (\<Union>c\<in>history s wants. content s c)" if ww: "w \<in> set wants" for w
    proof -
      obtain x where "gs_commits s w = Some x" using ww assms(2) by blast
      then have "w \<in> content s w" by (simp add: content_def)
      moreover have "w \<in> history s wants" using ww unfolding history_def by blast
      ultimately show ?thesis by blast
    qed
    then have "set wants \<subseteq> (\<Union>c\<in>history s wants. content s c)" by (rule subsetI)
    ultimately have "(\<Union>c\<in>set needed. content s c) \<union> set wants \<subseteq> (\<Union>c\<in>history s wants. content s c)"
      by (intro Un_least UN_mono) simp_all
    with final_oids_set(2) [OF assms(1,3), of excluded needed wants] show ?thesis by (rule order_trans)
  qed
  have "distinct (map ro_OID ?objs)" by (rule map_filter_objects(2) [OF g final_oids_distinct])
  moreover have "(\<Union>c\<in>history s wants. content s c) \<inter> dom (gs_objects s) \<subseteq>
      ro_OID ` set ?objs \<union> (\<Union>h\<in>history s acks. content s h)"
    unfolding objs using cover by blast
  moreover have "ro_OID ` set ?objs \<subseteq> (\<Union>c\<in>history s wants. content s c)" unfolding objs using inside by blast
  ultimately show ?thesis using r known by (intro exI [of _ ?objs]) simp
qed

subsection \<open>Every operation returns\<close>

lemma store_object_finite: "store_finite s \<Longrightarrow> store_finite (store_object obj s)"
  by (simp add: store_finite_def store_object_def Let_def)

lemma fold_store_object_finite: "store_finite s \<Longrightarrow> store_finite (fold store_object objs s)"
  by (induction objs arbitrary: s) (simp_all add: store_object_finite)

lemma compute_all_ends:
  "store_finite s \<Longrightarrow> \<exists>m. compute_all oids s = Some (s\<lparr>gs_commitObjects := m\<rparr>)"
proof (induction oids arbitrary: s)
  case Nil
  then show ?case by (intro exI [of _ "gs_commitObjects s"]) simp
next
  case (Cons oid oids)
  show ?case
  proof (cases "gs_commits s oid")
    case None
    then show ?thesis using Cons by simp
  next
    case (Some c)
    have "\<exists>l. search (tree_body s) ([co_OID c], [co_Tree c]) = Some l"
      unfolding search_root [of s "[co_OID c]" "co_Tree c"] by (rule tree_search_ends [OF Cons.prems]) simp
    then obtain m where m: "computeReachableObjects s c = Some (s\<lparr>gs_commitObjects := m\<rparr>)"
      by (cases "co_Tree c = []") (auto simp: computeReachableObjects_def)
    have "store_finite (s\<lparr>gs_commitObjects := m\<rparr>)" using Cons.prems by (simp add: store_finite_def)
    from Cons.IH [OF this] show ?thesis using Some m by auto
  qed
qed

lemma ingest_ends:
  assumes "store_finite s"
  shows "\<exists>res s'. IngestPackfile sha1 inflate ord packData s = Some (res, s') \<and> store_finite s'"
proof (cases "ParsePackfileWithBase sha1 inflate packData (gs_objects s)")
  case (Inl err)
  then show ?thesis using assms by (simp add: IngestPackfile_def)
next
  case (Inr objs)
  let ?s = "fold store_object objs s"
  have f: "store_finite ?s" by (rule fold_store_object_finite [OF assms])
  obtain m where "compute_all (ord (gs_commits ?s)) ?s = Some (?s\<lparr>gs_commitObjects := m\<rparr>)"
    using compute_all_ends [OF f] by blast
  then show ?thesis using Inr f by (simp add: IngestPackfile_def Let_def store_finite_def)
qed

lemma collect_ends:
  assumes "store_finite s"
  shows "\<exists>r. CollectObjectsForCommits perm s wants haves = Some r"
proof -
  let ?acks = "filter (\<lambda>h. gs_commits s h \<noteq> None) haves"
  obtain excluded where e: "excluded_commits s ?acks = Some excluded"
    using have_search_ends [OF assms, of ?acks "fold add_key ?acks []"] unfolding excluded_commits_def by auto
  let ?w = "filter (\<lambda>w. w \<notin> set excluded) wants"
  obtain needed where "needed_commits s excluded wants = Some needed"
    using want_search_ends [OF assms, of ?w "fold add_key ?w []" excluded] unfolding needed_commits_def Let_def by auto
  then show ?thesis using e unfolding CollectObjectsForCommits_def Let_def by simp
qed

subsection \<open>Properties\<close>

text \<open>
  Claim C28. Ingestion keeps the store right and always returns: with ids that identify objects, a
  pack that cannot be parsed leaves the store as it was; any other adds its objects, reports its
  commits, and in the new store the tables of trees and commits agree with the objects, and the object
  list computed for every commit is, without repetition, the commit and all that its tree leads to.
\<close>

theorem ingest_keeps_store:
  assumes "store_inv s" and "\<And>m. finite (dom m) \<Longrightarrow> iterates (ord m) m"
    and "\<And>objs. ParsePackfileWithBase sha1 inflate packData (gs_objects s) = Inr objs \<Longrightarrow> no_collision s objs"
  shows "\<exists>res s'. IngestPackfile sha1 inflate ord packData s = Some (res, s') \<and> store_inv s' \<and>
    (case ParsePackfileWithBase sha1 inflate packData (gs_objects s) of
       Inl err \<Rightarrow> res = Inl err \<and> s' = s
     | Inr objs \<Rightarrow> res = Inr (map ro_OID (filter (\<lambda>obj. ro_Type obj = ObjCommit) objs)) \<and>
         gs_objects s' = gs_objects s ++ map_of (map (\<lambda>obj. (ro_OID obj, obj)) objs))"
proof (cases "ParsePackfileWithBase sha1 inflate packData (gs_objects s)")
  case (Inl err)
  then show ?thesis using assms(1) by (simp add: IngestPackfile_def)
next
  case (Inr objs)
  let ?s = "fold store_object objs s"
  note f = fold_store_object [OF _ assms(3) [OF Inr]]
  have g: "store_graph ?s" "gs_objects ?s = gs_objects s ++ map_of (map (\<lambda>obj. (ro_OID obj, obj)) objs)"
    "gs_commitObjects ?s = gs_commitObjects s"
    using f assms(1) by (simp_all add: store_inv_def)
  have dm: "set (ord (gs_commits ?s)) = dom (gs_commits ?s)"
    using assms(2) graph_finite [OF g(1)] by (simp add: iterates_set store_finite_def)
  obtain m where m: "compute_all (ord (gs_commits ?s)) ?s = Some (?s\<lparr>gs_commitObjects := m\<rparr>)"
    "\<forall>oid. if oid \<in> set (ord (gs_commits ?s)) \<and> gs_commits ?s oid \<noteq> None
           then \<exists>l. m oid = Some l \<and> distinct l \<and> set l = content ?s oid
           else m oid = gs_commitObjects ?s oid"
    using compute_all_spec [OF g(1)] by blast
  have old: "dom (gs_commitObjects s) \<subseteq> dom (gs_commits ?s)"
  proof
    fix oid assume "oid \<in> dom (gs_commitObjects s)"
    then obtain c where "gs_commits s oid = Some c" using assms(1) unfolding store_inv_def by blast
    then obtain obj where obj: "gs_objects s oid = Some obj" "ro_Type obj = ObjCommit" "ro_OID obj = oid"
      using assms(1) by (auto simp: store_inv_def store_graph_def stored_commit_def split: option.splits if_splits)
    have "gs_objects ?s oid = Some obj"
    proof (cases "map_of (map (\<lambda>obj. (ro_OID obj, obj)) objs) oid")
      case (Some q)
      then have "(oid, q) \<in> set (map (\<lambda>obj. (ro_OID obj, obj)) objs)" by (rule map_of_SomeD)
      then have "q = obj" using assms(3) [OF Inr] obj(1) unfolding no_collision_def by fastforce
      then show ?thesis using Some g(2) by simp
    qed (use obj(1) g(2) in \<open>simp add: map_add_def\<close>)
    then show "oid \<in> dom (gs_commits ?s)" using g(1) obj(2) by (auto simp: store_graph_def stored_commit_def)
  qed
  have "store_inv (?s\<lparr>gs_commitObjects := m\<rparr>)"
  proof -
    have "\<exists>l. m oid = Some l \<and> distinct l \<and> set l = content ?s oid" if "gs_commits ?s oid \<noteq> None" for oid
      using spec [OF m(2), of oid] that dm by (simp add: domIff)
    moreover have "dom m \<subseteq> dom (gs_commits ?s)"
    proof
      fix oid assume "oid \<in> dom m"
      then show "oid \<in> dom (gs_commits ?s)" using spec [OF m(2), of oid] old g(3) by (metis domIff subsetD)
    qed
    ultimately show ?thesis using g(1) by (simp add: store_inv_def)
  qed
  then show ?thesis using m(1) g(2) Inr by (simp add: IngestPackfile_def Let_def)
qed


text \<open>
  A commit whose tree is not stored counts as present: HasAllCommits accepts it, and a
  fetch of it sends the commit without the tree that belongs to its content.
\<close>

theorem missing_tree_served:
  assumes "store_inv s" and "gs_commits s c = Some info" and "co_Tree info \<noteq> []" and "gs_objects s (co_Tree info) = None"
    and "\<And>l. set (perm l) = set l"
  shows "HasAllCommits s [c] \<and> co_Tree info \<in> content s c \<and>
    (\<exists>objs. CollectObjectsForCommits perm s [c] [] = Some (objs, []) \<and> c \<in> ro_OID ` set objs \<and> co_Tree info \<notin> ro_OID ` set objs)"
proof -
  have w: "set [c] \<subseteq> dom (gs_commits s)" using assms(2) by auto
  obtain objs where objs: "CollectObjectsForCommits perm s [c] [] = Some (objs, [])"
    "(\<Union>c\<in>history s [c]. content s c) \<inter> dom (gs_objects s) \<subseteq> ro_OID ` set objs \<union> (\<Union>h\<in>history s []. content s h)"
    "\<forall>obj\<in>set objs. gs_objects s (ro_OID obj) = Some obj"
    using fetch_collects [OF assms(1) w assms(5), of "[]" "[]"] by auto
  have "c \<in> history s [c]" by (simp add: history_def)
  moreover have "c \<in> content s c" using assms(2) by (simp add: content_def)
  moreover have "c \<in> dom (gs_objects s)"
    using assms(1,2) by (auto simp: store_inv_def store_graph_def stored_commit_def split: option.splits)
  moreover have "history s [] = {}" by (simp add: history_def)
  ultimately have "c \<in> ro_OID ` set objs" using objs(2) by blast
  moreover have "co_Tree info \<notin> ro_OID ` set objs" using objs(3) assms(4) by fastforce
  moreover have "co_Tree info \<in> content s c" using assms(2,3) by (simp add: content_def)
  ultimately show ?thesis using objs(1) assms(2) by (auto simp: HasAllCommits_def)
qed

subsection \<open>Instances\<close>

definition sample_sha1 :: "bytes \<Rightarrow> bytes" where
  "sample_sha1 b = replicate 20 (word_of_nat (length b))"

definition sample_commit :: RawObject where
  "sample_commit = raw_object sample_sha1 ObjCommit (to_bytes ''tree t1'')"

definition sample_pack :: bytes where
  "sample_pack = BuildPackfile sample_sha1 (\<lambda>d. d) [sample_commit]"

definition sample_store :: RepoStore where
  "sample_store =
     (store_object sample_commit (NewRepoStore []))\<lparr>gs_commitObjects := [ro_OID sample_commit \<mapsto> [ro_OID sample_commit, ''t1'']]\<rparr>"

lemma sample_parse:
  "ParsePackfileWithBase sample_sha1 (\<lambda>s n. Inr (take n s, n)) sample_pack lookup = Inr [sample_commit]"
  unfolding sample_pack_def
  by (rule parse_built_pack)
    (simp_all add: whole_object_def sample_commit_def raw_object_def zlib_reads_back_def max_alloc_def sample_sha1_def)

lemma sample_commit_simps [simp]:
  "ro_Type sample_commit = ObjCommit"
  "ParseCommitObject (ro_OID sample_commit) (ro_Data sample_commit) =
     \<lparr>co_OID = ro_OID sample_commit, co_Tree = ''t1'', co_Parents = [], co_Author = [], co_Message = []\<rparr>"
  by code_simp+

lemma sample_store_inv: "store_inv sample_store"
proof -
  have g: "store_graph sample_store"
    using store_object_graph [OF store_graph_new(1) [of "[]"], of sample_commit] by (simp add: sample_store_def NewRepoStore_def)
  have "tree_links sample_store = {}"
    by (auto simp: tree_links_def sample_store_def store_object_objects NewRepoStore_def split: if_splits)
  moreover have "gs_commits sample_store = [ro_OID sample_commit \<mapsto>
      \<lparr>co_OID = ro_OID sample_commit, co_Tree = ''t1'', co_Parents = [], co_Author = [], co_Message = []\<rparr>]"
    by (simp add: sample_store_def store_object_def NewRepoStore_def)
  moreover have "ro_OID sample_commit \<noteq> ''t1''" by code_simp
  ultimately show ?thesis
    using g by (auto simp: store_inv_def content_def sample_store_def)
qed

theorem ingest_keeps_store_witness:
  "\<exists>s'. IngestPackfile sample_sha1 (\<lambda>s n. Inr (take n s, n)) (\<lambda>m. sorted_list_of_set (dom m)) sample_pack (NewRepoStore []) =
     Some (Inr [ro_OID sample_commit], s') \<and> store_inv s' \<and> gs_objects s' = [ro_OID sample_commit \<mapsto> sample_commit]"
  using ingest_keeps_store [OF store_graph_new(2) [of "[]"], of "\<lambda>m. sorted_list_of_set (dom m)" sample_sha1
      "\<lambda>s n. Inr (take n s, n)" sample_pack]
  by (simp add: sample_parse iterates_def no_collision_def NewRepoStore_def)


theorem missing_tree_served_witness:
  "HasAllCommits sample_store [ro_OID sample_commit] \<and>
   (\<exists>objs. CollectObjectsForCommits (\<lambda>l. l) sample_store [ro_OID sample_commit] [] = Some (objs, []) \<and>
      ''t1'' \<notin> ro_OID ` set objs)"
proof -
  have "ro_OID sample_commit \<noteq> ''t1''" by code_simp
  then show ?thesis
    using missing_tree_served [OF sample_store_inv, of "ro_OID sample_commit" _ "\<lambda>l. l"]
    by (auto simp: sample_store_def store_object_def NewRepoStore_def)
qed

end
