(* ===== verification/Go_Net.thy ===== *)
theory Go_Net
  imports Portal_Prelude
begin

unbundle bit_operations_syntax

text \<open>
  Addresses: what the sources use of Go's packages \<^verbatim>\<open>net\<close> and \<^verbatim>\<open>net/netip\<close>
  (\<^verbatim>\<open>SplitHostPort\<close>, \<^verbatim>\<open>JoinHostPort\<close>, \<^verbatim>\<open>ParseIP\<close>, \<^verbatim>\<open>ParseCIDR\<close>, \<^verbatim>\<open>IP.To4\<close>, \<^verbatim>\<open>IP.IsLoopback\<close>,
  \<^verbatim>\<open>IP.IsLinkLocalUnicast\<close>, \<^verbatim>\<open>IP.String\<close>), and \<^verbatim>\<open>HostWithoutPort\<close> of pkg/proxy/proxy.go,
  on which routing, certificate minting and caller identification all rest.
  An error is \<^const>\<open>None\<close>; the callers only test whether there was one.
\<close>

subsection \<open>Host and port\<close>

definition last_index :: "'a \<Rightarrow> 'a list \<Rightarrow> nat option" where
  "last_index c s = map_option (\<lambda>i. length s - 1 - i) (index_of (rev s) [c])"

definition split_host_port :: "string \<Rightarrow> (string \<times> string) option" where
  "split_host_port hp =
     (case last_index (CHR '':'') hp of
        None \<Rightarrow> None
      | Some i \<Rightarrow>
          if hd hp = CHR ''['' then
            (case index_of hp '']'' of
               None \<Rightarrow> None
             | Some e \<Rightarrow>
                 if e + 1 = length hp \<or> e + 1 \<noteq> i then None
                 else if CHR ''['' \<in> set (drop 1 hp) \<or> CHR '']'' \<in> set (drop (e + 1) hp) then None
                 else Some (drop 1 (take e hp), drop (i + 1) hp))
          else if CHR '':'' \<in> set (take i hp) then None
          else if CHR ''['' \<in> set hp \<or> CHR '']'' \<in> set hp then None
          else Some (take i hp, drop (i + 1) hp))"

definition join_host_port :: "string \<Rightarrow> string \<Rightarrow> string" where
  "join_host_port h p =
     (if CHR '':'' \<in> set h then ''['' @ h @ '']:'' @ p else h @ '':'' @ p)"

definition HostWithoutPort :: "string \<Rightarrow> string" where
  "HostWithoutPort host =
     (case split_host_port host of None \<Rightarrow> host | Some (h, _) \<Rightarrow> h)"

lemma last_index_append: "c \<notin> set t \<Longrightarrow> last_index c (s @ c # t) = Some (length s)"
proof -
  assume c: "c \<notin> set t"
  have "index_of (r @ c # x) [c] = Some (length r)" if "c \<notin> set r" for r x
    using that by (induction r) auto
  from this [of "rev t" "rev s"] c show ?thesis by (simp add: last_index_def)
qed

lemma last_index_None [simp]: "last_index c s = None \<longleftrightarrow> c \<notin> set s"
  by (simp add: last_index_def)

lemma index_of_append_single: "c \<notin> set s \<Longrightarrow> index_of (s @ c # t) [c] = Some (length s)"
  by (induction s) auto

lemma HostWithoutPort_plain [simp]: "CHR '':'' \<notin> set h \<Longrightarrow> HostWithoutPort h = h"
  by (simp add: HostWithoutPort_def split_host_port_def last_index_None [THEN iffD2])

text \<open>The characters that delimit hosts and ports.\<close>

definition no_delims :: "string \<Rightarrow> bool" where
  "no_delims s \<longleftrightarrow> CHR '':'' \<notin> set s \<and> CHR ''['' \<notin> set s \<and> CHR '']'' \<notin> set s"

lemma split_join_host_port:
  assumes "CHR ''['' \<notin> set h" "CHR '']'' \<notin> set h" "no_delims p"
  shows "split_host_port (join_host_port h p) = Some (h, p)"
proof (cases "CHR '':'' \<in> set h")
  case True
  have li: "last_index (CHR '':'') (''['' @ h @ '']:'' @ p) = Some (length h + 2)"
    using last_index_append [of "CHR '':''" p "''['' @ h @ '']''"] assms(3)
    by (simp add: no_delims_def)
  have ix: "index_of (''['' @ h @ '']:'' @ p) '']'' = Some (length h + 1)"
    using index_of_append_single [of "CHR '']''" "''['' @ h" "'':'' @ p"] assms(2) by simp
  from True li ix assms show ?thesis
    by (simp add: split_host_port_def join_host_port_def no_delims_def)
next
  case False
  have li: "last_index (CHR '':'') (h @ '':'' @ p) = Some (length h)"
    using last_index_append [of "CHR '':''" p h] assms(3) by (simp add: no_delims_def)
  have "hd (h @ '':'' @ p) \<noteq> CHR ''[''"
    using assms(1) by (cases h) auto
  with False li assms show ?thesis
    by (simp add: split_host_port_def join_host_port_def no_delims_def)
qed

lemma HostWithoutPort_join:
  "CHR ''['' \<notin> set h \<Longrightarrow> CHR '']'' \<notin> set h \<Longrightarrow> no_delims p \<Longrightarrow>
   HostWithoutPort (join_host_port h p) = h"
  by (simp add: HostWithoutPort_def split_join_host_port)

lemma HostWithoutPort_colon_port:
  "no_delims h \<Longrightarrow> no_delims p \<Longrightarrow> HostWithoutPort (h @ '':'' @ p) = h"
  using HostWithoutPort_join [of h p] by (simp add: join_host_port_def no_delims_def)

lemma split_host_port_parts:
  "split_host_port s = Some (h, p) \<Longrightarrow> s = h @ '':'' @ p \<or> s = ''['' @ h @ '']:'' @ p"
proof -
  assume a: "split_host_port s = Some (h, p)"
  then obtain i where i: "last_index (CHR '':'') s = Some i"
    by (auto simp: split_host_port_def split: option.splits)
  have snth: "i < length s \<and> s ! i = CHR '':''"
  proof -
    from i obtain j where j: "index_of (rev s) '':'' = Some j" "i = length s - 1 - j"
      by (auto simp: last_index_def)
    from index_of_single_Some [OF j(1)] j(2) show ?thesis
      by (auto simp: rev_nth)
  qed
  then have dropi: "drop i s = CHR '':'' # drop (i + 1) s"
    by (metis Cons_nth_drop_Suc Suc_eq_plus1)
  show ?thesis
  proof (cases "hd s = CHR ''[''")
    case True
    from a i True obtain e where e: "index_of s '']'' = Some e" "e + 1 = i"
        "h = drop 1 (take e s)" "p = drop (i + 1) s"
      by (auto simp: split_host_port_def split: option.splits if_splits)
    from index_of_single_Some [OF e(1)] have e': "e < length s" "s ! e = CHR '']''" by auto
    from True snth have "s = CHR ''['' # tl s" by (cases s) auto
    moreover from True e' have "e \<noteq> 0" by (cases e; cases s) auto
    ultimately have "take e s = CHR ''['' # h"
      using e(3) by (metis One_nat_def drop_Suc drop0 list.sel(3) take_Cons' tl_take)
    moreover have "drop e s = CHR '']'' # drop i s"
      using e' e(2) by (metis Cons_nth_drop_Suc Suc_eq_plus1)
    ultimately show ?thesis using dropi e(4)
      by (metis append_Cons append_Nil append_take_drop_id)
  next
    case False
    with a i have "h = take i s" "p = drop (i + 1) s"
      by (auto simp: split_host_port_def split: option.splits if_splits)
    with dropi show ?thesis by (metis append_Cons append_Nil append_take_drop_id)
  qed
qed

subsection \<open>Parsing addresses\<close>

definition is_digit :: "char \<Rightarrow> bool" where
  "is_digit c \<longleftrightarrow> (let n = (of_char c :: nat) in 48 \<le> n \<and> n \<le> 57)"

fun parse_ipv4_fields :: "string \<Rightarrow> char option \<Rightarrow> nat \<Rightarrow> nat \<Rightarrow> nat list \<Rightarrow> bytes option" where
  "parse_ipv4_fields [] prev val digLen fs =
     (if length fs < 3 then None else Some (map word_of_nat (rev (val # fs))))"
| "parse_ipv4_fields (c # s) prev val digLen fs =
     (if is_digit c then
        (if digLen = 1 \<and> val = 0 then None
         else let v = val * 10 + (of_char c - 48) in
              if v > 255 then None else parse_ipv4_fields s (Some c) v (digLen + 1) fs)
      else if c = CHR ''.'' then
        (if prev = None \<or> s = [] \<or> prev = Some (CHR ''.'') then None
         else if length fs = 3 then None
         else parse_ipv4_fields s (Some c) 0 0 (val # fs))
      else None)"

fun ipv6_groups :: "nat \<Rightarrow> string \<Rightarrow> bytes \<Rightarrow> nat option \<Rightarrow> (bytes \<times> nat option \<times> string) option" where
  "ipv6_groups 0 s acc ell = Some (acc, ell, s)"
| "ipv6_groups (Suc k) s acc ell =
     (let ds = takeWhile (\<lambda>c. hex_val c \<noteq> None) s;
          rest = dropWhile (\<lambda>c. hex_val c \<noteq> None) s
      in if ds = [] \<or> length ds > 4 then None
         else if rest \<noteq> [] \<and> hd rest = CHR ''.'' then
           (if ell = None \<and> length acc \<noteq> 12 then None
            else if length acc + 4 > 16 then None
            else map_option (\<lambda>b. (acc @ b, ell, [])) (parse_ipv4_fields s None 0 0 []))
         else
           let acc' = acc @ put_be 2 (the (hex_val_list ds 0)) in
           if rest = [] then Some (acc', ell, [])
           else if hd rest \<noteq> CHR '':'' \<or> tl rest = [] then None
           else if hd (tl rest) = CHR '':'' then
             (if ell \<noteq> None then None
              else if tl (tl rest) = [] then Some (acc', Some (length acc'), [])
              else ipv6_groups k (tl (tl rest)) acc' (Some (length acc')))
           else ipv6_groups k (tl rest) acc' ell)"

definition parse_ipv6 :: "string \<Rightarrow> bytes option" where
  "parse_ipv6 s =
     (if s = ''::'' then Some (replicate 16 0)
      else
        let r = (if has_prefix s ''::'' then ipv6_groups 8 (drop 2 s) [] (Some 0)
                 else ipv6_groups 8 s [] None)
        in case r of
             None \<Rightarrow> None
           | Some (b, ell, rest) \<Rightarrow>
               if rest \<noteq> [] then None
               else if length b < 16 then
                 (case ell of
                    None \<Rightarrow> None
                  | Some e \<Rightarrow> Some (take e b @ replicate (16 - length b) 0 @ drop e b))
               else if ell \<noteq> None then None
               else Some b)"

definition v4_in_v6 :: "bytes \<Rightarrow> bytes" where
  "v4_in_v6 b = replicate 10 0 @ [255, 255] @ b"

definition parse_ip :: "string \<Rightarrow> bytes option" where
  "parse_ip s =
     (if CHR ''%'' \<in> set s then None
      else case find (\<lambda>c. c = CHR ''.'' \<or> c = CHR '':'') s of
             None \<Rightarrow> None
           | Some c \<Rightarrow>
               if c = CHR ''.'' then map_option v4_in_v6 (parse_ipv4_fields s None 0 0 [])
               else parse_ipv6 s)"

subsection \<open>Classifying addresses\<close>

definition ip_to4 :: "bytes \<Rightarrow> bytes option" where
  "ip_to4 ip =
     (if length ip = 4 then Some ip
      else if length ip = 16 \<and> take 12 ip = replicate 10 0 @ [255, 255] then Some (drop 12 ip)
      else None)"

definition is_loopback :: "bytes \<Rightarrow> bool" where
  "is_loopback ip =
     (case ip_to4 ip of
        Some ip4 \<Rightarrow> ip4 ! 0 = 127
      | None \<Rightarrow> ip = replicate 15 0 @ [1])"

definition is_link_local_unicast :: "bytes \<Rightarrow> bool" where
  "is_link_local_unicast ip =
     (case ip_to4 ip of
        Some ip4 \<Rightarrow> ip4 ! 0 = 169 \<and> ip4 ! 1 = 254
      | None \<Rightarrow> length ip = 16 \<and> ip ! 0 = 254 \<and> ip ! 1 AND 192 = 128)"

lemma parse_ipv4_fields_length:
  "parse_ipv4_fields s prev val dl fs = Some b \<Longrightarrow> length fs \<le> 3 \<Longrightarrow> length b = 4"
  by (induction s prev val dl fs rule: parse_ipv4_fields.induct)
     (auto simp: Let_def split: if_splits)

lemma ipv6_groups_length:
  "ipv6_groups k s acc ell = Some (b, ell', rest) \<Longrightarrow> length acc + 2 * k = 16 \<Longrightarrow>
   (\<forall>e. ell = Some e \<longrightarrow> e \<le> length acc) \<Longrightarrow>
   length b \<le> 16 \<and> (\<forall>e. ell' = Some e \<longrightarrow> e \<le> length b)"
proof (induction k arbitrary: s acc ell)
  case 0
  then show ?case by simp
next
  case (Suc k)
  let ?ds = "takeWhile (\<lambda>c. hex_val c \<noteq> None) s"
  let ?rest = "dropWhile (\<lambda>c. hex_val c \<noteq> None) s"
  define acc' where "acc' = acc @ put_be 2 (the (hex_val_list ?ds 0))"
  have len: "length acc' = length acc + 2" by (simp add: acc'_def)
  from Suc.prems(1) consider
      (v4) b4 where "b = acc @ b4" "ell' = ell" "length acc + 4 \<le> 16"
        "parse_ipv4_fields s None 0 0 [] = Some b4"
    | (last) "b = acc'" "ell' = ell"
    | (dots) "b = acc'" "ell' = Some (length acc')"
    | (rec1) "ipv6_groups k (tl (tl ?rest)) acc' (Some (length acc')) = Some (b, ell', rest)"
    | (rec2) "ipv6_groups k (tl ?rest) acc' ell = Some (b, ell', rest)"
    unfolding ipv6_groups.simps Let_def acc'_def [symmetric]
    by (simp split: if_splits) blast+
  then show ?case
  proof cases
    case v4
    from parse_ipv4_fields_length [OF v4(4)] v4 Suc.prems(3) show ?thesis by auto
  next
    case rec1
    from Suc.IH [OF rec1] len Suc.prems(2) show ?thesis by simp
  next
    case rec2
    have "\<forall>e. ell = Some e \<longrightarrow> e \<le> length acc'" using Suc.prems(3) len by fastforce
    with Suc.IH [OF rec2] len Suc.prems(2) show ?thesis by simp
  qed (use len Suc.prems in auto)
qed

lemma parse_ipv6_length: "parse_ipv6 s = Some b \<Longrightarrow> length b = 16"
  by (auto simp: parse_ipv6_def Let_def split: if_splits option.splits prod.splits
        dest!: ipv6_groups_length)

lemma parse_ip_length: "parse_ip s = Some b \<Longrightarrow> length b = 16"
  by (auto simp: parse_ip_def v4_in_v6_def split: if_splits option.splits
        dest: parse_ipv6_length parse_ipv4_fields_length)

subsection \<open>CIDR notation and printing\<close>

text \<open>
  \<^verbatim>\<open>net.ParseCIDR\<close>: the address before the slash, in sixteen bytes, if the mask consists of digits
  and does not exceed the address length.
\<close>

definition parse_mask :: "string \<Rightarrow> nat option" where
  "parse_mask s =
     (if s = [] \<or> \<not> list_all is_digit s then None
      else Some (foldl (\<lambda>n c. 10 * n + (of_char c - 48)) 0 s))"

definition parse_cidr :: "string \<Rightarrow> bytes option" where
  "parse_cidr s =
     (case index_of s ''/'' of
        None \<Rightarrow> None
      | Some i \<Rightarrow>
          (case parse_ip (take i s) of
             None \<Rightarrow> None
           | Some ip \<Rightarrow>
               (case parse_mask (drop (i + 1) s) of
                  None \<Rightarrow> None
                | Some n \<Rightarrow> if n > (if CHR '':'' \<in> set (take i s) then 128 else 32) then None else Some ip)))"

text \<open>\<^verbatim>\<open>IP.String\<close>: dotted decimal for IPv4, otherwise RFC 5952 with the longest run of zero groups elided.\<close>

definition ip_groups :: "bytes \<Rightarrow> nat list" where
  "ip_groups b = map (\<lambda>i. unat (b ! (2 * i)) * 256 + unat (b ! (2 * i + 1))) [0..<8]"

definition zero_run :: "nat list \<Rightarrow> nat \<times> nat" where
  "zero_run gs =
     fold (\<lambda>i (s, l). let m = length (takeWhile (\<lambda>g. g = 0) (drop i gs))
                       in if 2 \<le> m \<and> l < m then (i, m) else (s, l)) [0..<8] (0, 0)"

definition ipv6_string :: "bytes \<Rightarrow> string" where
  "ipv6_string b =
     (let gs = ip_groups b; (s, l) = zero_run gs in
      if l = 0 then join_with '':'' (map hex_str gs)
      else join_with '':'' (map hex_str (take s gs)) @ ''::'' @ join_with '':'' (map hex_str (drop (s + l) gs)))"

definition ip_string :: "bytes \<Rightarrow> string" where
  "ip_string b =
     (case ip_to4 b of
        Some b4 \<Rightarrow> join_with ''.'' (map (\<lambda>x. dec_str (unat x)) b4)
      | None \<Rightarrow> ipv6_string b)"

end
