(* ===== verification/Git_Target.thy ===== *)
theory Git_Target
  imports Http_Model Go_Net
begin

text \<open>
  pkg/gitproxy/target.go: where a Git request is sent.  The upstream URL comes from an absolute
  request URL, from a path that starts with a scheme or with a host name, from the default target, or
  from the Host header.  \<^verbatim>\<open>URL.EscapedPath\<close> is modelled with the escaping rules of Go's \<^verbatim>\<open>net/url\<close> for
  paths; \<^verbatim>\<open>url.Parse\<close> is the parameter \<open>parse_url\<close>.
\<close>

subsection \<open>Escaping of paths\<close>

definition is_alnum :: "char \<Rightarrow> bool" where
  "is_alnum c \<longleftrightarrow>
     (let n = (of_char c :: nat) in 48 \<le> n \<and> n \<le> 57 \<or> 65 \<le> n \<and> n \<le> 90 \<or> 97 \<le> n \<and> n \<le> 122)"

definition path_plain :: "char \<Rightarrow> bool" where
  "path_plain c \<longleftrightarrow> is_alnum c \<or> c \<in> set ''-_.~$&+,/:;=@''"

definition upper_hex :: "nat \<Rightarrow> char" where
  "upper_hex n = (if n < 10 then char_of (48 + n) else char_of (55 + n))"

definition path_escape :: "string \<Rightarrow> string" where
  "path_escape s =
     concat (map (\<lambda>c. if path_plain c then [c]
                      else let n = (of_char c :: nat) in [CHR ''%'', upper_hex (n div 16), upper_hex (n mod 16)]) s)"

fun path_unescape :: "string \<Rightarrow> string option" where
  "path_unescape [] = Some []"
| "path_unescape (c # s) =
     (if c = CHR ''%'' then
        (case s of
           a # b # t \<Rightarrow>
             (case (hex_val a, hex_val b) of
                (Some x, Some y) \<Rightarrow> map_option (\<lambda>r. char_of (16 * x + y) # r) (path_unescape t)
              | _ \<Rightarrow> None)
         | _ \<Rightarrow> None)
      else map_option (Cons c) (path_unescape s))"

definition valid_encoded :: "string \<Rightarrow> bool" where
  "valid_encoded s \<longleftrightarrow> list_all (\<lambda>c. path_plain c \<or> c \<in> set ''!()*[]%'' \<or> c = CHR 0x27) s"

definition EscapedPath :: "URL \<Rightarrow> string" where
  "EscapedPath u =
     (if u_rawpath u \<noteq> [] \<and> valid_encoded (u_rawpath u) \<and> path_unescape (u_rawpath u) = Some (u_path u)
      then u_rawpath u
      else if u_path u = ''*'' then ''*''
      else path_escape (u_path u))"

subsection \<open>Resolving the target\<close>

definition buildURL :: "string \<Rightarrow> string \<Rightarrow> string \<Rightarrow> string \<Rightarrow> URL" where
  "buildURL scheme host path rawQuery =
     \<lparr>u_scheme = (if scheme = [] then ''https'' else scheme), u_host = host, u_path = path, u_rawpath = [],
      u_rawquery = rawQuery\<rparr>"

text \<open>The part before the first slash, and the rest with the slash.\<close>

definition host_and_path :: "string \<Rightarrow> string \<times> string" where
  "host_and_path rest =
     (let parts = split_2 rest ''/'' in (hd parts, if length parts > 1 then ''/'' @ parts ! 1 else []))"

definition parseHostAndPath :: "string \<Rightarrow> string \<Rightarrow> string \<Rightarrow> URL" where
  "parseHostAndPath scheme rest rawQuery =
     (let (host, subPath) = host_and_path rest in buildURL scheme host subPath rawQuery)"

definition isLocalHost :: "string \<Rightarrow> bool" where
  "isLocalHost host0 \<longleftrightarrow>
     (let host = HostWithoutPort host0 in host = ''localhost'' \<or> host = ''127.0.0.1'' \<or> host = ''::1'' \<or> host = [])"

definition isLikelyHostname :: "string \<Rightarrow> bool" where
  "isLikelyHostname s0 \<longleftrightarrow>
     s0 \<noteq> [] \<and> \<not> has_suffix s0 ''.git'' \<and>
     (let s = HostWithoutPort s0 in
      parse_ip s \<noteq> None \<or> s = ''localhost'' \<or>
      contains s ''.'' \<and> (let tld = last (split_on s ''.'') in length tld \<ge> 2 \<and> \<not> equal_fold tld ''git''))"

text \<open>The loop over the two schemes; the three prefixes are tried in the order of the code.\<close>

definition scheme_target :: "string \<Rightarrow> string \<Rightarrow> string \<Rightarrow> URL option" where
  "scheme_target scheme trimmed rawQuery =
     (if has_prefix trimmed (scheme @ ''://'') then Some (parseHostAndPath scheme (drop (length scheme + 3) trimmed) rawQuery)
      else if has_prefix trimmed (scheme @ '':/'') then Some (parseHostAndPath scheme (drop (length scheme + 2) trimmed) rawQuery)
      else if has_prefix trimmed (scheme @ ''/'') then Some (parseHostAndPath scheme (drop (length scheme + 1) trimmed) rawQuery)
      else None)"

definition host_target :: "(string \<Rightarrow> string + URL) \<Rightarrow> string \<Rightarrow> string \<Rightarrow> string \<Rightarrow> string \<Rightarrow> URL" where
  "host_target parse_url defaultTarget host subPath rawQuery =
     (let scheme = (if isLocalHost host then ''http'' else ''https'');
          scheme' = (if defaultTarget \<noteq> []
                     then (case parse_url defaultTarget of
                             Inr u \<Rightarrow> if u_scheme u \<noteq> [] then u_scheme u else scheme
                           | Inl _ \<Rightarrow> scheme)
                     else scheme)
      in buildURL scheme' host subPath rawQuery)"

text \<open>Cases 3 to 5 of the code: a host name, the default target, the Host header.\<close>

definition relative_target :: "(string \<Rightarrow> string + URL) \<Rightarrow> Request \<Rightarrow> string \<Rightarrow> string \<Rightarrow> string + URL" where
  "relative_target parse_url r defaultTarget trimmed =
     (let u = rq_url r; (host, subPath) = host_and_path trimmed in
      if isLikelyHostname host then Inr (host_target parse_url defaultTarget host subPath (u_rawquery u))
      else if defaultTarget \<noteq> [] then
        (case parse_url defaultTarget of
           Inl err \<Rightarrow> Inl (''invalid default target URL: '' @ err)
         | Inr base \<Rightarrow>
             (let relPath = (if has_prefix (u_path u) ''/'' then u_path u else ''/'' @ u_path u)
              in Inr (buildURL (u_scheme base) (u_host base)
                       (trim_right_if (\<lambda>c. c = CHR ''/'') (u_path base) @ relPath) (u_rawquery u))))
      else if rq_host r \<noteq> [] \<and> \<not> isLocalHost (rq_host r) \<and> rq_host r \<noteq> ''example.com''
      then Inr (buildURL ''https'' (rq_host r) (u_path u) (u_rawquery u))
      else Inl ''unable to determine upstream target URL'')"

definition trimmed_path :: "URL \<Rightarrow> string" where
  "trimmed_path u =
     (let rawPath = (if EscapedPath u = [] then u_path u else EscapedPath u)
      in if has_prefix rawPath ''/'' then drop 1 rawPath else rawPath)"

definition ResolveUpstreamURL :: "(string \<Rightarrow> string + URL) \<Rightarrow> Request \<Rightarrow> string \<Rightarrow> string + URL" where
  "ResolveUpstreamURL parse_url r defaultTarget =
     (let u = rq_url r; trimmed = trimmed_path u in
      if u_scheme u \<noteq> [] \<and> u_host u \<noteq> [] then Inr u
      else case scheme_target ''https'' trimmed (u_rawquery u) of
             Some t \<Rightarrow> Inr t
           | None \<Rightarrow>
               (case scheme_target ''http'' trimmed (u_rawquery u) of
                  Some t \<Rightarrow> Inr t
                | None \<Rightarrow> relative_target parse_url r defaultTarget trimmed))"

subsection \<open>Escaping lemmas\<close>

lemma path_escape_append [simp]: "path_escape (s @ t) = path_escape s @ path_escape t"
  by (simp add: path_escape_def)

lemma path_escape_plain: "list_all path_plain s \<Longrightarrow> path_escape s = s"
  by (induction s) (simp_all add: path_escape_def)

lemma upper_hex_val: "n < 16 \<Longrightarrow> hex_val (upper_hex n) = Some n"
  by (auto simp: hex_val_def upper_hex_def Let_def)

lemma path_unescape_escape: "path_unescape (path_escape s) = Some s"
proof (induction s)
  case (Cons c s)
  have n: "(of_char c :: nat) div 16 < 16" "(of_char c :: nat) mod 16 < 16" 
    using nat_of_char_less_256 [of c] by (simp_all add: less_mult_imp_div_less)
  have p: "\<not> path_plain (CHR ''%'')" by code_simp
  show ?case
  proof (cases "path_plain c")
    case True
    then have "c \<noteq> CHR ''%''" using p by auto
    then show ?thesis using True Cons by (simp add: path_escape_def)
  next
    case False
    then show ?thesis
      using Cons by (simp add: path_escape_def Let_def upper_hex_val [OF n(1)] upper_hex_val [OF n(2)])
  qed
qed (simp add: path_escape_def)

lemma path_escape_slash: "path_escape (CHR ''/'' # s) = CHR ''/'' # path_escape s"
  by (simp add: path_escape_def path_plain_def)

lemma length_path_escape: "length s \<le> length (path_escape s)"
  by (induction s) (simp_all add: path_escape_def Let_def)

lemma path_escape_id: "path_escape s = s \<longleftrightarrow> list_all path_plain s"
proof
  show "path_escape s = s \<Longrightarrow> list_all path_plain s"
  proof (induction s)
    case (Cons c s)
    show ?case
    proof (cases "path_plain c")
      case True
      then show ?thesis using Cons by (simp add: path_escape_def)
    next
      case False
      then have "length (path_escape (c # s)) = length (path_escape s) + 3" by (simp add: path_escape_def Let_def)
      then show ?thesis using Cons.prems length_path_escape [of s] by simp
    qed
  qed simp
qed (rule path_escape_plain)

lemma plain_path_escape: "list_all path_plain (path_escape s) \<longleftrightarrow> list_all path_plain s"
proof -
  have p: "\<not> path_plain (CHR ''%'')" by code_simp
  show ?thesis by (induction s) (auto simp: path_escape_def Let_def p)
qed

lemma host_and_path_slash: "CHR ''/'' \<notin> set host \<Longrightarrow> host_and_path (host @ ''/'' @ p) = (host, ''/'' @ p)"
  using index_of_append_single [of "CHR ''/''" host p] by (simp add: host_and_path_def split_2_def)

lemma take_to_slash: "CHR ''/'' \<notin> set s \<Longrightarrow> takeWhile (\<lambda>c. c \<noteq> CHR ''/'') (s @ ''/'' @ t) = s"
  by (induction s) auto

lemma not_scheme_prefix:
  assumes "CHR ''/'' \<notin> set host" and "CHR ''/'' \<notin> set s" and "has_prefix (host @ ''/'' @ p) (s @ ''/'' @ q)"
  shows "host = s"
proof -
  obtain r where "host @ ''/'' @ p = (s @ ''/'' @ q) @ r" using assms(3) unfolding has_prefix_iff by blast
  then have "host @ ''/'' @ p = s @ ''/'' @ (q @ r)" by simp
  then show ?thesis using take_to_slash [OF assms(1), of p] take_to_slash [OF assms(2), of "q @ r"] by (simp only:)
qed

lemma scheme_not_host: "\<not> isLikelyHostname ''https:''" "\<not> isLikelyHostname ''https''" "\<not> isLikelyHostname ''http:''"
  "\<not> isLikelyHostname ''http''"
  by code_simp+

lemma host_no_scheme:
  assumes "CHR ''/'' \<notin> set host" and "isLikelyHostname host" and "scheme \<in> {''https'', ''http''}"
  shows "scheme_target scheme (host @ ''/'' @ p) q = None"
proof -
  have "host \<noteq> scheme" "host \<noteq> scheme @ '':''" using assms(2,3) scheme_not_host by auto
  moreover have sl: "CHR ''/'' \<notin> set scheme" "CHR ''/'' \<notin> set (scheme @ '':'')" using assms(3) by auto
  ultimately have "\<not> has_prefix (host @ ''/'' @ p) ((scheme @ '':'') @ ''/'' @ q)" "\<not> has_prefix (host @ ''/'' @ p) (scheme @ ''/'' @ q)" for q
    using not_scheme_prefix [OF assms(1) sl(1)] not_scheme_prefix [OF assms(1) sl(2)] by blast+
  from this(1) [of "''/''"] this(1) [of "[]"] this(2) [of "[]"] show ?thesis by (simp add: scheme_target_def)
qed

lemma https_target:
  assumes "CHR ''/'' \<notin> set host" and "host \<noteq> []" and "pre \<in> {''https/'', ''https:/'', ''https://''}"
  shows "scheme_target ''https'' (pre @ host @ ''/'' @ p) q = Some (buildURL ''https'' host (''/'' @ p) q)"
proof -
  obtain c t where h: "host = c # t" "c \<noteq> CHR ''/''" using assms(1,2) by (cases host) auto
  have b: "parseHostAndPath ''https'' (host @ ''/'' @ p) q = buildURL ''https'' host (''/'' @ p) q"
    using host_and_path_slash [OF assms(1), of p] by (simp add: parseHostAndPath_def)
  from assms(3) show ?thesis
    using b h by (auto simp: scheme_target_def)
qed

lemma resolve_named:
  assumes "u_path (rq_url r) = ''/'' @ pre @ host @ ''/'' @ p" and "u_scheme (rq_url r) = []" and "u_rawpath (rq_url r) = []"
    and "pre \<in> {[], ''https/'', ''https:/'', ''https://''}" and "pre = [] \<longrightarrow> isLikelyHostname host \<and> \<not> isLocalHost host"
    and "host \<noteq> []" and "CHR ''/'' \<notin> set host" and "list_all path_plain host"
  shows "\<exists>t. ResolveUpstreamURL parse_url r [] = Inr t \<and> u_scheme t = ''https'' \<and> u_host t = host \<and>
    u_rawquery t = u_rawquery (rq_url r) \<and> EscapedPath t = path_escape (path_escape (''/'' @ p)) \<and>
    (EscapedPath t = path_escape (''/'' @ p) \<longleftrightarrow> list_all path_plain p)"
proof -
  let ?t = "buildURL ''https'' host (''/'' @ path_escape p) (u_rawquery (rq_url r))"
  have sl: "path_escape ''/'' = ''/''" "path_escape host = host" "path_escape pre = pre"
    using assms(4,8) by (auto intro!: path_escape_plain simp: path_plain_def is_alnum_def)
  have raw: "EscapedPath (rq_url r) = ''/'' @ pre @ host @ ''/'' @ path_escape p"
    unfolding EscapedPath_def assms(1,3) path_escape_append sl by simp
  then have tp: "trimmed_path (rq_url r) = pre @ host @ ''/'' @ path_escape p" by (simp add: trimmed_path_def)
  have "ResolveUpstreamURL parse_url r [] = Inr ?t"
  proof (cases "pre = []")
    case True
    have "scheme_target ''https'' (host @ ''/'' @ path_escape p) q = None" "scheme_target ''http'' (host @ ''/'' @ path_escape p) q = None" for q
      using host_no_scheme assms(5,7) True by simp_all
    then show ?thesis
      using True assms(5) host_and_path_slash [OF assms(7), of "path_escape p"]
      unfolding ResolveUpstreamURL_def Let_def tp by (simp add: assms(2) relative_target_def host_target_def)
  next
    case False
    then have "scheme_target ''https'' (pre @ host @ ''/'' @ path_escape p) (u_rawquery (rq_url r)) = Some ?t"
      using assms(4) by (intro https_target [OF assms(7,6)]) simp
    then show ?thesis unfolding ResolveUpstreamURL_def Let_def tp by (simp add: assms(2))
  qed
  moreover have "EscapedPath ?t = path_escape (path_escape (''/'' @ p))"
    by (simp add: EscapedPath_def buildURL_def path_escape_slash)
  moreover have "path_escape (path_escape (''/'' @ p)) = path_escape (''/'' @ p) \<longleftrightarrow> list_all path_plain p"
    unfolding path_escape_id plain_path_escape by (simp add: path_plain_def)
  ultimately show ?thesis by (intro exI [of _ ?t]) (simp add: buildURL_def)
qed

subsection \<open>Properties\<close>

text \<open>
  A repository named in the path is found there: in each of the forms
  \<^verbatim>\<open>/host/p\<close>, \<^verbatim>\<open>/https/host/p\<close>, \<^verbatim>\<open>/https:/host/p\<close> and \<^verbatim>\<open>/https://host/p\<close> the upstream URL has scheme
  https, that host and the client's query.  Its path is the escaped path of the client, so that it
  is escaped a second time on the wire, and arrives unchanged exactly if it needs no escaping.
\<close>

theorem resolve_forms:
  assumes "u_path (rq_url r) = ''/'' @ pre @ host @ ''/'' @ p" and "u_scheme (rq_url r) = []" and "u_rawpath (rq_url r) = []"
    and "pre \<in> {[], ''https/'', ''https:/'', ''https://''}" and "pre = [] \<longrightarrow> isLikelyHostname host \<and> \<not> isLocalHost host"
    and "host \<noteq> []" and "CHR ''/'' \<notin> set host" and "list_all path_plain host"
  shows "\<exists>t. ResolveUpstreamURL parse_url r [] = Inr t \<and> u_scheme t = ''https'' \<and> u_host t = host \<and>
    u_rawquery t = u_rawquery (rq_url r) \<and> EscapedPath t = path_escape (path_escape (''/'' @ p)) \<and>
    (EscapedPath t = path_escape (''/'' @ p) \<longleftrightarrow> list_all path_plain p)"
  by (rule resolve_named [OF assms])

definition path_request :: "string \<Rightarrow> Request" where
  "path_request path =
     \<lparr>rq_method = ''GET'',
      rq_url = \<lparr>u_scheme = [], u_host = [], u_path = path, u_rawpath = [], u_rawquery = ''service=git-upload-pack''\<rparr>,
      rq_host = ''gitproxy'', rq_header = (\<lambda>_. None), rq_body = [], rq_remote = ''10.0.0.5:4711''\<rparr>"

theorem resolve_forms_witness:
  "\<exists>t. ResolveUpstreamURL (\<lambda>_. Inl ''no'') (path_request ''/https://github.com/a b'') [] = Inr t \<and>
     u_host t = ''github.com'' \<and> EscapedPath t = ''/a%2520b''"
proof -
  have "path_escape (path_escape (''/'' @ ''a b'')) = ''/a%2520b''" by code_simp
  moreover have "list_all path_plain ''github.com''" by code_simp
  ultimately show ?thesis
    using resolve_forms [of "path_request ''/https://github.com/a b''" "''https://''" "''github.com''" "''a b''" "\<lambda>_. Inl ''no''"]
    by (auto simp: path_request_def)
qed

end
