(* ===== verification/Portal_Cache.thy ===== *)
theory Portal_Cache
  imports Portal_Prelude
begin

text \<open>
  pkg/cache/cache.go: the \<^verbatim>\<open>Cache\<close> interface and its two implementations.  Times and durations
  are integers (nanoseconds); every operation takes the clock value it reads.  The in-memory
  cache is a map from keys to values with an expiration time.  The disk cache is the content of
  its directory: entry names to file content and modification time, with SHA-256 a parameter
  (\<open>sha\<close>), and with the removals that \<^verbatim>\<open>Open\<close> starts in the background as pending work that a
  later step performs.  A failing file-system call is an argument of \<^verbatim>\<open>Put\<close>.

  The interface is the locale \<open>cache_store\<close>, interpreted on both implementations; the caching
  transport of pkg/proxy/transport.go is verified against it.
\<close>

type_synonym time = int

subsection \<open>The in-memory cache\<close>

record cacheItem =
  ci_value :: bytes
  ci_expiration :: time

type_synonym InMemoryCache = "string \<rightharpoonup> cacheItem"

definition NewInMemoryCache :: InMemoryCache where
  "NewInMemoryCache = (\<lambda>_. None)"

definition mem_Get :: "string \<Rightarrow> time \<Rightarrow> InMemoryCache \<Rightarrow> bytes option" where
  "mem_Get key now c =
     (case c key of
        None \<Rightarrow> None
      | Some item \<Rightarrow> if now > ci_expiration item then None else Some (ci_value item))"

definition mem_Set :: "string \<Rightarrow> bytes \<Rightarrow> int \<Rightarrow> time \<Rightarrow> InMemoryCache \<Rightarrow> InMemoryCache" where
  "mem_Set key v ttl now c = c(key \<mapsto> \<lparr>ci_value = v, ci_expiration = now + ttl\<rparr>)"

definition mem_Delete :: "string \<Rightarrow> InMemoryCache \<Rightarrow> InMemoryCache" where
  "mem_Delete key c = c(key := None)"

text \<open>One tick of the janitor; \<open>ord\<close> is the order in which the range visits the keys.\<close>

definition mem_janitor :: "string list \<Rightarrow> time \<Rightarrow> InMemoryCache \<Rightarrow> InMemoryCache" where
  "mem_janitor ord now c =
     fold (\<lambda>k c. case c k of
                   Some item \<Rightarrow> if now > ci_expiration item then c(k := None) else c
                 | None \<Rightarrow> c) ord c"

subsection \<open>The disk cache\<close>

record cacheFile =
  cf_content :: bytes
  cf_mtime :: time

record DiskCache =
  dc_files :: "string \<rightharpoonup> cacheFile"
  dc_defaultTTL :: int
  dc_pending :: "string list"

definition disk_state :: "int \<Rightarrow> (string \<rightharpoonup> cacheFile) \<Rightarrow> DiskCache" where
  "disk_state ttl files = \<lparr>dc_files = files, dc_defaultTTL = ttl, dc_pending = []\<rparr>"

text \<open>\<open>mkdir\<close> is the error of \<^verbatim>\<open>os.MkdirAll\<close>, if any; \<open>files\<close> is what the directory already holds.\<close>

definition NewDiskCache :: "string option \<Rightarrow> string \<Rightarrow> int \<Rightarrow> (string \<rightharpoonup> cacheFile) \<Rightarrow> string + DiskCache" where
  "NewDiskCache mkdir dir ttl files =
     (case mkdir of
        Some err \<Rightarrow> Inl (''failed to create cache directory '' @ dir @ '': '' @ err)
      | None \<Rightarrow> Inr (disk_state ttl files))"

definition keyPath :: "(bytes \<Rightarrow> bytes) \<Rightarrow> string \<Rightarrow> string" where
  "keyPath sha key = hex_encode (sha (to_bytes key)) @ ''.cache''"

definition disk_expired :: "DiskCache \<Rightarrow> time \<Rightarrow> cacheFile \<Rightarrow> bool" where
  "disk_expired c now f \<longleftrightarrow> dc_defaultTTL c > 0 \<and> now - cf_mtime f > dc_defaultTTL c"

definition disk_Open :: "(bytes \<Rightarrow> bytes) \<Rightarrow> string \<Rightarrow> time \<Rightarrow> DiskCache \<Rightarrow> bytes option \<times> DiskCache" where
  "disk_Open sha key now c =
     (let p = keyPath sha key in
      case dc_files c p of
        None \<Rightarrow> (None, c)
      | Some f \<Rightarrow>
          if disk_expired c now f then (None, c\<lparr>dc_pending := dc_pending c @ [p]\<rparr>)
          else (Some (cf_content f), c\<lparr>dc_files := (dc_files c)(p \<mapsto> f\<lparr>cf_mtime := now\<rparr>)\<rparr>))"

text \<open>The background removal of an expired file that \<^verbatim>\<open>Open\<close> left to a goroutine.\<close>

definition disk_run_pending :: "DiskCache \<Rightarrow> DiskCache" where
  "disk_run_pending c =
     (case dc_pending c of
        [] \<Rightarrow> c
      | p # ps \<Rightarrow> c\<lparr>dc_files := (dc_files c)(p := None), dc_pending := ps\<rparr>)"

definition disk_Get :: "(bytes \<Rightarrow> bytes) \<Rightarrow> string \<Rightarrow> time \<Rightarrow> DiskCache \<Rightarrow> bytes option \<times> DiskCache" where
  "disk_Get sha key now c = disk_Open sha key now c"

datatype put_fault = NoFault | CreateTempFails | CopyFails | CloseFails | RenameFails

text \<open>
  \<^verbatim>\<open>Put\<close>: the content goes to a temporary file (its random name part is \<open>rnd\<close>), which is then
  renamed over the entry.  The result says whether \<^verbatim>\<open>Put\<close> returned an error.
\<close>

definition temp_name :: "string \<Rightarrow> string" where
  "temp_name rnd = ''tmp-cache-'' @ rnd"

definition disk_Put ::
  "(bytes \<Rightarrow> bytes) \<Rightarrow> string \<Rightarrow> put_fault \<Rightarrow> string \<Rightarrow> bytes \<Rightarrow> time \<Rightarrow> DiskCache \<Rightarrow> bool \<times> DiskCache" where
  "disk_Put sha rnd fault key v now c =
     (let tmpName = temp_name rnd; p = keyPath sha key; files = dc_files c in
      case fault of
        CreateTempFails \<Rightarrow> (True, c)
      | CopyFails \<Rightarrow> (True, c\<lparr>dc_files := files(tmpName := None)\<rparr>)
      | CloseFails \<Rightarrow> (True, c\<lparr>dc_files := files(tmpName := None)\<rparr>)
      | RenameFails \<Rightarrow> (True, c\<lparr>dc_files := files(tmpName \<mapsto> \<lparr>cf_content = v, cf_mtime = now\<rparr>)\<rparr>)
      | NoFault \<Rightarrow>
          (False, c\<lparr>dc_files := (files(tmpName := None))(p \<mapsto> \<lparr>cf_content = v, cf_mtime = now\<rparr>)\<rparr>))"

definition disk_Set ::
  "(bytes \<Rightarrow> bytes) \<Rightarrow> string \<Rightarrow> put_fault \<Rightarrow> string \<Rightarrow> bytes \<Rightarrow> int \<Rightarrow> time \<Rightarrow> DiskCache \<Rightarrow> DiskCache" where
  "disk_Set sha rnd fault key v ttl now c =
     (let c1 = (if ttl > 0 \<and> dc_defaultTTL c \<le> 0 then c\<lparr>dc_defaultTTL := ttl\<rparr> else c)
      in snd (disk_Put sha rnd fault key v now c1))"

definition disk_Delete :: "(bytes \<Rightarrow> bytes) \<Rightarrow> string \<Rightarrow> DiskCache \<Rightarrow> DiskCache" where
  "disk_Delete sha key c = c\<lparr>dc_files := (dc_files c)(keyPath sha key := None)\<rparr>"

text \<open>One tick of the disk janitor over the directory listing \<open>entries\<close>.\<close>

definition janitor_entry :: "time \<Rightarrow> string \<Rightarrow> DiskCache \<Rightarrow> DiskCache" where
  "janitor_entry now name c =
     (if \<not> has_suffix name ''.cache'' then c
      else case dc_files c name of
             None \<Rightarrow> c
           | Some f \<Rightarrow>
               if now - cf_mtime f > dc_defaultTTL c
               then c\<lparr>dc_files := (dc_files c)(name := None)\<rparr> else c)"

definition disk_janitor :: "string list \<Rightarrow> time \<Rightarrow> DiskCache \<Rightarrow> DiskCache" where
  "disk_janitor entries now c =
     (if dc_defaultTTL c > 0 then fold (janitor_entry now) entries c else c)"

subsection \<open>The interface and what its clients may rely on\<close>

text \<open>
  A cache is a map that may forget: an event is a read, a write (with the environment of the
  write: the random file name and a possible fault), a deletion, or maintenance (a janitor tick
  or a background removal).
\<close>

datatype ('x, 'm) cache_event =
    Get_ev string time
  | Set_ev 'x string bytes int time
  | Del_ev string
  | Maint_ev 'm

text \<open>
  The reference: the value most recently written to a slot, by a write that did not fail, and
  not deleted since.
\<close>

fun last_write ::
  "(string \<Rightarrow> string) \<Rightarrow> ('x \<Rightarrow> bool) \<Rightarrow> ('x, 'm) cache_event \<Rightarrow> (string \<rightharpoonup> bytes) \<Rightarrow> (string \<rightharpoonup> bytes)" where
  "last_write slot good (Set_ev x k v ttl t) m = (if good x then m(slot k \<mapsto> v) else m)"
| "last_write slot good (Del_ev k) m = m(slot k := None)"
| "last_write slot good (Get_ev k t) m = m"
| "last_write slot good (Maint_ev e) m = m"

fun cache_run ::
  "(string \<Rightarrow> time \<Rightarrow> 's \<Rightarrow> bytes option \<times> 's) \<Rightarrow>
   ('x \<Rightarrow> string \<Rightarrow> bytes \<Rightarrow> int \<Rightarrow> time \<Rightarrow> 's \<Rightarrow> 's) \<Rightarrow> (string \<Rightarrow> 's \<Rightarrow> 's) \<Rightarrow> ('m \<Rightarrow> 's \<Rightarrow> 's) \<Rightarrow>
   ('x, 'm) cache_event \<Rightarrow> 's \<Rightarrow> 's" where
  "cache_run get put del maint (Get_ev k t) s = snd (get k t s)"
| "cache_run get put del maint (Set_ev x k v ttl t) s = put x k v ttl t s"
| "cache_run get put del maint (Del_ev k) s = del k s"
| "cache_run get put del maint (Maint_ev e) s = maint e s"

lemma map_le_upd_same: "m \<subseteq>\<^sub>m m' \<Longrightarrow> m(k := v) \<subseteq>\<^sub>m m'(k := v)"
  by (auto simp: map_le_def split: if_splits)

lemma last_write_mono: "m \<subseteq>\<^sub>m m' \<Longrightarrow> last_write slot good e m \<subseteq>\<^sub>m last_write slot good e m'"
  by (cases e) (simp_all add: map_le_upd_same)

locale cache_store =
  fixes get :: "string \<Rightarrow> time \<Rightarrow> 's \<Rightarrow> bytes option \<times> 's"
    and put :: "'x \<Rightarrow> string \<Rightarrow> bytes \<Rightarrow> int \<Rightarrow> time \<Rightarrow> 's \<Rightarrow> 's"
    and del :: "string \<Rightarrow> 's \<Rightarrow> 's"
    and maint :: "'m \<Rightarrow> 's \<Rightarrow> 's"
    and slot :: "string \<Rightarrow> string"
    and view :: "'s \<Rightarrow> string \<rightharpoonup> bytes"
    and good :: "'x \<Rightarrow> bool"
    and serves :: "int \<Rightarrow> 's \<Rightarrow> bool"
  assumes get_view: "fst (get k t s) = Some v \<Longrightarrow> view s (slot k) = Some v"
    and view_get: "view (snd (get k t s)) \<subseteq>\<^sub>m view s"
    and view_set: "view (put x k v ttl t s) \<subseteq>\<^sub>m (if good x then (view s)(slot k \<mapsto> v) else view s)"
    and view_del: "view (del k s) \<subseteq>\<^sub>m (view s)(slot k := None)"
    and view_maint: "view (maint e s) \<subseteq>\<^sub>m view s"
    and get_set: "\<lbrakk>good x; serves ttl s; t \<le> t'; t' \<le> t + ttl\<rbrakk> \<Longrightarrow>
                    fst (get k t' (put x k v ttl t s)) = Some v"
    and get_set_late: "\<lbrakk>good x; serves ttl s; t + ttl < t'\<rbrakk> \<Longrightarrow>
                    fst (get k t' (put x k v ttl t s)) = None"
    and get_apart: "slot k \<noteq> slot k' \<Longrightarrow> fst (get k' t' (snd (get k t s))) = fst (get k' t' s)"
    and set_apart: "\<lbrakk>serves ttl s; slot k \<noteq> slot k'\<rbrakk> \<Longrightarrow>
                    fst (get k' t' (put x k v ttl t s)) = fst (get k' t' s)"
    and serves_get: "serves ttl (snd (get k t s)) = serves ttl s"
    and serves_set: "serves ttl s \<Longrightarrow> serves ttl (put x k v ttl t s)"
begin

abbreviation run where "run \<equiv> cache_run get put del maint"

lemma view_step: "view (run e s) \<subseteq>\<^sub>m last_write slot good e (view s)"
proof (cases e)
  case (Set_ev x k v ttl t)
  then show ?thesis using view_set [of x k v ttl t s] by simp
qed (simp_all add: view_get view_del view_maint)

lemma view_run: "view (fold run es s) \<subseteq>\<^sub>m fold (last_write slot good) es (view s)"
proof (induction es arbitrary: s)
  case Nil
  show ?case by simp
next
  case (Cons e es)
  have mono: "m \<subseteq>\<^sub>m m' \<Longrightarrow> fold (last_write slot good) es m \<subseteq>\<^sub>m fold (last_write slot good) es m'" for m m'
    by (induction es arbitrary: m m') (auto intro: last_write_mono)
  show ?case
    using map_le_trans [OF Cons.IH mono [OF view_step]] by simp
qed

text \<open>A hit returns the value of the last write to its slot.\<close>

lemma hit_is_last_write:
  assumes "fst (get k t (fold run es s)) = Some v"
  shows "fold (last_write slot good) es (view s) (slot k) = Some v"
proof -
  have "view (fold run es s) (slot k) = Some v" using assms by (rule get_view)
  then show ?thesis using view_run [of es s] by (force simp: map_le_def dom_def)
qed

text \<open>Nothing is served from a slot that was deleted and not written again.\<close>

lemma no_hit_after_delete: "fst (get k t (del k s)) = None"
proof (cases "fst (get k t (del k s))")
  case (Some v)
  then have "view (del k s) (slot k) = Some v" by (rule get_view)
  then show ?thesis using view_del [of k s] by (force simp: map_le_def dom_def)
qed simp

end

subsection \<open>The in-memory cache provides the interface\<close>

lemma mem_janitor_apply:
  "mem_janitor ord now c k =
     (case c k of
        Some item \<Rightarrow> if k \<in> set ord \<and> now > ci_expiration item then None else Some item
      | None \<Rightarrow> None)"
  unfolding mem_janitor_def
  by (induction ord arbitrary: c) (auto split: option.splits)

lemma mem_janitor_le: "mem_janitor ord now c \<subseteq>\<^sub>m c"
  by (auto simp: map_le_def dom_def mem_janitor_apply split: option.splits if_splits)

abbreviation mem_view :: "InMemoryCache \<Rightarrow> string \<rightharpoonup> bytes" where
  "mem_view c \<equiv> (\<lambda>k. map_option ci_value (c k))"

abbreviation mem_get_op :: "string \<Rightarrow> time \<Rightarrow> InMemoryCache \<Rightarrow> bytes option \<times> InMemoryCache" where
  "mem_get_op \<equiv> (\<lambda>k t c. (mem_Get k t c, c))"

abbreviation mem_set_op :: "unit \<Rightarrow> string \<Rightarrow> bytes \<Rightarrow> int \<Rightarrow> time \<Rightarrow> InMemoryCache \<Rightarrow> InMemoryCache" where
  "mem_set_op \<equiv> (\<lambda>_. mem_Set)"

abbreviation mem_maint_op :: "string list \<times> time \<Rightarrow> InMemoryCache \<Rightarrow> InMemoryCache" where
  "mem_maint_op \<equiv> (\<lambda>(ord, now). mem_janitor ord now)"

interpretation mem: cache_store mem_get_op mem_set_op mem_Delete mem_maint_op "\<lambda>k. k" mem_view
  "\<lambda>_. True" "\<lambda>_ _. True"
proof (unfold_locales, goal_cases)
  case (5 e s)
  show ?case
    by (cases e) (auto simp: map_le_def dom_def mem_janitor_apply split: option.splits if_splits)
qed (auto simp: mem_Get_def mem_Set_def mem_Delete_def map_le_def split: option.splits if_splits)

text \<open>The expiring map that the in-memory cache implements exactly.\<close>

fun timed_write :: "(unit, 'm) cache_event \<Rightarrow> (string \<rightharpoonup> bytes \<times> time) \<Rightarrow> (string \<rightharpoonup> bytes \<times> time)" where
  "timed_write (Set_ev x k v ttl t) m = m(k \<mapsto> (v, t + ttl))"
| "timed_write (Del_ev k) m = m(k := None)"
| "timed_write (Get_ev k t) m = m"
| "timed_write (Maint_ev e) m = m"

fun timed_get :: "(string \<rightharpoonup> bytes \<times> time) \<Rightarrow> string \<Rightarrow> time \<Rightarrow> bytes option" where
  "timed_get m k t = (case m k of Some (v, e) \<Rightarrow> if t \<le> e then Some v else None | None \<Rightarrow> None)"

fun maint_before :: "time \<Rightarrow> (unit, string list \<times> time) cache_event \<Rightarrow> bool" where
  "maint_before t (Maint_ev (ord, now)) \<longleftrightarrow> now \<le> t"
| "maint_before t _ \<longleftrightarrow> True"

abbreviation mem_run :: "(unit, string list \<times> time) cache_event \<Rightarrow> InMemoryCache \<Rightarrow> InMemoryCache" where
  "mem_run \<equiv> cache_run mem_get_op mem_set_op mem_Delete mem_maint_op"

text \<open>Up to time \<open>t\<close> the cache agrees with the expiring map on every read at \<open>t\<close> or later.\<close>

definition mem_agrees :: "time \<Rightarrow> InMemoryCache \<Rightarrow> (string \<rightharpoonup> bytes \<times> time) \<Rightarrow> bool" where
  "mem_agrees t c m \<longleftrightarrow> (\<forall>k t'. t \<le> t' \<longrightarrow> mem_Get k t' c = timed_get m k t')"

lemma mem_agrees_step:
  assumes "mem_agrees t c m" and "maint_before t e"
  shows "mem_agrees t (mem_run e c) (timed_write e m)"
proof (cases e)
  case (Maint_ev p)
  obtain ord now where [simp]: "p = (ord, now)" by (cases p)
  have "mem_Get k t' (mem_janitor ord now c) = mem_Get k t' c" if "t \<le> t'" for k t'
    using that assms(2) Maint_ev
    by (auto simp: mem_Get_def mem_janitor_apply split: option.splits)
  then show ?thesis using assms(1) Maint_ev by (simp add: mem_agrees_def)
next
  case (Set_ev x k v ttl s)
  then show ?thesis using assms(1) by (auto simp: mem_agrees_def mem_Get_def mem_Set_def)
next
  case (Del_ev k)
  then show ?thesis using assms(1) by (auto simp: mem_agrees_def mem_Get_def mem_Delete_def)
qed (use assms(1) in simp)

lemma mem_agrees_run:
  assumes "mem_agrees t c m" and "list_all (maint_before t) es"
  shows "mem_agrees t (fold mem_run es c) (fold timed_write es m)"
  using assms by (induction es arbitrary: c m) (simp_all add: mem_agrees_step)

subsection \<open>The disk cache provides the interface\<close>

datatype disk_maint = Janitor "string list" time | BackgroundRemove

primrec disk_maint_op :: "disk_maint \<Rightarrow> DiskCache \<Rightarrow> DiskCache" where
  "disk_maint_op (Janitor entries now) c = disk_janitor entries now c"
| "disk_maint_op BackgroundRemove c = disk_run_pending c"

definition disk_view :: "DiskCache \<Rightarrow> string \<rightharpoonup> bytes" where
  "disk_view c p = (if has_prefix p ''tmp-cache-'' then None else map_option cf_content (dc_files c p))"

abbreviation disk_set_op ::
  "(bytes \<Rightarrow> bytes) \<Rightarrow> string \<times> put_fault \<Rightarrow> string \<Rightarrow> bytes \<Rightarrow> int \<Rightarrow> time \<Rightarrow> DiskCache \<Rightarrow> DiskCache" where
  "disk_set_op sha \<equiv> (\<lambda>x. disk_Set sha (fst x) (snd x))"

abbreviation disk_serves :: "int \<Rightarrow> DiskCache \<Rightarrow> bool" where
  "disk_serves ttl c \<equiv> 0 < ttl \<and> dc_defaultTTL c = ttl"

lemma hex_encode_inj: "hex_encode a = hex_encode b \<Longrightarrow> a = b"
proof (induction a arbitrary: b)
  case Nil
  then show ?case by (cases b) (simp_all add: hex_encode_def)
next
  case (Cons x a)
  then obtain y b' where b: "b = y # b'" by (cases b) (simp_all add: hex_encode_def)
  have lt: "unat z < 256" for z :: "8 word" using unsigned_less [of z, where ?'a = nat] by simp
  have d: "hex_digit n = hex_digit m \<Longrightarrow> n < 16 \<Longrightarrow> m < 16 \<Longrightarrow> n = m" for n m
    by (metis hex_val_digit option.inject)
  from Cons.prems b have "hex_digit (unat x div 16) = hex_digit (unat y div 16)"
    and "hex_digit (unat x mod 16) = hex_digit (unat y mod 16)" and "hex_encode a = hex_encode b'"
    by (simp_all add: hex_encode_def)
  with d lt [of x] lt [of y] Cons.IH have "unat x div 16 = unat y div 16"
    and "unat x mod 16 = unat y mod 16" and "a = b'" by (simp_all add: less_mult_imp_div_less)
  then show ?case using b by (metis div_mult_mod_eq unsigned_word_eqI)
qed

lemma keyPath_eq_iff [simp]:
  "keyPath sha k = keyPath sha k' \<longleftrightarrow> sha (to_bytes k) = sha (to_bytes k')"
  by (auto simp: keyPath_def dest: hex_encode_inj)

lemma keyPath_not_tmp [simp]: "\<not> has_prefix (keyPath sha k) ''tmp-cache-''"
proof
  assume "has_prefix (keyPath sha k) ''tmp-cache-''"
  then obtain r where r: "keyPath sha k = CHR ''t'' # r" by (auto simp: has_prefix_iff)
  have "hex_digit n \<noteq> CHR ''t''" if "n < 16" for n
    using hex_val_digit [OF that] by (auto simp: hex_val_def)
  moreover have "unat x div 16 < 16" for x :: "8 word"
    using unsigned_less [of x, where ?'a = nat] by (simp add: less_mult_imp_div_less)
  ultimately show False using r
    by (cases "sha (to_bytes k)") (auto simp: keyPath_def hex_encode_def)
qed

lemma temp_name_tmp [simp]: "has_prefix (temp_name rnd) ''tmp-cache-''"
  by (simp add: temp_name_def has_prefix_def)

lemma keyPath_neq_tmp [simp]: "keyPath sha k \<noteq> temp_name rnd" "temp_name rnd \<noteq> keyPath sha k"
  using keyPath_not_tmp [of sha k] temp_name_tmp [of rnd] by metis+

lemmas disk_defs = disk_Get_def disk_Open_def disk_Set_def disk_Put_def disk_Delete_def disk_expired_def

lemma janitor_entry_le: "dc_files (janitor_entry now name c) \<subseteq>\<^sub>m dc_files c"
  by (auto simp: janitor_entry_def map_le_def split: option.splits)

lemma disk_janitor_le: "dc_files (disk_janitor entries now c) \<subseteq>\<^sub>m dc_files c"
proof -
  have "dc_files (fold (janitor_entry now) entries c) \<subseteq>\<^sub>m dc_files c"
    by (induction entries arbitrary: c) (auto intro: map_le_trans janitor_entry_le)
  then show ?thesis by (simp add: disk_janitor_def)
qed

lemma disk_view_mono: "dc_files c \<subseteq>\<^sub>m dc_files c' \<Longrightarrow> disk_view c \<subseteq>\<^sub>m disk_view c'"
  by (force simp: map_le_def disk_view_def dom_def split: if_splits)

lemma disk_maint_view: "disk_view (disk_maint_op e c) \<subseteq>\<^sub>m disk_view c"
proof (rule disk_view_mono, cases e)
  case BackgroundRemove
  then show "dc_files (disk_maint_op e c) \<subseteq>\<^sub>m dc_files c"
    by (auto simp: disk_run_pending_def map_le_def split: list.splits if_splits)
qed (simp add: disk_janitor_le)

interpretation disk: cache_store "disk_Get sha" "disk_set_op sha" "disk_Delete sha" disk_maint_op
  "keyPath sha" disk_view "\<lambda>x. snd x = NoFault" disk_serves for sha
proof (unfold_locales, goal_cases)
  case (3 x k v ttl t s)
  show ?case
    by (cases "snd x") (auto simp: disk_defs disk_view_def map_le_def Let_def split: if_splits)
next
  case (5 e s)
  show ?case by (rule disk_maint_view)
next
  case (9 ttl s k k' t' x v t)
  then show ?case by (cases "snd x") (auto simp: disk_defs Let_def split: option.splits)
next
  case (11 ttl s x k v t)
  then show ?case by (cases "snd x") (auto simp: disk_defs Let_def)
qed (auto simp: disk_defs disk_view_def map_le_def Let_def split: option.splits if_splits)

subsection \<open>Runs of the disk cache\<close>

abbreviation disk_run ::
  "(bytes \<Rightarrow> bytes) \<Rightarrow> (string \<times> put_fault, disk_maint) cache_event \<Rightarrow> DiskCache \<Rightarrow> DiskCache" where
  "disk_run sha \<equiv> cache_run (disk_Get sha) (disk_set_op sha) (disk_Delete sha) disk_maint_op"

fun event_key :: "('x, 'm) cache_event \<Rightarrow> string option" where
  "event_key (Set_ev x k v ttl t) = Some k"
| "event_key (Del_ev k) = Some k"
| "event_key (Get_ev k t) = Some k"
| "event_key (Maint_ev e) = None"

text \<open>Where no other key of the run shares the slot, slots and keys agree.\<close>

lemma last_write_slot:
  assumes "m (slot k) = m' k"
    and "\<forall>e\<in>set es. \<forall>k'. event_key e = Some k' \<longrightarrow> slot k' = slot k \<longrightarrow> k' = k"
  shows "fold (last_write slot good) es m (slot k) = fold (last_write (\<lambda>x. x) good) es m' k"
  using assms
proof (induction es arbitrary: m m')
  case (Cons e es)
  have "last_write slot good e m (slot k) = last_write (\<lambda>x. x) good e m' k"
    using Cons.prems by (cases e) auto
  then show ?case using Cons by simp
qed simp

lemma janitor_entry_other:
  "\<not> has_suffix n ''.cache'' \<Longrightarrow> dc_files (janitor_entry now name c) n = dc_files c n"
  by (auto simp: janitor_entry_def split: option.splits)

lemma disk_janitor_other:
  assumes "\<not> has_suffix n ''.cache''"
  shows "dc_files (disk_janitor entries now c) n = dc_files c n"
proof -
  have "dc_files (fold (janitor_entry now) entries c) n = dc_files c n"
    using assms by (induction entries arbitrary: c) (simp_all add: janitor_entry_other)
  then show ?thesis by (simp add: disk_janitor_def)
qed

lemma disk_Put_entries:
  "snd (disk_Put sha rnd f key v now c) = c' \<Longrightarrow> f \<noteq> NoFault \<Longrightarrow> n \<noteq> temp_name rnd \<Longrightarrow>
     dc_files c' n = dc_files c n"
  by (cases f) (auto simp: disk_Put_def Let_def)

subsection \<open>Properties\<close>

text \<open>
  Claim C13. The in-memory cache is an expiring map, whatever its janitor does: after any sequence
  of reads, writes, deletions and janitor ticks that happened by time \<open>t\<close>, a read at \<open>t\<close>
  returns the last value written under that key, if it was not deleted since and its expiration
  has not passed, and nothing otherwise.
\<close>

theorem mem_cache_exact:
  assumes "list_all (maint_before t) es"
  shows "mem_Get k t (fold mem_run es NewInMemoryCache) =
           timed_get (fold timed_write es (\<lambda>_. None)) k t"
proof -
  have "mem_agrees t NewInMemoryCache (\<lambda>_. None)"
    by (simp add: mem_agrees_def mem_Get_def NewInMemoryCache_def)
  from mem_agrees_run [OF this assms] show ?thesis by (simp add: mem_agrees_def del: timed_get.simps)
qed

theorem mem_cache_exact_witness:
  "mem_Get ''k'' 9 (fold mem_run [Set_ev () ''k'' [1] 5 5, Maint_ev ([''k''], 8)] NewInMemoryCache) = Some [1]
   \<and> mem_Get ''k'' 11 (fold mem_run [Set_ev () ''k'' [1] 5 5, Maint_ev ([''k''], 8)] NewInMemoryCache) = None"
  using mem_cache_exact [of 9 "[Set_ev () ''k'' [1] 5 5, Maint_ev ([''k''], 8)]" "''k''"]
    mem_cache_exact [of 11 "[Set_ev () ''k'' [1] 5 5, Maint_ev ([''k''], 8)]" "''k''"]
  by simp





text \<open>
  The background removal of an expired entry is not synchronised with writers: when a
  read finds an expired file, and a successful \<^verbatim>\<open>Put\<close> stores a fresh value before the goroutine
  runs, the goroutine deletes the fresh value, and a read right after it misses although the
  cache's expiration time has not passed.
\<close>

theorem disk_remove_race:
  assumes "dc_files c (keyPath sha key) = Some f" and "disk_expired c now f" and "dc_pending c = []"
    and "now \<le> now'"
  shows "let c1 = snd (disk_Open sha key now c);
             c2 = snd (disk_Put sha rnd NoFault key v now' c1)
         in fst (disk_Get sha key now' c2) = Some v \<and>
            fst (disk_Get sha key now' (disk_run_pending c2)) = None"
  using assms by (simp add: disk_defs disk_run_pending_def Let_def)

theorem disk_remove_race_witness:
  "let c0 = disk_state 10 [keyPath (\<lambda>b. b) ''k'' \<mapsto> \<lparr>cf_content = [1], cf_mtime = 0\<rparr>];
       c1 = snd (disk_Open (\<lambda>b. b) ''k'' 20 c0);
       c2 = snd (disk_Put (\<lambda>b. b) ''7'' NoFault ''k'' [2] 20 c1)
   in fst (disk_Get (\<lambda>b. b) ''k'' 20 c2) = Some [2] \<and>
      fst (disk_Get (\<lambda>b. b) ''k'' 20 (disk_run_pending c2)) = None"
  unfolding Let_def
  by (rule disk_remove_race [where f = "\<lparr>cf_content = [1], cf_mtime = 0\<rparr>", unfolded Let_def])
     (simp_all add: disk_state_def disk_expired_def)

end
