(* ===== verification/Http_Proxy.thy ===== *)
theory Http_Proxy
  imports Http_Model Go_Net Portal_Cache
begin

text \<open>
  pkg/proxy/proxy.go and pkg/proxy/transport.go: the forwarding proxy (request rewriting,
  credential injection, hop-by-hop headers, streaming of the response with its trailers), the
  per-host certificate cache with its double-checked locking, and the transport that caches GET
  responses.  The upstream transport, certificate issuing (RSA key, X.509) and gob encoding are
  parameters.
\<close>

subsection \<open>Rewriting the request\<close>

definition splitAndTrim :: "string \<Rightarrow> string list" where
  "splitAndTrim s = filter (\<lambda>t. t \<noteq> []) (map trim_space (split_on s '',''))"

definition hopByHopHeaders :: "string list" where
  "hopByHopHeaders =
     [''Connection'', ''Keep-Alive'', ''Proxy-Authenticate'', ''Proxy-Authorization'', ''Te'',
      ''Trailers'', ''Transfer-Encoding'', ''Upgrade'']"

definition removeHopByHopHeaders :: "header \<Rightarrow> header" where
  "removeHopByHopHeaders h =
     (let c = hdr_get h ''Connection'';
          h1 = (if c \<noteq> [] then fold hdr_del (splitAndTrim c) h else h)
      in fold hdr_del hopByHopHeaders h1)"

record HTTPProxy =
  hp_target :: URL
  hp_token :: string
  hp_authheader :: string

text \<open>
  \<^verbatim>\<open>NewHTTPProxy\<close>: the proxy and the CA it signs with, if it has one.  Reading a file, \<^verbatim>\<open>tls.X509KeyPair\<close> (the first
  certificate and the private key) and \<^verbatim>\<open>x509.ParseCertificate\<close> are the loader's; tracing is left out.
\<close>

record ('cert, 'key) ca_loader =
  cl_read :: "string \<Rightarrow> string + bytes"
  cl_pair :: "bytes \<Rightarrow> bytes \<Rightarrow> string + bytes \<times> 'key"
  cl_parse :: "bytes \<Rightarrow> string + 'cert"

datatype NewProxyError = ReadCertFailed string | ReadKeyFailed string | KeyPairFailed string | ParseCertFailed string

definition NewHTTPProxy ::
  "('cert, 'key) ca_loader \<Rightarrow> URL \<Rightarrow> string \<Rightarrow> string \<Rightarrow> string \<Rightarrow> string \<Rightarrow> NewProxyError + HTTPProxy \<times> ('cert \<times> 'key) option" where
  "NewHTTPProxy cl targetURL authToken authHeader caCertPath caKeyPath =
     (let p = \<lparr>hp_target = targetURL, hp_token = authToken, hp_authheader = authHeader\<rparr> in
      if caCertPath \<noteq> [] \<and> caKeyPath \<noteq> [] then
        and_then (fail_with ReadCertFailed (cl_read cl caCertPath)) (\<lambda>certPEM.
        and_then (fail_with ReadKeyFailed (cl_read cl caKeyPath)) (\<lambda>keyPEM.
        and_then (fail_with KeyPairFailed (cl_pair cl certPEM keyPEM)) (\<lambda>(der, key).
        and_then (fail_with ParseCertFailed (cl_parse cl der)) (\<lambda>cert. Inr (p, Some (cert, key))))))
      else Inr (p, None))"

lemma NewHTTPProxy_ok:
  assumes "NewHTTPProxy cl u tok hdr caCertPath caKeyPath = Inr (p, ca)"
  shows "p = \<lparr>hp_target = u, hp_token = tok, hp_authheader = hdr\<rparr> \<and> (ca \<noteq> None \<longleftrightarrow> caCertPath \<noteq> [] \<and> caKeyPath \<noteq> [])"
  using assms by (auto simp: NewHTTPProxy_def Let_def and_then_def fail_with_def split: if_splits sum.splits)

definition set_auth :: "HTTPProxy \<Rightarrow> header \<Rightarrow> header" where
  "set_auth p h =
     (if hp_token p \<noteq> []
      then if hp_authheader p = ''Authorization''
           then hdr_set (hp_authheader p) (''Bearer '' @ hp_token p) h
           else hdr_set (hp_authheader p) (hp_token p) h
      else h)"

definition outgoing :: "HTTPProxy \<Rightarrow> Request \<Rightarrow> Request" where
  "outgoing p r =
     r\<lparr>rq_url := (rq_url r)\<lparr>u_scheme := u_scheme (hp_target p), u_host := u_host (hp_target p)\<rparr>,
       rq_host := u_host (hp_target p),
       rq_header := hdr_del ''X-Forwarded-For'' (removeHopByHopHeaders (set_auth p (rq_header r)))\<rparr>"

subsection \<open>Relaying the response\<close>

text \<open>The copy loop; the first component says that it returned on a write error.\<close>

fun relay_body :: "bytes list \<Rightarrow> ResponseWriter \<Rightarrow> bool \<times> ResponseWriter" where
  "relay_body [] w = (False, w)"
| "relay_body (c # cs) w =
     (if c = [] then relay_body cs w
      else case rw_write c w of
             (True, w') \<Rightarrow> (True, w')
           | (False, w') \<Rightarrow> relay_body cs w')"

text \<open>\<open>ord\<close> and \<open>ordk\<close> give the orders in which the ranges over header maps visit their keys.\<close>

definition relay_response ::
  "(header \<Rightarrow> string list) \<Rightarrow> (header \<Rightarrow> string list) \<Rightarrow> Response \<Rightarrow> ResponseWriter \<Rightarrow> ResponseWriter" where
  "relay_response ord ordk resp w0 =
     (let h = removeHopByHopHeaders (rs_header resp);
          w1 = w0\<lparr>rw_header := hdr_add_all (ord h) h (rw_header w0)\<rparr>;
          w2 = (if ordk (rs_trailer resp) \<noteq> []
                then w1\<lparr>rw_header := hdr_set ''Trailer'' (join_with '','' (ordk (rs_trailer resp))) (rw_header w1)\<rparr>
                else w1);
          (aborted, w3) = relay_body (bd_chunks (rs_body resp)) (write_header (rs_status resp) w2)
      in if aborted then w3
         else w3\<lparr>rw_header := hdr_add_all (ord (rs_trailer resp)) (rs_trailer resp) (rw_header w3)\<rparr>)"

definition proxyRequest ::
  "'w transport \<Rightarrow> (header \<Rightarrow> string list) \<Rightarrow> (header \<Rightarrow> string list) \<Rightarrow> HTTPProxy \<Rightarrow> Request \<Rightarrow>
   ResponseWriter \<times> 'w \<Rightarrow> ResponseWriter \<times> 'w" where
  "proxyRequest rt ord ordk p r s =
     (let (w, world) = s in
      case rt (outgoing p r) world of
        (Inl err, world') \<Rightarrow> (write_header 502 w, world')
      | (Inr resp, world') \<Rightarrow> (relay_response ord ordk resp w, world'))"

definition ServeHTTP ::
  "'w transport \<Rightarrow> (header \<Rightarrow> string list) \<Rightarrow> (header \<Rightarrow> string list) \<Rightarrow> HTTPProxy \<Rightarrow> Request \<Rightarrow>
   ResponseWriter \<times> 'w \<Rightarrow> ResponseWriter \<times> 'w" where
  "ServeHTTP rt ord ordk p r s =
     (if rq_method r = ''CONNECT''
      then (http_error ''CONNECT not allowed'' 405 (fst s), snd s)
      else proxyRequest rt ord ordk p r s)"

subsection \<open>Certificates\<close>

record CertTemplate =
  ct_serial :: nat
  ct_CommonName :: string
  ct_NotBefore :: time
  ct_NotAfter :: time
  ct_IPAddresses :: "bytes list"
  ct_DNSNames :: "string list"

definition hour :: int where
  "hour = 3600 * 10 ^ 9"

definition cert_template :: "nat \<Rightarrow> time \<Rightarrow> string \<Rightarrow> CertTemplate" where
  "cert_template serial now host =
     \<lparr>ct_serial = serial, ct_CommonName = host, ct_NotBefore = now - hour,
      ct_NotAfter = now + hour * 24 * 365,
      ct_IPAddresses = (case parse_ip host of Some ip \<Rightarrow> [ip] | None \<Rightarrow> []),
      ct_DNSNames = (case parse_ip host of Some ip \<Rightarrow> [] | None \<Rightarrow> [host])\<rparr>"

text \<open>
  \<open>rnd\<close> is the result of drawing the serial number; \<open>issue\<close> stands for key generation, signing
  with the CA key and the PEM round trip, each of which may fail.
\<close>

definition signCert ::
  "(CertTemplate \<Rightarrow> string + 'cert) \<Rightarrow> string + nat \<Rightarrow> time \<Rightarrow> string \<Rightarrow> string + 'cert" where
  "signCert issue rnd now host =
     (case rnd of
        Inl err \<Rightarrow> Inl err
      | Inr serial \<Rightarrow> issue (cert_template serial now host))"

text \<open>The part of \<^verbatim>\<open>getCert\<close> under the write lock.\<close>

definition getCert_locked ::
  "(CertTemplate \<Rightarrow> string + 'cert) \<Rightarrow> string + nat \<Rightarrow> time \<Rightarrow> string \<Rightarrow> (string \<rightharpoonup> 'cert) \<Rightarrow>
   (string + 'cert) \<times> (string \<rightharpoonup> 'cert)" where
  "getCert_locked issue rnd now host certs =
     (case certs host of
        Some cert \<Rightarrow> (Inr cert, certs)
      | None \<Rightarrow>
          (case signCert issue rnd now host of
             Inl err \<Rightarrow> (Inl err, certs)
           | Inr cert \<Rightarrow> (Inr cert, certs(host \<mapsto> cert))))"

definition getCert ::
  "(CertTemplate \<Rightarrow> string + 'cert) \<Rightarrow> string + nat \<Rightarrow> time \<Rightarrow> string \<Rightarrow> (string \<rightharpoonup> 'cert) \<Rightarrow>
   (string + 'cert) \<times> (string \<rightharpoonup> 'cert)" where
  "getCert issue rnd now host certs =
     (case certs host of
        Some cert \<Rightarrow> (Inr cert, certs)
      | None \<Rightarrow> getCert_locked issue rnd now host certs)"

definition sni_host :: "string \<Rightarrow> string" where
  "sni_host serverName = HostWithoutPort (if serverName = [] then ''localhost'' else serverName)"

definition GetCertificate ::
  "(CertTemplate \<Rightarrow> string + 'cert) \<Rightarrow> string + nat \<Rightarrow> time \<Rightarrow> string \<Rightarrow> (string \<rightharpoonup> 'cert) \<Rightarrow>
   (string + 'cert) \<times> (string \<rightharpoonup> 'cert)" where
  "GetCertificate issue rnd now serverName certs = getCert issue rnd now (sni_host serverName) certs"

text \<open>
  Concurrent handshakes: a thread first looks under the read lock, and, if it missed, later takes
  the write lock; any other thread may run in between.
\<close>

datatype 'cert cert_pc = Start string | Missed string | Finished string "string + 'cert"

inductive cert_step ::
  "(CertTemplate \<Rightarrow> string + 'cert) \<Rightarrow> (string \<rightharpoonup> 'cert) \<times> (nat \<Rightarrow> 'cert cert_pc) \<Rightarrow>
   (string \<rightharpoonup> 'cert) \<times> (nat \<Rightarrow> 'cert cert_pc) \<Rightarrow> bool" for issue where
  read_hit: "pc t = Start host \<Longrightarrow> certs host = Some c \<Longrightarrow>
     cert_step issue (certs, pc) (certs, pc(t := Finished host (Inr c)))"
| read_miss: "pc t = Start host \<Longrightarrow> certs host = None \<Longrightarrow>
     cert_step issue (certs, pc) (certs, pc(t := Missed host))"
| locked: "pc t = Missed host \<Longrightarrow> getCert_locked issue rnd now host certs = (res, certs') \<Longrightarrow>
     cert_step issue (certs, pc) (certs', pc(t := Finished host res))"

subsection \<open>The caching transport\<close>

record CachedResponse =
  cr_StatusCode :: int
  cr_Header :: header
  cr_Body :: bytes

text \<open>
  \<open>get\<close> and \<open>put\<close> are the operations of the \<^verbatim>\<open>Cache\<close> interface, \<open>enc\<close> and \<open>dec\<close> gob encoding and
  decoding, \<open>urlstr\<close> is \<^verbatim>\<open>URL.String\<close>, and \<open>t1\<close> and \<open>t2\<close> are the times of the lookup and of the
  store.
\<close>

definition cached_response :: "CachedResponse \<Rightarrow> Response" where
  "cached_response c =
     \<lparr>rs_status = cr_StatusCode c, rs_header = cr_Header c, rs_body = body_of (cr_Body c),
      rs_trailer = (\<lambda>_. None)\<rparr>"

definition store_response ::
  "(string \<Rightarrow> bytes \<Rightarrow> int \<Rightarrow> time \<Rightarrow> 's \<Rightarrow> 's) \<Rightarrow> (CachedResponse \<Rightarrow> bytes option) \<Rightarrow> int \<Rightarrow> string \<Rightarrow>
   time \<Rightarrow> Response \<Rightarrow> 's \<Rightarrow> (string + Response) \<times> 's" where
  "store_response put enc ttl key t2 resp s =
     (case read_all (rs_body resp) of
        None \<Rightarrow> (Inl ''read error'', s)
      | Some b \<Rightarrow>
          (Inr (resp\<lparr>rs_body := body_of b\<rparr>),
           (case enc \<lparr>cr_StatusCode = rs_status resp, cr_Header = rs_header resp, cr_Body = b\<rparr> of
              Some bs \<Rightarrow> put key bs ttl t2 s
            | None \<Rightarrow> s)))"

definition CachingRoundTrip ::
  "(string \<Rightarrow> time \<Rightarrow> 's \<Rightarrow> bytes option \<times> 's) \<Rightarrow> (string \<Rightarrow> bytes \<Rightarrow> int \<Rightarrow> time \<Rightarrow> 's \<Rightarrow> 's) \<Rightarrow>
   (CachedResponse \<Rightarrow> bytes option) \<Rightarrow> (bytes \<Rightarrow> CachedResponse option) \<Rightarrow> (URL \<Rightarrow> string) \<Rightarrow>
   'w transport \<Rightarrow> int \<Rightarrow> time \<Rightarrow> time \<Rightarrow> ('s \<times> 'w) transport" where
  "CachingRoundTrip get put enc dec urlstr rt ttl t1 t2 req sw =
     (let (s, world) = sw in
      if rq_method req \<noteq> ''GET'' then
        (let (res, world') = rt req world in (res, (s, world')))
      else
        let key = urlstr (rq_url req); (hit, s1) = get key t1 s in
        case Option.bind hit dec of
          Some c \<Rightarrow> (Inr (cached_response c), (s1, world))
        | None \<Rightarrow>
            (case rt req world of
               (Inl err, world') \<Rightarrow> (Inl err, (s1, world'))
             | (Inr resp, world') \<Rightarrow>
                 (let (res, s2) = store_response put enc ttl key t2 resp s1 in (res, (s2, world')))))"

subsection \<open>Which headers pass\<close>

definition dropped_names :: "header \<Rightarrow> string set" where
  "dropped_names h = canonical_key ` (set (splitAndTrim (hdr_get h ''Connection'')) \<union> set hopByHopHeaders)"

lemma splitAndTrim_Nil [simp]: "splitAndTrim [] = []"
  by (simp add: splitAndTrim_def trim_space_def trim_right_if_def)

lemma hdr_values_removeHopByHop [http_hdr]:
  "hdr_values (removeHopByHopHeaders h) k = (if canonical_key k \<in> dropped_names h then [] else hdr_values h k)"
  by (auto simp: removeHopByHopHeaders_def Let_def hdr_values_fold_del dropped_names_def)

lemma removeHopByHop_apply:
  "removeHopByHopHeaders h k = (if k \<in> dropped_names h then None else h k)"
  by (auto simp: removeHopByHopHeaders_def Let_def hdr_fold_del_apply dropped_names_def)

lemma canonical_removeHopByHop:
  "canonical_header h \<Longrightarrow> canonical_header (removeHopByHopHeaders h)"
  by (auto simp: canonical_header_def dom_def removeHopByHop_apply)

definition credential :: "HTTPProxy \<Rightarrow> string" where
  "credential p = (if hp_authheader p = ''Authorization'' then ''Bearer '' @ hp_token p else hp_token p)"

lemma hdr_values_set_auth [http_hdr]:
  "hdr_values (set_auth p h) k =
     (if hp_token p \<noteq> [] \<and> canonical_key (hp_authheader p) = canonical_key k
      then [credential p] else hdr_values h k)"
  by (simp add: set_auth_def hdr_values_set credential_def)

subsection \<open>What the client receives\<close>

definition delivered :: "nat option \<Rightarrow> bytes list \<Rightarrow> bytes" where
  "delivered left cs =
     (case left of
        None \<Rightarrow> concat cs
      | Some n \<Rightarrow> concat (take n (filter (\<lambda>c. c \<noteq> []) cs)))"

definition cut_short :: "nat option \<Rightarrow> bytes list \<Rightarrow> bool" where
  "cut_short left cs = (case left of None \<Rightarrow> False | Some n \<Rightarrow> n < length (filter (\<lambda>c. c \<noteq> []) cs))"

lemma same_left: "\<exists>left'. w = w\<lparr>rw_left := left'\<rparr>"
  by (intro exI [of _ "rw_left w"]) simp

lemma relay_body_spec:
  assumes "rw_status w = Some st"
  shows "\<exists>left'. relay_body cs w =
           (cut_short (rw_left w) cs, w\<lparr>rw_body := rw_body w @ delivered (rw_left w) cs, rw_left := left'\<rparr>)"
  using assms
proof (induction cs w rule: relay_body.induct)
  case (1 w)
  show ?case by (auto simp: cut_short_def delivered_def same_left split: option.splits)
next
  case (2 c cs w)
  show ?case
  proof (cases "c = []")
    case True
    with 2(1) [OF True 2(3)] show ?thesis
      by (auto simp: cut_short_def delivered_def split: option.splits)
  next
    case ne: False
    show ?thesis
    proof (cases "rw_left w")
      case None
      have wr: "rw_write c w = (False, w\<lparr>rw_body := rw_body w @ c\<rparr>)"
        using None 2(3) by (simp add: rw_write_def)
      from 2(2) [OF ne, of False "w\<lparr>rw_body := rw_body w @ c\<rparr>"] wr 2(3) None ne
      show ?thesis by (auto simp: cut_short_def delivered_def)
    next
      case (Some n)
      show ?thesis
      proof (cases n)
        case 0
        then show ?thesis using Some ne 2(3)
          by (auto simp: rw_write_def cut_short_def delivered_def same_left)
      next
        case (Suc m)
        let ?w = "w\<lparr>rw_body := rw_body w @ c, rw_left := Some m\<rparr>"
        have wr: "rw_write c w = (False, ?w)"
          using Some Suc 2(3) by (simp add: rw_write_def)
        from 2(2) [OF ne, of False ?w] wr 2(3) Some Suc ne
        show ?thesis by (auto simp: cut_short_def delivered_def)
      qed
    qed
  qed
qed

subsection \<open>Concurrent certificate requests\<close>

definition cert_inv ::
  "(CertTemplate \<Rightarrow> string + 'cert) \<Rightarrow> (string \<rightharpoonup> 'cert) \<times> (nat \<Rightarrow> 'cert cert_pc) \<Rightarrow> bool" where
  "cert_inv issue s \<longleftrightarrow>
     (\<forall>t h c. snd s t = Finished h (Inr c) \<longrightarrow> fst s h = Some c) \<and>
     (\<forall>h c. fst s h = Some c \<longrightarrow> (\<exists>serial now. issue (cert_template serial now h) = Inr c))"

lemma getCert_locked_cases:
  assumes "getCert_locked issue rnd now host certs = (res, certs')"
  obtains c where "certs host = Some c" and "res = Inr c" and "certs' = certs"
  | err where "certs host = None" and "res = Inl err" and "certs' = certs"
  | serial c where "certs host = None" and "issue (cert_template serial now host) = Inr c"
      and "res = Inr c" and "certs' = certs(host \<mapsto> c)"
  using assms
  by (auto simp: getCert_locked_def signCert_def split: option.splits sum.splits)

lemma cert_step_inv: "cert_step issue s s' \<Longrightarrow> cert_inv issue s \<Longrightarrow> cert_inv issue s'"
proof (induction rule: cert_step.induct)
  case (locked pc t host rnd now certs res certs')
  from locked(2) show ?case
  proof (cases rule: getCert_locked_cases)
    case (3 serial c)
    then show ?thesis using locked(3) unfolding cert_inv_def
      by (auto split: if_splits)
  qed (use locked(3) in \<open>auto simp: cert_inv_def split: if_splits\<close>)
qed (auto simp: cert_inv_def split: if_splits)

lemma cert_reach_inv:
  assumes "(cert_step issue)\<^sup>*\<^sup>* s s'" and "cert_inv issue s"
  shows "cert_inv issue s'"
  using assms by (induction rule: rtranclp_induct) (auto intro: cert_step_inv)

subsection \<open>The caching transport over any cache\<close>

context cache_store
begin

lemma caching_hit:
  assumes "good x" and "serves ttl s" and "rq_method req = ''GET''" and "rq_method req' = ''GET''"
    and miss: "Option.bind (fst (get (urlstr (rq_url req)) t1 s)) dec = None"
    and up: "rt req world = (Inr resp, world')"
    and body: "read_all (rs_body resp) = Some b"
    and enc: "enc \<lparr>cr_StatusCode = rs_status resp, cr_Header = rs_header resp, cr_Body = b\<rparr> = Some bs"
    and dec: "dec bs = Some \<lparr>cr_StatusCode = rs_status resp, cr_Header = rs_header resp, cr_Body = b\<rparr>"
    and url: "urlstr (rq_url req') = urlstr (rq_url req)" and "t2 \<le> t3" and "t3 \<le> t2 + ttl"
  shows "\<exists>s1 s2.
      CachingRoundTrip get (put x) enc dec urlstr rt ttl t1 t2 req (s, world) =
        (Inr (resp\<lparr>rs_body := body_of b\<rparr>), (s1, world')) \<and>
      CachingRoundTrip get (put x) enc dec urlstr rt ttl t3 t4 req' (s1, world'') =
        (Inr (resp\<lparr>rs_body := body_of b, rs_trailer := (\<lambda>_. None)\<rparr>), (s2, world''))"
proof -
  obtain hit s0 where g: "get (urlstr (rq_url req)) t1 s = (hit, s0)" by fastforce
  have "serves ttl s0" using serves_get [of ttl "urlstr (rq_url req)" t1 s] g assms(2) by simp
  then have hit: "fst (get (urlstr (rq_url req)) t3 (put x (urlstr (rq_url req)) bs ttl t2 s0)) = Some bs"
    using get_set assms(1,11,12) by blast
  obtain s2 where g3: "get (urlstr (rq_url req)) t3 (put x (urlstr (rq_url req)) bs ttl t2 s0) = (Some bs, s2)"
    using hit by (metis prod.collapse)
  have "CachingRoundTrip get (put x) enc dec urlstr rt ttl t1 t2 req (s, world) =
        (Inr (resp\<lparr>rs_body := body_of b\<rparr>), (put x (urlstr (rq_url req)) bs ttl t2 s0, world'))"
    using assms(3) miss g up body enc by (simp add: CachingRoundTrip_def store_response_def)
  moreover have "CachingRoundTrip get (put x) enc dec urlstr rt ttl t3 t4 req'
        (put x (urlstr (rq_url req)) bs ttl t2 s0, world'') =
        (Inr (resp\<lparr>rs_body := body_of b, rs_trailer := (\<lambda>_. None)\<rparr>), (s2, world''))"
    using assms(4) url g3 dec by (simp add: CachingRoundTrip_def cached_response_def)
  ultimately show ?thesis by blast
qed

end

subsection \<open>Properties\<close>

text \<open>
  Claim C10. The proxy talks to its target only: a CONNECT request is answered with 405 and nothing
  is sent upstream; every other request leads to exactly one upstream request, which goes to the
  scheme and host of the configured target whatever the client's URL and Host header say, keeps
  method, path, query and body, and carries no X-Forwarded-For and no hop-by-hop header.
\<close>

theorem proxy_egress:
  assumes "rw_status w = None" and "ServeHTTP rt ord ordk p r (w, world) = (w', world')"
  shows "(rq_method r = ''CONNECT'' \<longrightarrow> world' = world \<and> rw_status w' = Some 405) \<and>
         (rq_method r \<noteq> ''CONNECT'' \<longrightarrow>
            (\<exists>out. world' = snd (rt out world) \<and>
               u_scheme (rq_url out) = u_scheme (hp_target p) \<and> u_host (rq_url out) = u_host (hp_target p) \<and>
               rq_host out = u_host (hp_target p) \<and> rq_method out = rq_method r \<and>
               u_path (rq_url out) = u_path (rq_url r) \<and> u_rawquery (rq_url out) = u_rawquery (rq_url r) \<and>
               rq_body out = rq_body r \<and> hdr_values (rq_header out) ''X-Forwarded-For'' = [] \<and>
               (\<forall>k\<in>set hopByHopHeaders. hdr_values (rq_header out) k = [])))"
proof (cases "rq_method r = ''CONNECT''")
  case True
  then show ?thesis using assms by (auto simp: ServeHTTP_def)
next
  case False
  then have w: "world' = snd (rt (outgoing p r) world)"
    using assms(2) by (auto simp: ServeHTTP_def proxyRequest_def split: prod.splits sum.splits)
  have "\<forall>k\<in>set hopByHopHeaders. hdr_values (rq_header (outgoing p r)) k = []"
    by (auto simp: outgoing_def http_hdr dropped_names_def)
  with False w show ?thesis
    by (intro conjI impI exI [of _ "outgoing p r"]) (auto simp: outgoing_def http_hdr)
qed

theorem proxy_egress_witness:
  "rw_status (fst (ServeHTTP (\<lambda>q ws. (Inl ''refused'', q # ws)) (\<lambda>_. []) (\<lambda>_. [])
      \<lparr>hp_target = \<lparr>u_scheme = ''https'', u_host = ''api.github.com'', u_path = [], u_rawpath = [], u_rawquery = []\<rparr>,
       hp_token = ''t'', hp_authheader = ''Authorization''\<rparr>
      \<lparr>rq_method = ''CONNECT'',
       rq_url = \<lparr>u_scheme = [], u_host = ''evil:443'', u_path = [], u_rawpath = [], u_rawquery = []\<rparr>,
       rq_host = ''evil:443'', rq_header = (\<lambda>_. None), rq_body = [], rq_remote = ''10.0.0.9:4000''\<rparr>
      (new_writer None, []))) = Some 405"
proof -
  let ?r = "\<lparr>rq_method = ''CONNECT'',
       rq_url = \<lparr>u_scheme = [], u_host = ''evil:443'', u_path = [], u_rawpath = [], u_rawquery = []\<rparr>,
       rq_host = ''evil:443'', rq_header = (\<lambda>_. None), rq_body = [], rq_remote = ''10.0.0.9:4000''\<rparr>"
  let ?p = "\<lparr>hp_target = \<lparr>u_scheme = ''https'', u_host = ''api.github.com'', u_path = [], u_rawpath = [], u_rawquery = []\<rparr>,
       hp_token = ''t'', hp_authheader = ''Authorization''\<rparr>"
  let ?s = "ServeHTTP (\<lambda>q ws. (Inl ''refused'', q # ws)) (\<lambda>_. []) (\<lambda>_. []) ?p ?r (new_writer None, [])"
  show ?thesis
    using proxy_egress [of "new_writer None" "\<lambda>q ws. (Inl ''refused'', q # ws)" "\<lambda>_. []" "\<lambda>_. []" ?p ?r "[]"
        "fst ?s" "snd ?s"]
    by (simp add: new_writer_def)
qed


text \<open>
  Claim C11. The answer is relayed faithfully: for a client that has received nothing yet, the
  status is the upstream status, every header that is not hop-by-hop arrives with all its values
  (plus the announcement of the trailers), the body is the concatenation of what the upstream
  sent, or, when the client goes away, a prefix of whole chunks, and unless the client went away
  the trailers follow.  The order in which Go visits the header maps does not matter.  Nothing
  here depends on whether the upstream body ended properly or failed half-way.
\<close>

theorem relay_faithful:
  assumes "rw_status w = None" and "rw_header w = (\<lambda>_. None)"
    and "canonical_header (rs_header resp)" and "canonical_header (rs_trailer resp)"
    and "iterates (ord (removeHopByHopHeaders (rs_header resp))) (removeHopByHopHeaders (rs_header resp))"
    and "iterates (ord (rs_trailer resp)) (rs_trailer resp)" and "ordk (rs_trailer resp) = ks"
    and "relay_response ord ordk resp w = w'"
  shows "rw_status w' = Some (rs_status resp) \<and>
         rw_body w' = rw_body w @ delivered (rw_left w) (bd_chunks (rs_body resp)) \<and>
         hdr_values (rw_sent w') k =
           (if ks \<noteq> [] \<and> canonical_key k = ''Trailer'' then [join_with '','' ks]
            else if canonical_key k \<in> dropped_names (rs_header resp) then [] else hdr_values (rs_header resp) k) \<and>
         (\<not> cut_short (rw_left w) (bd_chunks (rs_body resp)) \<longrightarrow>
            hdr_values (rw_header w') k = hdr_values (rw_sent w') k @ hdr_values (rs_trailer resp) k)"
proof -
  let ?h = "removeHopByHopHeaders (rs_header resp)"
  let ?h1 = "hdr_add_all (ord ?h) ?h (rw_header w)"
  let ?h2 = "if ks \<noteq> [] then hdr_set ''Trailer'' (join_with '','' ks) ?h1 else ?h1"
  let ?w2 = "write_header (rs_status resp) (w\<lparr>rw_header := ?h2\<rparr>)"
  have t: "canonical_key ''Trailer'' = ''Trailer''" by code_simp
  have w2: "rw_status ?w2 = Some (rs_status resp)" "rw_sent ?w2 = ?h2" "rw_header ?w2 = ?h2"
    "rw_left ?w2 = rw_left w" "rw_body ?w2 = rw_body w"
    using assms(1) by (simp_all add: write_header_def)
  from relay_body_spec [OF w2(1), of "bd_chunks (rs_body resp)"] obtain left' where
    rb: "relay_body (bd_chunks (rs_body resp)) ?w2 =
       (cut_short (rw_left w) (bd_chunks (rs_body resp)),
        ?w2\<lparr>rw_body := rw_body w @ delivered (rw_left w) (bd_chunks (rs_body resp)), rw_left := left'\<rparr>)"
    using w2(4,5) by auto
  have h1: "hdr_values ?h1 k = hdr_values ?h k"
    using assms(2,3,5) by (simp add: iterates_def hdr_values_add_all canonical_removeHopByHop)
       (simp add: hdr_values_def)
  have h2: "hdr_values ?h2 k =
       (if ks \<noteq> [] \<and> canonical_key k = ''Trailer'' then [join_with '','' ks]
        else if canonical_key k \<in> dropped_names (rs_header resp) then [] else hdr_values (rs_header resp) k)"
    using h1 t by (auto simp: http_hdr)
  have tr: "hdr_values (hdr_add_all (ord (rs_trailer resp)) (rs_trailer resp) h) k =
       hdr_values h k @ hdr_values (rs_trailer resp) k" for h
    using assms(4,6) by (simp add: iterates_def hdr_values_add_all)
  have "w' = (case relay_body (bd_chunks (rs_body resp)) ?w2 of (a, w3) \<Rightarrow>
      if a then w3 else w3\<lparr>rw_header := hdr_add_all (ord (rs_trailer resp)) (rs_trailer resp) (rw_header w3)\<rparr>)"
    using assms(7,8) by (auto simp: relay_response_def Let_def)
  then show ?thesis using rb w2 h2 tr by auto
qed

text \<open>
  Claim C12. Concurrent handshakes agree: starting from an empty certificate cache, in every
  interleaving of handshakes through the read-lock check and the write-lock path, all handshakes
  for one host that get a certificate get the same one, it is the cached one, and it was issued
  for a template that names this host.
\<close>

theorem cert_unique:
  assumes "(cert_step issue)\<^sup>*\<^sup>* ((\<lambda>_. None), (\<lambda>t. Start (hosts t))) (certs, pc)"
    and "pc t1 = Finished h (Inr c1)" and "pc t2 = Finished h (Inr c2)"
  shows "c1 = c2 \<and> certs h = Some c1 \<and> (\<exists>serial now. issue (cert_template serial now h) = Inr c1)"
proof -
  have "cert_inv issue ((\<lambda>_. None), (\<lambda>t. Start (hosts t)))" by (simp add: cert_inv_def)
  from cert_reach_inv [OF assms(1) this]
  have inv: "\<And>t h c. pc t = Finished h (Inr c) \<Longrightarrow> certs h = Some c"
    "\<And>h c. certs h = Some c \<Longrightarrow> \<exists>serial now. issue (cert_template serial now h) = Inr c"
    by (auto simp: cert_inv_def)
  from inv(1) [OF assms(2)] inv(1) [OF assms(3)] inv(2) show ?thesis by auto
qed

theorem cert_unique_witness:
  "\<exists>certs pc c1 c2.
     (cert_step (\<lambda>t. Inr (ct_serial t)))\<^sup>*\<^sup>* ((\<lambda>_. None), (\<lambda>t. Start ''h'')) (certs, pc) \<and>
     pc 0 = Finished ''h'' (Inr c1) \<and> pc 1 = Finished ''h'' (Inr c2) \<and> c1 = c2 \<and> certs ''h'' = Some c1"
proof -
  let ?i = "\<lambda>t :: CertTemplate. Inr (ct_serial t) :: string + nat"
  let ?p0 = "\<lambda>t :: nat. Start ''h'' :: nat cert_pc"
  let ?p1 = "?p0(0 := Missed ''h'')"
  let ?p2 = "?p1(1 := Missed ''h'')"
  let ?p3 = "?p2(0 := Finished ''h'' (Inr 7))"
  let ?p4 = "?p3(1 := Finished ''h'' (Inr 7))"
  let ?c = "[''h'' \<mapsto> 7] :: string \<rightharpoonup> nat"
  have "cert_step ?i ((\<lambda>_. None), ?p0) ((\<lambda>_. None), ?p1)" by (rule read_miss) simp_all
  moreover have "cert_step ?i ((\<lambda>_. None), ?p1) ((\<lambda>_. None), ?p2)" by (rule read_miss) simp_all
  moreover have "cert_step ?i ((\<lambda>_. None), ?p2) (?c, ?p3)"
    by (rule locked [where rnd = "Inr 7" and now = 0])
       (simp_all add: getCert_locked_def signCert_def cert_template_def)
  moreover have "cert_step ?i (?c, ?p3) (?c, ?p4)"
    by (rule locked [where rnd = "Inr 8" and now = 1]) (simp_all add: getCert_locked_def)
  ultimately have r: "(cert_step ?i)\<^sup>*\<^sup>* ((\<lambda>_. None), (\<lambda>t. Start ((\<lambda>_. ''h'') t))) (?c, ?p4)"
    by (meson converse_rtranclp_into_rtranclp rtranclp.rtrancl_refl)
  from cert_unique [OF r, of 0 "''h''" 7 1 7] have "?c ''h'' = Some 7" by simp
  with r show ?thesis by (intro exI [of _ ?c] exI [of _ ?p4] exI [of _ 7]) simp
qed

text \<open>
  A cached certificate is never renewed: once a host's certificate was issued at time
  \<open>t0\<close>, every later request for that host gets that certificate, also after the end of the
  validity period of one year that its template states.
\<close>

theorem cert_outlives_validity:
  assumes "certs h = None" and "issue (cert_template serial t0 h) = Inr c"
    and "t0 + hour * 24 * 365 < now"
  shows "ct_NotAfter (cert_template serial t0 h) < now \<and>
         fst (getCert issue rnd now h (snd (getCert issue (Inr serial) t0 h certs))) = Inr c"
  using assms by (simp add: getCert_def getCert_locked_def signCert_def) (simp add: cert_template_def)

theorem cert_outlives_validity_witness:
  "ct_NotAfter (cert_template 7 0 ''h'') < 10 ^ 18 \<and>
   fst (getCert (\<lambda>t. Inr (ct_serial t)) (Inr 8) (10 ^ 18) ''h''
          (snd (getCert (\<lambda>t. Inr (ct_serial t)) (Inr 7) 0 ''h'' (\<lambda>_. None)))) = Inr 7"
  by (rule cert_outlives_validity) (simp_all add: hour_def cert_template_def)

text \<open>
  The caching transport over the in-memory cache: after a GET was answered by the
  upstream and stored at time \<open>t2\<close>, every GET of the same URL within the time to live is
  answered with the same status, headers and body and without contacting the upstream, whatever
  headers, credentials included, the second request carries.  That gob decodes what it encoded
  is the assumption on \<open>enc\<close> and \<open>dec\<close>.
\<close>

theorem cached_get_skips_upstream:
  assumes "rq_method req = ''GET''" and "rq_method req' = ''GET''"
    and "urlstr (rq_url req') = urlstr (rq_url req)"
    and "mem_Get (urlstr (rq_url req)) t1 c = None"
    and "rt req world = (Inr resp, world')" and "read_all (rs_body resp) = Some b"
    and "enc \<lparr>cr_StatusCode = rs_status resp, cr_Header = rs_header resp, cr_Body = b\<rparr> = Some bs"
    and "dec bs = Some \<lparr>cr_StatusCode = rs_status resp, cr_Header = rs_header resp, cr_Body = b\<rparr>"
    and "t2 \<le> t3" and "t3 \<le> t2 + ttl"
  shows "\<exists>c1.
      CachingRoundTrip mem_get_op mem_Set enc dec urlstr rt ttl t1 t2 req (c, world) =
        (Inr (resp\<lparr>rs_body := body_of b\<rparr>), (c1, world')) \<and>
      (\<exists>c2. CachingRoundTrip mem_get_op mem_Set enc dec urlstr rt ttl t3 t4 req' (c1, world'') =
        (Inr (resp\<lparr>rs_body := body_of b, rs_trailer := (\<lambda>_. None)\<rparr>), (c2, world'')))"
proof -
  have miss: "Option.bind (fst (mem_get_op (urlstr (rq_url req)) t1 c)) dec = None"
    using assms(4) by simp
  show ?thesis
    using mem.caching_hit [where req = req and req' = req' and urlstr = urlstr and s = c and dec = dec
        and enc = enc and bs = bs and resp = resp and b = b and rt = rt and world = world and world' = world'
        and world'' = world'' and ?t1.0 = t1 and ?t2.0 = t2 and ?t3.0 = t3 and ?t4.0 = t4 and ttl = ttl,
        OF TrueI TrueI assms(1,2) miss assms(5-8) assms(3) assms(9,10)]
    by blast
qed

theorem cached_get_skips_upstream_witness:
  "\<exists>c1 c2.
      CachingRoundTrip mem_get_op mem_Set (\<lambda>v. Some (cr_Body v))
          (\<lambda>bs. Some \<lparr>cr_StatusCode = 200, cr_Header = (\<lambda>_. None), cr_Body = bs\<rparr>) u_path
          (\<lambda>q n. (Inr \<lparr>rs_status = 200, rs_header = (\<lambda>_. None),
                       rs_body = \<lparr>bd_chunks = [[1], [2]], bd_complete = True\<rparr>, rs_trailer = (\<lambda>_. None)\<rparr>, Suc n))
          60 3 4 \<lparr>rq_method = ''GET'', rq_url = \<lparr>u_scheme = [], u_host = [], u_path = ''/a'', u_rawpath = [], u_rawquery = []\<rparr>,
                   rq_host = [], rq_header = [''Authorization'' \<mapsto> [''A'']], rq_body = [], rq_remote = []\<rparr>
          (NewInMemoryCache, 0)
        = (Inr \<lparr>rs_status = 200, rs_header = (\<lambda>_. None), rs_body = body_of [1, 2], rs_trailer = (\<lambda>_. None)\<rparr>, (c1, 1)) \<and>
      CachingRoundTrip mem_get_op mem_Set (\<lambda>v. Some (cr_Body v))
          (\<lambda>bs. Some \<lparr>cr_StatusCode = 200, cr_Header = (\<lambda>_. None), cr_Body = bs\<rparr>) u_path
          (\<lambda>q n. (Inr \<lparr>rs_status = 200, rs_header = (\<lambda>_. None),
                       rs_body = \<lparr>bd_chunks = [[1], [2]], bd_complete = True\<rparr>, rs_trailer = (\<lambda>_. None)\<rparr>, Suc n))
          60 50 51 \<lparr>rq_method = ''GET'', rq_url = \<lparr>u_scheme = [], u_host = [], u_path = ''/a'', u_rawpath = [], u_rawquery = []\<rparr>,
                   rq_host = [], rq_header = [''Authorization'' \<mapsto> [''B'']], rq_body = [], rq_remote = []\<rparr>
          (c1, 1)
        = (Inr \<lparr>rs_status = 200, rs_header = (\<lambda>_. None), rs_body = body_of [1, 2], rs_trailer = (\<lambda>_. None)\<rparr>, (c2, 1))"
  (is "\<exists>c1 c2. CachingRoundTrip _ _ ?enc ?dec _ ?rt _ _ _ ?req _ = _ \<and> CachingRoundTrip _ _ _ _ _ _ _ _ _ ?req' _ = _")
proof -
  have rd: "read_all \<lparr>bd_chunks = [[1], [2]], bd_complete = True\<rparr> = Some [1, 2]" by (simp add: read_all_def)
  have m: "mem_Get ''/a'' 3 NewInMemoryCache = None" by (simp add: mem_Get_def NewInMemoryCache_def)
  show ?thesis
    using cached_get_skips_upstream [of ?req ?req' u_path 3 NewInMemoryCache ?rt 0
        "\<lparr>rs_status = 200, rs_header = (\<lambda>_. None), rs_body = \<lparr>bd_chunks = [[1], [2]], bd_complete = True\<rparr>, rs_trailer = (\<lambda>_. None)\<rparr>"
        1 "[1, 2]" ?enc "[1, 2]" ?dec 4 50 60 51 1] rd m
    by auto
qed


theorem relay_faithful_witness:
  "rw_body (relay_response (\<lambda>h. if h ''Etag'' = None then [] else [''Etag'']) (\<lambda>_. [])
      \<lparr>rs_status = 206, rs_header = [''Etag'' \<mapsto> [''x'']], rs_body = \<lparr>bd_chunks = [[1], [], [2]], bd_complete = False\<rparr>,
       rs_trailer = (\<lambda>_. None)\<rparr> (new_writer (Some 1))) = [1]"
  (is "rw_body (relay_response ?o ?k ?resp ?w) = _")
proof -
  have d: "''Etag'' \<notin> dropped_names [''Etag'' \<mapsto> [''x'']]" by code_simp
  have h: "removeHopByHopHeaders [''Etag'' \<mapsto> [''x'']] = [''Etag'' \<mapsto> [''x'']]"
    by (rule ext) (use d in \<open>auto simp: removeHopByHop_apply\<close>)
  have c: "canonical_key ''Etag'' = ''Etag''" by code_simp
  show ?thesis
    using relay_faithful [of ?w ?resp ?o ?k "[]" "relay_response ?o ?k ?resp ?w" "''Etag''"]
    by (simp add: new_writer_def h c iterates_def canonical_header_def delivered_def)
qed

end
