(* ===== verification/Git_Server.thy ===== *)
theory Git_Server
  imports Git_Repo Git_Target Http_Proxy
begin

text \<open>
  pkg/gitproxy/server.go: the handler of the Git proxy.  A fetch whose commits are all known is
  answered from the repository store; other cacheable requests are looked up in the response cache;
  what is left goes upstream, a fetch with the known commits as further haves, and its pack is ingested.
  The environment of the handler (URL parsing and printing, digests, zlib, gob, the cache, the
  transport, the orders of map ranges and the clock) is a record of parameters.  The configuration
  steps of \<^verbatim>\<open>Run\<close> and of cmd/gitproxy-server are modelled at the end.
\<close>

subsection \<open>Configuration and state\<close>

record GitConfig =
  gc_DefaultTargetURL :: string
  gc_DefaultAuthHeader :: string
  gc_DefaultAuthToken :: string
  gc_HasCache :: bool
  gc_CacheTTL :: int
  gc_RepoCacheDir :: string
  gc_RepoCacheManager :: "RepoCacheManager option"

type_synonym GitCachedResponse = CachedResponse

record ('s, 'w) git_env =
  ge_parse_url :: "string \<Rightarrow> string + URL"
  ge_urlstr :: "URL \<Rightarrow> string"
  ge_sha1 :: "bytes \<Rightarrow> bytes"
  ge_sha256 :: "bytes \<Rightarrow> bytes"
  ge_inflate :: inflater
  ge_deflate :: "bytes \<Rightarrow> bytes"
  ge_get :: "string \<Rightarrow> time \<Rightarrow> 's \<Rightarrow> bytes option \<times> 's"
  ge_put :: "string \<Rightarrow> bytes \<Rightarrow> int \<Rightarrow> time \<Rightarrow> 's \<Rightarrow> 's"
  ge_enc :: "GitCachedResponse \<Rightarrow> bytes option"
  ge_dec :: "bytes \<Rightarrow> GitCachedResponse option"
  ge_rt :: "'w transport"
  ge_ord :: "header \<Rightarrow> string list"
  ge_commits :: commit_order
  ge_perm :: "string list \<Rightarrow> string list"
  ge_t1 :: time
  ge_t2 :: time

record ('s, 'w) git_state =
  gt_repos :: RepoCacheManager
  gt_cache :: 's
  gt_world :: 'w

text \<open>
  How the handler ends: with an answer, with a run-time panic (which the HTTP server recovers from by
  dropping the connection), or not at all.
\<close>

datatype ('s, 'w) git_outcome =
    Done ResponseWriter "('s, 'w) git_state"
  | Aborted "('s, 'w) git_state"
  | Stuck

definition Git_NewServer :: "(string \<Rightarrow> string) \<Rightarrow> GitConfig \<Rightarrow> GitConfig \<times> RepoCacheManager" where
  "Git_NewServer getenv config =
     (let config' = (if gc_DefaultAuthHeader config = [] then config\<lparr>gc_DefaultAuthHeader := ''Authorization''\<rparr> else config)
      in (config',
          case gc_RepoCacheManager config of
            Some m \<Rightarrow> m
          | None \<Rightarrow> NewRepoCacheManager
              (if gc_RepoCacheDir config = [] then getenv ''CACHE_DIR'' else gc_RepoCacheDir config)))"

subsection \<open>Headers\<close>

definition git_splitAndTrim :: "string \<Rightarrow> string list" where
  "git_splitAndTrim s = filter (\<lambda>t. t \<noteq> []) (map trim_space (split_on s '',''))"

definition git_hopByHopHeaders :: "string list" where
  "git_hopByHopHeaders =
     [''Connection'', ''Keep-Alive'', ''Proxy-Authenticate'', ''Proxy-Authorization'', ''Te'',
      ''Trailers'', ''Transfer-Encoding'', ''Upgrade'']"

definition git_removeHopByHopHeaders :: "header \<Rightarrow> header" where
  "git_removeHopByHopHeaders h =
     (let c = hdr_get h ''Connection'';
          h1 = (if c \<noteq> [] then fold hdr_del (git_splitAndTrim c) h else h)
      in fold hdr_del git_hopByHopHeaders h1)"

definition inject_auth :: "GitConfig \<Rightarrow> header \<Rightarrow> header" where
  "inject_auth cfg h =
     (if gc_DefaultAuthToken cfg \<noteq> [] \<and> hdr_get h ''Authorization'' = []
      then if gc_DefaultAuthHeader cfg = ''Authorization''
           then hdr_set ''Authorization'' (''Bearer '' @ gc_DefaultAuthToken cfg) h
           else hdr_set (gc_DefaultAuthHeader cfg) (gc_DefaultAuthToken cfg) h
      else h)"

subsection \<open>Answers from the repository store\<close>

definition repo_store :: "('s, 'w) git_env \<Rightarrow> URL \<Rightarrow> ('s, 'w) git_state \<Rightarrow> RepoStore \<times> ('s, 'w) git_state" where
  "repo_store env target st =
     (let (store, m) = GetRepoStore (ge_sha256 env) (u_path target) (gt_repos st) in (store, st\<lparr>gt_repos := m\<rparr>))"

definition put_store :: "URL \<Rightarrow> RepoStore \<Rightarrow> ('s, 'w) git_state \<Rightarrow> ('s, 'w) git_state" where
  "put_store target store st =
     st\<lparr>gt_repos := (gt_repos st)\<lparr>cm_stores := (cm_stores (gt_repos st))(u_path target \<mapsto> store)\<rparr>\<rparr>"

text \<open>The pack for a parsed request; \<^term>\<open>Some None\<close> if there is none, \<^term>\<open>None\<close> if the search does not end.\<close>

definition store_answer :: "('s, 'w) git_env \<Rightarrow> RepoStore \<Rightarrow> FetchRequest \<Rightarrow> bytes option option" where
  "store_answer env store fr =
     (if fr_Wants fr \<noteq> [] \<and> HasAllCommits store (fr_Wants fr)
      then (case CollectObjectsForCommits (ge_perm env) store (fr_Wants fr) (fr_Haves fr) of
              None \<Rightarrow> None
            | Some (objects, acks) \<Rightarrow>
                Some (if objects \<noteq> []
                      then Some (FormatSidebandPackfile (BuildPackfile (ge_sha1 env) (ge_deflate env) objects)
                                   (fr_IsV2 fr) acks (fr_Haves fr \<noteq> []))
                      else None))
      else Some None)"

definition buildFetchFromStore :: "('s, 'w) git_env \<Rightarrow> RepoStore \<Rightarrow> bytes \<Rightarrow> (string + bytes) option" where
  "buildFetchFromStore env store reqBody =
     (case ParseFetchRequest reqBody of
        Inl err \<Rightarrow> Some (Inl ''parsing fetch request'')
      | Inr fr \<Rightarrow>
          if fr_Wants fr = [] then Some (Inl ''no wants in fetch request'')
          else if \<not> HasAllCommits store (fr_Wants fr) then Some (Inl ''repo store missing wanted commits'')
          else map_option (\<lambda>a. case a of None \<Rightarrow> Inl ''no objects collected for commits'' | Some b \<Rightarrow> Inr b)
                 (store_answer env store fr))"

definition lookup_store ::
  "('s, 'w) git_env \<Rightarrow> URL \<Rightarrow> bytes \<Rightarrow> ('s, 'w) git_state \<Rightarrow> bytes option option \<times> ('s, 'w) git_state" where
  "lookup_store env target reqBody st =
     (let (store, st1) = repo_store env target st
      in (case ParseFetchRequest reqBody of Inl err \<Rightarrow> Some None | Inr fr \<Rightarrow> store_answer env store fr, st1))"

definition write_hit :: "bytes \<Rightarrow> ResponseWriter \<Rightarrow> ResponseWriter" where
  "write_hit respBytes w =
     (let h = hdr_del ''Content-Length'' (hdr_set ''Cache-Control'' ''no-cache'' (hdr_set ''X-Git-Cache'' ''HIT''
                (hdr_set ''Content-Type'' ''application/x-git-upload-pack-result'' (rw_header w))))
      in snd (rw_write respBytes (write_header 200 (w\<lparr>rw_header := h\<rparr>))))"

subsection \<open>The response cache\<close>

definition computeCacheKey :: "('s, 'w) git_env \<Rightarrow> Request \<Rightarrow> URL \<Rightarrow> bytes \<Rightarrow> string" where
  "computeCacheKey env r target body =
     (let proto = hdr_get (rq_header r) ''Git-Protocol'' in
      if rq_method r = ''GET'' then ''git:get:'' @ ge_urlstr env target @ '':'' @ proto
      else ''git:post:'' @ ge_urlstr env target @ '':'' @ proto @ '':'' @ hex_encode (ge_sha256 env body))"

definition is_cacheable :: "GitConfig \<Rightarrow> RequestType \<Rightarrow> bool" where
  "is_cacheable cfg reqType \<longleftrightarrow> IsCacheable reqType \<and> gc_HasCache cfg \<and> gc_CacheTTL cfg > 0"

definition cache_lookup ::
  "('s, 'w) git_env \<Rightarrow> string \<Rightarrow> ('s, 'w) git_state \<Rightarrow> GitCachedResponse option \<times> ('s, 'w) git_state" where
  "cache_lookup env key st =
     (let (hit, s) = ge_get env key (ge_t1 env) (gt_cache st) in (Option.bind hit (ge_dec env), st\<lparr>gt_cache := s\<rparr>))"

definition write_cached :: "('s, 'w) git_env \<Rightarrow> GitCachedResponse \<Rightarrow> ResponseWriter \<Rightarrow> ResponseWriter" where
  "write_cached env c w =
     (let h = hdr_set ''X-Git-Cache'' ''HIT'' (hdr_add_all (ge_ord env (cr_Header c)) (cr_Header c) (rw_header w))
      in snd (rw_write (cr_Body c) (write_header (cr_StatusCode c) (w\<lparr>rw_header := h\<rparr>))))"

subsection \<open>The upstream request\<close>

definition augment_request ::
  "('s, 'w) git_env \<Rightarrow> URL \<Rightarrow> RequestType \<Rightarrow> bytes \<Rightarrow> ('s, 'w) git_state \<Rightarrow> bytes \<times> ('s, 'w) git_state" where
  "augment_request env target reqType reqBody st =
     (if reqType = RequestTypeUploadPackFetch then
        (case ParseFetchRequest reqBody of
           Inl err \<Rightarrow> (reqBody, st)
         | Inr fr \<Rightarrow>
             if fr_Wants fr = [] then (reqBody, st)
             else (let (store, st1) = repo_store env target st; known = GetKnownCommits (ge_commits env) store in
                   if known = [] then (reqBody, st1)
                   else (BuildUpstreamFetchRequest (fr_Wants fr) (fold add_key known (fold add_key (fr_Haves fr) []))
                           (fr_IsV2 fr), st1)))
      else (reqBody, st))"

definition git_out_request ::
  "('s, 'w) git_env \<Rightarrow> GitConfig \<Rightarrow> Request \<Rightarrow> URL \<Rightarrow> bytes \<Rightarrow> string + Request" where
  "git_out_request env cfg r target body =
     (case ge_parse_url env (ge_urlstr env target) of
        Inl err \<Rightarrow> Inl err
      | Inr u \<Rightarrow>
          (let h = hdr_add_all (ge_ord env (rq_header r)) (rq_header r) (\<lambda>_. None)
           in Inr \<lparr>rq_method = rq_method r, rq_url = u, rq_host = u_host target,
                   rq_header = inject_auth cfg (hdr_del ''X-Forwarded-For'' (git_removeHopByHopHeaders h)),
                   rq_body = body, rq_remote = []\<rparr>))"

subsection \<open>The upstream answer\<close>

definition is_panic :: "pack_error \<Rightarrow> bool" where
  "is_panic e \<longleftrightarrow> e = AllocPanic \<or> e = DeltaFailed DeltaPanic"

text \<open>Ingesting the pack of a response: \<^term>\<open>None\<close> if it does not end, and whether it panicked.\<close>

definition ingest_response ::
  "('s, 'w) git_env \<Rightarrow> URL \<Rightarrow> bytes \<Rightarrow> ('s, 'w) git_state \<Rightarrow> (bool \<times> RepoStore \<times> ('s, 'w) git_state) option" where
  "ingest_response env target body st =
     (let (store, st1) = repo_store env target st in
      case ExtractPackfileFromResponse body of
        None \<Rightarrow> Some (False, store, st1)
      | Some pack \<Rightarrow>
          map_option (\<lambda>(res, store'). (case res of Inl e \<Rightarrow> is_panic e | Inr _ \<Rightarrow> False, store', put_store target store' st1))
            (IngestPackfile (ge_sha1 env) (ge_inflate env) (ge_commits env) pack store))"

definition store_and_write ::
  "('s, 'w) git_env \<Rightarrow> GitConfig \<Rightarrow> string \<Rightarrow> int \<Rightarrow> header \<Rightarrow> bytes \<Rightarrow> ResponseWriter \<Rightarrow> ('s, 'w) git_state \<Rightarrow>
   ('s, 'w) git_outcome" where
  "store_and_write env cfg key status hdr body w st =
     (let st' = (case ge_enc env \<lparr>cr_StatusCode = status, cr_Header = hdr, cr_Body = body\<rparr> of
                   Some bs \<Rightarrow> st\<lparr>gt_cache := ge_put env key bs (gc_CacheTTL cfg) (ge_t2 env) (gt_cache st)\<rparr>
                 | None \<Rightarrow> st);
          w1 = w\<lparr>rw_header := hdr_set ''Content-Length'' (dec_str (length body)) (rw_header w)\<rparr>
      in Done (snd (rw_write body (write_header status w1))) st')"

text \<open>The fetch was sent with further haves: the client's answer is built from the store.\<close>

definition assisted_answer ::
  "('s, 'w) git_env \<Rightarrow> RepoStore \<Rightarrow> bytes \<Rightarrow> ResponseWriter \<Rightarrow> ('s, 'w) git_state \<Rightarrow> ('s, 'w) git_outcome" where
  "assisted_answer env store reqBody w st =
     (case buildFetchFromStore env store reqBody of
        None \<Rightarrow> Stuck
      | Some (Inl err) \<Rightarrow> Done (http_error ''cache-assisted fetch failed'' 502 w) st
      | Some (Inr b) \<Rightarrow>
          Done (snd (rw_write b (write_header 200 (w\<lparr>rw_header := hdr_del ''Content-Length'' (rw_header w)\<rparr>)))) st)"

definition cached_answer ::
  "('s, 'w) git_env \<Rightarrow> GitConfig \<Rightarrow> Request \<Rightarrow> URL \<Rightarrow> RequestType \<Rightarrow> bytes \<Rightarrow> bytes \<Rightarrow> Response \<Rightarrow> header \<Rightarrow>
   ResponseWriter \<Rightarrow> ('s, 'w) git_state \<Rightarrow> ('s, 'w) git_outcome" where
  "cached_answer env cfg r target reqType reqBody upBody resp hdr w0 st =
     (let w = w0\<lparr>rw_header := hdr_set ''X-Git-Cache'' ''MISS'' (rw_header w0)\<rparr>;
          key = computeCacheKey env r target reqBody in
      case read_all (rs_body resp) of
        None \<Rightarrow> Done (http_error ''Failed to read upstream response'' 502 w) st
      | Some body \<Rightarrow>
          if reqType = RequestTypeUploadPackFetch then
            (case ingest_response env target body st of
               None \<Rightarrow> Stuck
             | Some (panicked, store, st') \<Rightarrow>
                 if panicked then Aborted st'
                 else if upBody \<noteq> reqBody then assisted_answer env store reqBody w st'
                 else store_and_write env cfg key (rs_status resp) hdr body w st')
          else store_and_write env cfg key (rs_status resp) hdr body w st)"

definition bypass_answer :: "Response \<Rightarrow> ResponseWriter \<Rightarrow> ResponseWriter" where
  "bypass_answer resp w =
     snd (relay_body (bd_chunks (rs_body resp))
           (write_header (rs_status resp) (w\<lparr>rw_header := hdr_set ''X-Git-Cache'' ''BYPASS'' (rw_header w)\<rparr>)))"

definition git_respond ::
  "('s, 'w) git_env \<Rightarrow> GitConfig \<Rightarrow> Request \<Rightarrow> URL \<Rightarrow> RequestType \<Rightarrow> bytes \<Rightarrow> bytes \<Rightarrow> Response \<Rightarrow>
   ResponseWriter \<Rightarrow> ('s, 'w) git_state \<Rightarrow> ('s, 'w) git_outcome" where
  "git_respond env cfg r target reqType reqBody upBody resp w st =
     (let hdr = git_removeHopByHopHeaders (rs_header resp);
          w1 = w\<lparr>rw_header := hdr_add_all (ge_ord env hdr) hdr (rw_header w)\<rparr> in
      if is_cacheable cfg reqType \<and> rs_status resp = 200
      then cached_answer env cfg r target reqType reqBody upBody resp hdr w1 st
      else Done (bypass_answer resp w1) st)"

subsection \<open>The handler\<close>

definition git_forward ::
  "('s, 'w) git_env \<Rightarrow> GitConfig \<Rightarrow> Request \<Rightarrow> URL \<Rightarrow> RequestType \<Rightarrow> bytes \<Rightarrow> ResponseWriter \<Rightarrow>
   ('s, 'w) git_state \<Rightarrow> ('s, 'w) git_outcome" where
  "git_forward env cfg r target reqType reqBody w st0 =
     (let (upBody, st) = augment_request env target reqType reqBody st0 in
      case git_out_request env cfg r target upBody of
        Inl err \<Rightarrow> Done (http_error (''Failed to create upstream request: '' @ err) 500 w) st
      | Inr out \<Rightarrow>
          (case ge_rt env out (gt_world st) of
             (Inl err, world) \<Rightarrow> Done (http_error (''Upstream proxy error: '' @ err) 502 w) (st\<lparr>gt_world := world\<rparr>)
           | (Inr resp, world) \<Rightarrow>
               git_respond env cfg r target reqType reqBody upBody resp w (st\<lparr>gt_world := world\<rparr>)))"

definition git_serve ::
  "('s, 'w) git_env \<Rightarrow> GitConfig \<Rightarrow> Request \<Rightarrow> URL \<Rightarrow> bytes \<Rightarrow> ResponseWriter \<Rightarrow> ('s, 'w) git_state \<Rightarrow>
   ('s, 'w) git_outcome" where
  "git_serve env cfg r target reqBody w st =
     (let reqType = ClassifyGitRequest r reqBody;
          (hit, st1) = (if reqType = RequestTypeUploadPackFetch then lookup_store env target reqBody st else (Some None, st)) in
      case hit of
        None \<Rightarrow> Stuck
      | Some (Some resp) \<Rightarrow> Done (write_hit resp w) st1
      | Some None \<Rightarrow>
          (let (cached, st2) = (if is_cacheable cfg reqType
                                then cache_lookup env (computeCacheKey env r target reqBody) st1 else (None, st1)) in
           case cached of
             Some c \<Rightarrow> Done (write_cached env c w) st2
           | None \<Rightarrow> git_forward env cfg r target reqType reqBody w st2))"

text \<open>\<open>rb\<close> is the body of the request, \<^term>\<open>None\<close> if it is nil.\<close>

definition Git_ServeHTTP ::
  "('s, 'w) git_env \<Rightarrow> GitConfig \<Rightarrow> Request \<Rightarrow> Body option \<Rightarrow> ResponseWriter \<Rightarrow> ('s, 'w) git_state \<Rightarrow>
   ('s, 'w) git_outcome" where
  "Git_ServeHTTP env cfg r rb w st =
     (case ResolveUpstreamURL (ge_parse_url env) r (gc_DefaultTargetURL cfg) of
        Inl err \<Rightarrow> Done (http_error (''Git proxy error: '' @ err) 400 w) st
      | Inr target \<Rightarrow>
          (case (case rb of None \<Rightarrow> Some [] | Some b \<Rightarrow> read_all b) of
             None \<Rightarrow> Done (http_error ''Failed to read request body'' 400 w) st
           | Some reqBody \<Rightarrow> git_serve env cfg r target reqBody w st))"

subsection \<open>Configuration\<close>

datatype git_cache_kind = GivenCache | DiskCacheIn string int int | MemoryCache int

definition first_of :: "string \<Rightarrow> string \<Rightarrow> string" where
  "first_of a b = (if a = [] then b else a)"

definition week :: int where
  "week = 7 * 24 * hour"

definition ten_minutes :: int where
  "ten_minutes = 10 * 60 * 10 ^ 9"

text \<open>
  \<open>getenv\<close> is the environment, \<open>parse_duration\<close> is \<^verbatim>\<open>time.ParseDuration\<close>, and \<open>mkdir\<close> is the error of
  creating the cache directory, if any.  The result is the configuration the server runs with, its
  port and the cache that was opened.
\<close>

definition Git_Run ::
  "(string \<Rightarrow> string) \<Rightarrow> (string \<Rightarrow> int option) \<Rightarrow> (string \<Rightarrow> string option) \<Rightarrow> GitConfig \<Rightarrow> string \<Rightarrow>
   string + (GitConfig \<times> string \<times> git_cache_kind)" where
  "Git_Run getenv parse_duration mkdir config port =
     (let port' = first_of port (first_of (getenv ''PORT'') ''8080'');
          config1 = config\<lparr>gc_DefaultTargetURL := first_of (gc_DefaultTargetURL config) (getenv ''TARGET_URL''),
                           gc_DefaultAuthToken := first_of (gc_DefaultAuthToken config) (getenv ''UPSTREAM_AUTH_TOKEN''),
                           gc_DefaultAuthHeader := first_of (gc_DefaultAuthHeader config)
                             (first_of (getenv ''UPSTREAM_AUTH_HEADER'') ''Authorization'')\<rparr> in
      if gc_HasCache config then Inr (config1, port', GivenCache)
      else
        let ttl1 = (if getenv ''CACHE_TTL'' \<noteq> []
                    then case parse_duration (getenv ''CACHE_TTL'') of Some d \<Rightarrow> d | None \<Rightarrow> gc_CacheTTL config
                    else gc_CacheTTL config);
            ttl = (if ttl1 \<le> 0 then week else ttl1);
            cleanup = (if getenv ''CACHE_CLEANUP_INTERVAL'' \<noteq> []
                       then case parse_duration (getenv ''CACHE_CLEANUP_INTERVAL'') of Some d \<Rightarrow> d | None \<Rightarrow> ten_minutes
                       else ten_minutes);
            config2 = config1\<lparr>gc_HasCache := True, gc_CacheTTL := ttl\<rparr>;
            dir = getenv ''CACHE_DIR'' in
        if dir \<noteq> [] then
          (case mkdir dir of
             Some err \<Rightarrow> Inl (''failed to create disk cache: '' @ err)
           | None \<Rightarrow> Inr (config2, port', DiskCacheIn dir ttl cleanup))
        else Inr (config2, port', MemoryCache cleanup))"

record GitFlags =
  gf_port :: string
  gf_target_url :: string
  gf_cache_dir :: string
  gf_cache_ttl :: int
  gf_cleanup_interval :: int
  gf_auth_token :: string
  gf_auth_header :: string

text \<open>A duration flag, its environment variable and its default; a malformed variable is an error.\<close>

definition flag_duration ::
  "(string \<Rightarrow> string) \<Rightarrow> (string \<Rightarrow> int option) \<Rightarrow> string \<Rightarrow> int \<Rightarrow> int \<Rightarrow> string + int" where
  "flag_duration getenv parse_duration name flag dflt =
     and_then
       (if flag \<le> 0 \<and> getenv name \<noteq> []
        then (case parse_duration (getenv name) of None \<Rightarrow> Inl (''parsing '' @ name) | Some d \<Rightarrow> Inr d)
        else Inr flag)
       (\<lambda>d. Inr (if d \<le> 0 then dflt else d))"

definition gitproxy_run ::
  "(string \<Rightarrow> string) \<Rightarrow> (string \<Rightarrow> int option) \<Rightarrow> (string \<Rightarrow> string option) \<Rightarrow> GitFlags \<Rightarrow>
   string + (GitConfig \<times> string \<times> git_cache_kind)" where
  "gitproxy_run getenv parse_duration mkdir flags =
     (let port = first_of (gf_port flags) (first_of (getenv ''PORT'') ''8080'');
          cacheDir = first_of (gf_cache_dir flags) (getenv ''CACHE_DIR'') in
      and_then (flag_duration getenv parse_duration ''CACHE_TTL'' (gf_cache_ttl flags) week) (\<lambda>ttl.
      and_then (flag_duration getenv parse_duration ''CACHE_CLEANUP_INTERVAL'' (gf_cleanup_interval flags) ten_minutes) (\<lambda>cleanup.
      and_then (if cacheDir \<noteq> []
                then (case mkdir cacheDir of
                        Some err \<Rightarrow> Inl (''failed to initialize disk cache: '' @ err)
                      | None \<Rightarrow> Inr (DiskCacheIn cacheDir ttl cleanup))
                else Inr (MemoryCache cleanup)) (\<lambda>kind.
      and_then (Git_Run getenv parse_duration mkdir
                  \<lparr>gc_DefaultTargetURL = first_of (gf_target_url flags) (getenv ''TARGET_URL''),
                   gc_DefaultAuthHeader = first_of (gf_auth_header flags) (first_of (getenv ''UPSTREAM_AUTH_HEADER'') ''Authorization''),
                   gc_DefaultAuthToken = first_of (gf_auth_token flags) (getenv ''UPSTREAM_AUTH_TOKEN''),
                   gc_HasCache = True, gc_CacheTTL = ttl, gc_RepoCacheDir = [], gc_RepoCacheManager = None\<rparr> port)
        (\<lambda>(config, port', _). Inr (config, port', kind))))))"

subsection \<open>Lemmas\<close>

lemma git_removeHopByHop: "git_removeHopByHopHeaders = removeHopByHopHeaders"
proof -
  have "git_splitAndTrim = splitAndTrim" "git_hopByHopHeaders = hopByHopHeaders"
    by (simp_all add: fun_eq_iff git_splitAndTrim_def splitAndTrim_def git_hopByHopHeaders_def hopByHopHeaders_def)
  then show ?thesis by (simp add: fun_eq_iff git_removeHopByHopHeaders_def removeHopByHopHeaders_def Let_def)
qed

lemma repo_store_frame:
  "repo_store env target st = (store, st') \<Longrightarrow> gt_world st' = gt_world st \<and> gt_cache st' = gt_cache st"
  by (auto simp: repo_store_def split: prod.splits)

lemma repo_store_known:
  "cm_stores (gt_repos st) (u_path target) = Some store \<Longrightarrow> repo_store env target st = (store, st)"
  by (simp add: repo_store_def GetRepoStore_def)

definition repos_finite :: "('s, 'w) git_state \<Rightarrow> bool" where
  "repos_finite st \<longleftrightarrow> (\<forall>id store. cm_stores (gt_repos st) id = Some store \<longrightarrow> store_finite store)"

lemma repo_store_finite:
  assumes "repos_finite st" and "repo_store env target st = (store, st')"
  shows "store_finite store \<and> repos_finite st'"
proof (cases "cm_stores (gt_repos st) (u_path target)")
  case None
  have "store_finite (NewRepoStore dir)" for dir by (simp add: NewRepoStore_def store_finite_def)
  then show ?thesis
    using None assms by (auto simp: repo_store_def GetRepoStore_def Let_def repos_finite_def split: if_splits)
next
  case (Some s)
  then show ?thesis using assms by (auto simp: repo_store_known repos_finite_def)
qed

lemma put_store_finite: "repos_finite st \<Longrightarrow> store_finite store \<Longrightarrow> repos_finite (put_store target store st)"
  by (simp add: repos_finite_def put_store_def)

lemma repos_finite_frame [simp]:
  "repos_finite (st\<lparr>gt_cache := c\<rparr>) = repos_finite st" "repos_finite (st\<lparr>gt_world := wd\<rparr>) = repos_finite st"
  by (simp_all add: repos_finite_def)

lemma store_answer_ends: "store_finite store \<Longrightarrow> store_answer env store fr \<noteq> None"
  using collect_ends [of store "ge_perm env" "fr_Wants fr" "fr_Haves fr"]
  by (auto simp: store_answer_def split: option.splits)

lemma buildFetch_ends: "store_finite store \<Longrightarrow> buildFetchFromStore env store b \<noteq> None"
  using store_answer_ends [of store env] by (auto simp: buildFetchFromStore_def split: sum.splits)

lemma lookup_store_ends:
  assumes "repos_finite st" and "lookup_store env target b st = (hit, st')"
  shows "hit \<noteq> None \<and> repos_finite st' \<and> gt_world st' = gt_world st \<and> gt_cache st' = gt_cache st"
proof -
  obtain store st1 where r: "repo_store env target st = (store, st1)" by fastforce
  show ?thesis
    using assms(2) repo_store_finite [OF assms(1) r] repo_store_frame [OF r] store_answer_ends [of store env]
    by (auto simp: lookup_store_def r split: sum.splits)
qed

lemma augment_frame:
  assumes "repos_finite st" and "augment_request env target reqType b st = (up, st')"
  shows "repos_finite st' \<and> gt_world st' = gt_world st \<and> gt_cache st' = gt_cache st"
proof -
  obtain store st1 where r: "repo_store env target st = (store, st1)" by fastforce
  show ?thesis
    using assms repo_store_finite [OF assms(1) r] repo_store_frame [OF r]
    by (auto simp: augment_request_def r Let_def split: sum.splits if_splits)
qed

lemma ingest_response_ends:
  assumes "repos_finite st"
  shows "\<exists>panicked store st'. ingest_response env target body st = Some (panicked, store, st') \<and> repos_finite st' \<and>
    store_finite store \<and> gt_world st' = gt_world st"
proof -
  obtain store st1 where r: "repo_store env target st = (store, st1)" by fastforce
  note f = repo_store_finite [OF assms r] repo_store_frame [OF r]
  show ?thesis
  proof (cases "ExtractPackfileFromResponse body")
    case None
    then show ?thesis using f by (intro exI [of _ False]) (simp add: ingest_response_def r)
  next
    case (Some pack)
    obtain res store' where "IngestPackfile (ge_sha1 env) (ge_inflate env) (ge_commits env) pack store = Some (res, store')"
      "store_finite store'"
      using ingest_ends f(1) by blast
    then show ?thesis using f Some by (simp add: ingest_response_def r put_store_finite) (simp add: put_store_def)
  qed
qed

text \<open>Where the world of the final state comes from.\<close>

fun final_state :: "('s, 'w) git_outcome \<Rightarrow> ('s, 'w) git_state option" where
  "final_state (Done w st) = Some st"
| "final_state (Aborted st) = Some st"
| "final_state Stuck = None"

lemma store_and_write_final:
  "\<exists>w' st'. store_and_write env cfg key status hdr b w st = Done w' st' \<and> gt_world st' = gt_world st \<and> gt_repos st' = gt_repos st"
  by (auto simp: store_and_write_def Let_def split: option.splits)

lemma assisted_final:
  "store_finite store \<Longrightarrow> \<exists>w'. assisted_answer env store b w st = Done w' st"
  using buildFetch_ends [of store env b] by (auto simp: assisted_answer_def split: option.splits sum.splits)

lemma repos_finite_eq: "gt_repos st' = gt_repos st \<Longrightarrow> repos_finite st' = repos_finite st"
  by (simp add: repos_finite_def)

lemma cached_answer_final:
  assumes "repos_finite st"
  shows "\<exists>st'. final_state (cached_answer env cfg r target reqType b up resp hdr w st) = Some st' \<and> repos_finite st' \<and>
    gt_world st' = gt_world st"
proof (cases "read_all (rs_body resp)")
  case None
  then show ?thesis using assms by (simp add: cached_answer_def Let_def)
next
  case (Some body)
  obtain panicked store st1 where i: "ingest_response env target body st = Some (panicked, store, st1)" "repos_finite st1"
    "store_finite store" "gt_world st1 = gt_world st"
    using ingest_response_ends [OF assms] by blast
  let ?w = "w\<lparr>rw_header := hdr_set ''X-Git-Cache'' ''MISS'' (rw_header w)\<rparr>" and ?k = "computeCacheKey env r target b"
  obtain w2 st2 where sw: "store_and_write env cfg ?k (rs_status resp) hdr body ?w st = Done w2 st2"
    "gt_world st2 = gt_world st" "gt_repos st2 = gt_repos st" using store_and_write_final by blast
  obtain w3 st3 where sw1: "store_and_write env cfg ?k (rs_status resp) hdr body ?w st1 = Done w3 st3"
    "gt_world st3 = gt_world st1" "gt_repos st3 = gt_repos st1" using store_and_write_final by blast
  obtain w4 where "assisted_answer env store b ?w st1 = Done w4 st1" using assisted_final [OF i(3)] by blast
  then show ?thesis
    using Some i sw sw1 assms repos_finite_eq [OF sw(3)] repos_finite_eq [OF sw1(3)]
    by (simp add: cached_answer_def Let_def)
qed

lemma git_respond_final:
  assumes "repos_finite st"
  shows "\<exists>st'. final_state (git_respond env cfg r target reqType b up resp w st) = Some st' \<and> repos_finite st' \<and>
    gt_world st' = gt_world st"
  using cached_answer_final [OF assms] assms by (simp add: git_respond_def Let_def)

definition sends :: "('s, 'w) git_env \<Rightarrow> GitConfig \<Rightarrow> Request \<Rightarrow> URL \<Rightarrow> bytes \<Rightarrow> ('s, 'w) git_state \<Rightarrow> ('s, 'w) git_state \<Rightarrow> bool" where
  "sends env cfg r target up st st' \<longleftrightarrow>
     (\<exists>out. git_out_request env cfg r target up = Inr out \<and> gt_world st' = snd (ge_rt env out (gt_world st)))"

lemma git_forward_final:
  assumes "repos_finite st"
  shows "\<exists>st'. final_state (git_forward env cfg r target reqType b w st) = Some st' \<and> repos_finite st' \<and>
    (gt_world st' = gt_world st \<or> sends env cfg r target (fst (augment_request env target reqType b st)) st st')"
proof -
  obtain up st1 where a: "augment_request env target reqType b st = (up, st1)" by fastforce
  note f = augment_frame [OF assms a]
  show ?thesis
  proof (cases "git_out_request env cfg r target up")
    case (Inl err)
    then show ?thesis using f by (simp add: git_forward_def a)
  next
    case (Inr out)
    obtain res wd where rt: "ge_rt env out (gt_world st1) = (res, wd)" by fastforce
    then have s: "gt_world st' = wd \<Longrightarrow> sends env cfg r target up st st'" for st' :: "('a, 'b) git_state"
      using Inr f by (auto simp: sends_def)
    show ?thesis
    proof (cases res)
      case (Inl err)
      then show ?thesis using f s Inr rt by (simp add: git_forward_def a)
    next
      case resp: (Inr resp)
      have "repos_finite (st1\<lparr>gt_world := wd\<rparr>)" using f by simp
      then obtain st' where "final_state (git_respond env cfg r target reqType b up resp w (st1\<lparr>gt_world := wd\<rparr>)) = Some st'"
        "repos_finite st'" "gt_world st' = wd"
        using git_respond_final by fastforce
      then show ?thesis using s Inr rt resp by (simp add: git_forward_def a)
    qed
  qed
qed

lemma classify_header: "ClassifyGitRequest (r\<lparr>rq_header := h\<rparr>) b = ClassifyGitRequest r b"
  by (cases r) (simp only: ClassifyGitRequest_def Request.select_convs Request.update_convs)

lemma accepted_haves_short:
  assumes "ParseFetchRequest b = Inr fr" and "a \<in> set (fr_Haves fr)"
  shows "length a < 65000"
proof -
  have "isHexOID a" using accepted_fetch [OF assms(1)] assms(2) by (simp add: list_all_iff)
  then have "length a = 40 \<or> length a = 64" by (simp add: isHexOID_def)
  then show ?thesis by auto
qed

subsection \<open>Properties\<close>


text \<open>
  Claim C33. A fetch that misses some commits is asked upstream with the known commits as further
  haves: the strict parser reads the body that is sent as the client's wants and version, and haves
  that are, without repetition, the client's and the known commits; with no known commit the body is
  the client's.
\<close>

theorem augmented_fetch:
  assumes "ParseFetchRequest reqBody = Inr fr" and "repo_store env target st = (store, st1)"
    and "iterates (ge_commits env (gs_commits store)) (gs_commits store)" and "\<forall>oid\<in>dom (gs_commits store). isHexOID oid"
  shows "\<exists>haves up. augment_request env target RequestTypeUploadPackFetch reqBody st = (up, st1) \<and>
    (if gs_commits store = (\<lambda>_. None) then up = reqBody
     else ParseFetchRequest up = Inr (fr\<lparr>fr_Haves := haves, fr_Done := True\<rparr>) \<and> distinct haves \<and>
          set haves = set (fr_Haves fr) \<union> dom (gs_commits store))"
proof -
  let ?known = "GetKnownCommits (ge_commits env) store"
  let ?haves = "fold add_key ?known (fold add_key (fr_Haves fr) [])"
  note ok = accepted_fetch [OF assms(1)]
  have k: "set ?known = dom (gs_commits store)" using iterates_set [OF assms(3)] by (simp add: GetKnownCommits_def)
  have e: "?known = [] \<longleftrightarrow> gs_commits store = (\<lambda>_. None)" using k by (metis dom_eq_empty_conv set_empty)
  have h: "set ?haves = set (fr_Haves fr) \<union> dom (gs_commits store)" "distinct ?haves" using k by auto
  have "list_all isHexOID ?haves" using h(1) ok assms(4) by (auto simp: list_all_iff)
  then have "ParseFetchRequest (BuildUpstreamFetchRequest (fr_Wants fr) ?haves (fr_IsV2 fr)) =
      Inr \<lparr>fr_Wants = fr_Wants fr, fr_Haves = ?haves, fr_IsV2 = fr_IsV2 fr, fr_Done = True\<rparr>"
    using ok h(2) by (intro parse_upstream_request) simp_all
  then show ?thesis
    using ok assms(1,2) e h by (intro exI [of _ ?haves]) (simp add: augment_request_def Let_def)
qed

text \<open>What the store must be for its objects to be sent and read back.\<close>

definition sendable :: "('s, 'w) git_env \<Rightarrow> RepoStore \<Rightarrow> bool" where
  "sendable env store \<longleftrightarrow>
     (\<forall>oid obj. gs_objects store oid = Some obj \<longrightarrow>
        whole_object (ge_sha1 env) obj \<and> zlib_reads_back (ge_deflate env) (ge_inflate env) (ro_Data obj)) \<and>
     (\<forall>b. length (ge_sha1 env b) = 20) \<and> card (dom (gs_objects store)) < 2 ^ 32"

lemma sent_pack_readable:
  assumes "sendable env store" and "store_inv store" and "distinct (map ro_OID objs)"
    and "\<forall>obj\<in>set objs. gs_objects store (ro_OID obj) = Some obj"
  shows "ParsePackfile (ge_sha1 env) (ge_inflate env) (BuildPackfile (ge_sha1 env) (ge_deflate env) objs) = Inr objs"
proof -
  have "finite (dom (gs_objects store))" using assms(2) by (simp add: store_inv_def store_graph_def)
  moreover have "set (map ro_OID objs) \<subseteq> dom (gs_objects store)" using assms(4) by auto
  ultimately have "length objs \<le> card (dom (gs_objects store))"
    using assms(3) by (metis card_mono distinct_card length_map)
  then have l: "length objs < 2 ^ 32" using assms(1) by (simp add: sendable_def)
  have "list_all (whole_object (ge_sha1 env)) objs" "\<And>b. length (ge_sha1 env b) = 20"
    "list_all (\<lambda>obj. zlib_reads_back (ge_deflate env) (ge_inflate env) (ro_Data obj)) objs"
    using assms(1,4) by (auto simp: sendable_def list_all_iff)
  with l show ?thesis unfolding ParsePackfile_def by (intro parse_built_pack)
qed


text \<open>
  The store does not tell hosts or callers apart: a fetch is answered with the same bytes,
  and without any upstream request, for every upstream host that has the same path, and whatever
  credentials the request carries.
\<close>

theorem hit_ignores_host:
  assumes "ClassifyGitRequest r reqBody = RequestTypeUploadPackFetch" and "lookup_store env target reqBody st = (Some (Some body), st1)"
    and "u_path target' = u_path target"
  shows "git_serve env cfg (r\<lparr>rq_header := h\<rparr>) target' reqBody w st = Done (write_hit body w) st1"
proof -
  have "ClassifyGitRequest (r\<lparr>rq_header := h\<rparr>) reqBody = RequestTypeUploadPackFetch"
    using assms(1) by (simp add: classify_header)
  moreover have "lookup_store env target' reqBody st = lookup_store env target reqBody st"
    using assms(3) by (simp add: lookup_store_def repo_store_def)
  ultimately show ?thesis using assms(2) by (simp add: git_serve_def)
qed

text \<open>
  Pushes, ref listings and everything else that is not content-addressed pass through: the
  stores and the response cache stay as they were, and the answer, if the upstream gave one, has the
  upstream's status, is marked BYPASS, and its body is what the upstream sent up to the point where the
  client went away.
\<close>

theorem git_bypass:
  assumes "\<not> IsCacheable (ClassifyGitRequest r reqBody)" and "git_out_request env cfg r target reqBody = Inr out"
    and "ge_rt env out (gt_world st) = (Inr resp, wd)" and "rw_status w = None" and "rw_body w = []"
  shows "\<exists>w'. git_serve env cfg r target reqBody w st = Done w' (st\<lparr>gt_world := wd\<rparr>) \<and> rw_status w' = Some (rs_status resp) \<and>
    hdr_values (rw_sent w') ''X-Git-Cache'' = [''BYPASS''] \<and> rw_body w' = delivered (rw_left w) (bd_chunks (rs_body resp))"
proof -
  let ?h = "git_removeHopByHopHeaders (rs_header resp)"
  let ?w1 = "w\<lparr>rw_header := hdr_add_all (ge_ord env ?h) ?h (rw_header w)\<rparr>"
  let ?w2 = "write_header (rs_status resp) (?w1\<lparr>rw_header := hdr_set ''X-Git-Cache'' ''BYPASS'' (rw_header ?w1)\<rparr>)"
  have t: "ClassifyGitRequest r reqBody \<noteq> RequestTypeUploadPackFetch" "\<not> is_cacheable cfg (ClassifyGitRequest r reqBody)"
    using assms(1) by (auto simp: is_cacheable_def)
  obtain left' where rb: "relay_body (bd_chunks (rs_body resp)) ?w2 =
      (cut_short (rw_left ?w2) (bd_chunks (rs_body resp)),
       ?w2\<lparr>rw_body := rw_body ?w2 @ delivered (rw_left ?w2) (bd_chunks (rs_body resp)), rw_left := left'\<rparr>)"
    using relay_body_spec [of ?w2 "rs_status resp"] assms(4) by auto
  have "git_serve env cfg r target reqBody w st = Done (bypass_answer resp ?w1) (st\<lparr>gt_world := wd\<rparr>)"
    using t assms(2,3) by (simp add: git_serve_def Let_def git_forward_def augment_request_def git_respond_def)
  moreover have "bypass_answer resp ?w1 =
      ?w2\<lparr>rw_body := rw_body ?w2 @ delivered (rw_left ?w2) (bd_chunks (rs_body resp)), rw_left := left'\<rparr>"
    unfolding bypass_answer_def rb by simp
  ultimately show ?thesis using assms(4,5) by (simp add: write_header_def hdr_values_set)
qed

text \<open>
  The configured credential goes to whatever host a client names: a request for
  \<^verbatim>\<open>/host/...\<close> without an Authorization header is sent to that host with the configured bearer
  token.
\<close>

theorem token_follows_path:
  assumes "u_path (rq_url r) = ''/'' @ host @ ''/'' @ p" and "u_scheme (rq_url r) = []" and "u_rawpath (rq_url r) = []"
    and "isLikelyHostname host" and "\<not> isLocalHost host" and "CHR ''/'' \<notin> set host" and "list_all path_plain host"
    and "gc_DefaultTargetURL cfg = []" and "gc_DefaultAuthHeader cfg = ''Authorization''" and "gc_DefaultAuthToken cfg \<noteq> []"
    and "\<not> IsCacheable (ClassifyGitRequest r [])" and "rq_header r = (\<lambda>_. None)" and "ge_ord env (\<lambda>_. None) = []"
    and "\<And>u. \<exists>v. ge_parse_url env (ge_urlstr env u) = Inr v"
  shows "\<exists>out st'. final_state (Git_ServeHTTP env cfg r None w st) = Some st' \<and>
    gt_world st' = snd (ge_rt env out (gt_world st)) \<and> rq_host out = host \<and>
    hdr_values (rq_header out) ''Authorization'' = [''Bearer '' @ gc_DefaultAuthToken cfg]"
proof -
  have ne: "host \<noteq> []" using assms(4) by (auto simp: isLikelyHostname_def)
  obtain t where t: "ResolveUpstreamURL (ge_parse_url env) r [] = Inr t" "u_host t = host"
    using resolve_named [of r "[]" host p "ge_parse_url env"] assms(1-7) ne by auto
  have ty: "ClassifyGitRequest r [] \<noteq> RequestTypeUploadPackFetch" "\<not> is_cacheable cfg (ClassifyGitRequest r [])"
    using assms(11) by (auto simp: is_cacheable_def)
  have hv: "hdr_values (\<lambda>_. None) k = []" for k by (simp add: hdr_values_def)
  have hh: "hdr_values (hdr_del ''X-Forwarded-For'' (git_removeHopByHopHeaders (\<lambda>_. None))) ''Authorization'' = []"
    unfolding git_removeHopByHop by (simp add: http_hdr hv)
  obtain v where v: "ge_parse_url env (ge_urlstr env t) = Inr v" using assms(14) by blast
  obtain out where out: "git_out_request env cfg r t [] = Inr out" "rq_host out = host"
    "hdr_values (rq_header out) ''Authorization'' = [''Bearer '' @ gc_DefaultAuthToken cfg]"
    using hh assms(9,10,12,13) v t(2)
    by (simp add: git_out_request_def Let_def hdr_add_all_def inject_auth_def hdr_get_values hdr_values_set)
  obtain res wd where rt: "ge_rt env out (gt_world st) = (res, wd)" by fastforce
  have "\<exists>st'. final_state (git_serve env cfg r t [] w st) = Some st' \<and> gt_world st' = wd"
    using ty out(1) rt by (cases res) (simp_all add: git_serve_def Let_def git_forward_def augment_request_def git_respond_def)
  then obtain st' where "final_state (git_serve env cfg r t [] w st) = Some st'" "gt_world st' = wd" by blast
  then show ?thesis
    using t(1) out(2,3) rt assms(8) by (intro exI [of _ out] exI [of _ st']) (simp add: Git_ServeHTTP_def)
qed

subsection \<open>Instances\<close>

definition sample_env :: "Request list transport \<Rightarrow> (InMemoryCache, Request list) git_env" where
  "sample_env rt =
     \<lparr>ge_parse_url = (\<lambda>s. Inr (buildURL ''https'' s [] [])), ge_urlstr = u_host, ge_sha1 = sample_sha1,
      ge_sha256 = (\<lambda>_. replicate 32 0), ge_inflate = (\<lambda>s n. Inr (take n s, n)), ge_deflate = (\<lambda>d. d),
      ge_get = mem_get_op, ge_put = mem_set_op (), ge_enc = (\<lambda>_. None), ge_dec = (\<lambda>_. None), ge_rt = rt,
      ge_ord = (\<lambda>_. []), ge_commits = (\<lambda>m. sorted_list_of_set (dom m)), ge_perm = (\<lambda>l. l), ge_t1 = 0, ge_t2 = 0\<rparr>"

definition down :: "Request list transport" where
  "down req log = (Inl ''down'', log @ [req])"

definition answering :: "Request list transport" where
  "answering req log =
     (Inr \<lparr>rs_status = 200, rs_header = (\<lambda>_. None), rs_body = body_of [7], rs_trailer = (\<lambda>_. None)\<rparr>, log @ [req])"

definition sample_cfg :: GitConfig where
  "sample_cfg =
     \<lparr>gc_DefaultTargetURL = [], gc_DefaultAuthHeader = ''Authorization'', gc_DefaultAuthToken = ''secret'',
      gc_HasCache = True, gc_CacheTTL = 1, gc_RepoCacheDir = [], gc_RepoCacheManager = None\<rparr>"

definition repo_target :: "string \<Rightarrow> URL" where
  "repo_target host = buildURL ''https'' host ''/r.git/git-upload-pack'' []"

definition sample_state :: "(InMemoryCache, Request list) git_state" where
  "sample_state =
     \<lparr>gt_repos = \<lparr>cm_stores = [''/r.git/git-upload-pack'' \<mapsto> sample_store], cm_cacheDir = []\<rparr>,
      gt_cache = NewInMemoryCache, gt_world = []\<rparr>"

definition fetch_body :: bytes where
  "fetch_body = BuildUpstreamFetchRequest [ro_OID sample_commit] [] True"

definition fetch_post :: Request where
  "fetch_post = (path_request ''/r.git/git-upload-pack'')\<lparr>rq_method := ''POST''\<rparr>"

lemma sample_oid_ok: "isHexOID (ro_OID sample_commit)"
  by code_simp

lemma sample_fetch_parse:
  "ParseFetchRequest fetch_body = Inr \<lparr>fr_Wants = [ro_OID sample_commit], fr_Haves = [], fr_IsV2 = True, fr_Done = True\<rparr>"
  unfolding fetch_body_def by (rule parse_upstream_request) (simp_all add: sample_oid_ok)

lemma sample_fetch_type: "ClassifyGitRequest fetch_post fetch_body = RequestTypeUploadPackFetch"
proof -
  have lines: "parsePktLines fetch_body = upstream_lines [ro_OID sample_commit] [] True"
    unfolding fetch_body_def by (rule upstream_pkt_lines) (simp_all add: sample_oid_ok)
  have c: "trim_space (''command=fetch'' @ nl) = ''command=fetch''" by code_simp
  have "\<not> HasLsRefsCommand fetch_body" "HasFetchCommand fetch_body"
    unfolding HasLsRefsCommand_def HasFetchCommand_def lines upstream_lines_def using c by simp_all
  moreover have "has_suffix ''/r.git/git-upload-pack'' ''/git-upload-pack''" "\<not> has_suffix ''/r.git/git-upload-pack'' ''/info/refs''"
    "\<not> has_suffix ''/r.git/git-upload-pack'' ''/git-receive-pack''" "\<not> has_suffix ''/r.git/git-upload-pack'' ''/HEAD''"
    "trim_right_if (\<lambda>c. c = CHR ''/'') ''/r.git/git-upload-pack'' = ''/r.git/git-upload-pack''"
    by code_simp+
  ultimately show ?thesis by (simp add: ClassifyGitRequest_def fetch_post_def path_request_def)
qed

lemma sample_commits: "gs_commits sample_store = [ro_OID sample_commit \<mapsto>
    \<lparr>co_OID = ro_OID sample_commit, co_Tree = ''t1'', co_Parents = [], co_Author = [], co_Message = []\<rparr>]"
  by (simp add: sample_store_def store_object_def NewRepoStore_def)

lemma sample_objects: "gs_objects sample_store = [ro_OID sample_commit \<mapsto> sample_commit]"
  by (simp add: sample_store_def store_object_def NewRepoStore_def)

lemma sample_repos_finite: "repos_finite sample_state"
  using sample_store_inv by (simp add: repos_finite_def sample_state_def store_inv_def graph_finite)

lemma sample_sendable: "sendable (sample_env rt) sample_store"
  by (simp add: sendable_def sample_env_def sample_objects zlib_reads_back_def whole_object_def sample_commit_def
      raw_object_def max_alloc_def sample_sha1_def)


lemma sample_repo: "repo_store (sample_env rt) (repo_target host) sample_state = (sample_store, sample_state)"
  by (rule repo_store_known) (simp add: sample_state_def repo_target_def buildURL_def)

theorem augmented_fetch_witness:
  "\<exists>haves up. augment_request (sample_env down) (repo_target ''github.com'') RequestTypeUploadPackFetch fetch_body sample_state =
     (up, sample_state) \<and>
     ParseFetchRequest up = Inr \<lparr>fr_Wants = [ro_OID sample_commit], fr_Haves = haves, fr_IsV2 = True, fr_Done = True\<rparr> \<and>
     distinct haves \<and> set haves = {ro_OID sample_commit}"
proof -
  have o: "iterates (ge_commits (sample_env down) (gs_commits sample_store)) (gs_commits sample_store)"
    by (simp add: sample_env_def iterates_def sample_commits)
  have h: "\<forall>oid\<in>dom (gs_commits sample_store). isHexOID oid" by (simp add: sample_commits sample_oid_ok)
  have n: "gs_commits sample_store \<noteq> (\<lambda>_. None)" by (simp add: sample_commits)
  show ?thesis
    using augmented_fetch [OF sample_fetch_parse sample_repo [of down "''github.com''"] o h] n by (simp add: sample_commits)
qed


theorem hit_ignores_host_witness:
  "\<exists>body. git_serve (sample_env down) sample_cfg (fetch_post\<lparr>rq_header := (\<lambda>_. None)\<rparr>) (repo_target ''evil.example.org'') fetch_body
     (new_writer None) sample_state = Done (write_hit body (new_writer None)) sample_state"
proof -
  have w: "set [ro_OID sample_commit] \<subseteq> dom (gs_commits sample_store)" by (simp add: sample_commits)
  obtain objs where objs: "CollectObjectsForCommits (\<lambda>l. l) sample_store [ro_OID sample_commit] [] = Some (objs, [])"
    "(\<Union>c\<in>history sample_store [ro_OID sample_commit]. content sample_store c) \<inter> dom (gs_objects sample_store) \<subseteq>
      ro_OID ` set objs \<union> (\<Union>h\<in>history sample_store []. content sample_store h)"
    using fetch_collects [OF sample_store_inv w, of "\<lambda>l. l" "[]" "[]"] by auto
  have "ro_OID sample_commit \<in> content sample_store (ro_OID sample_commit)" by (simp add: content_def sample_commits)
  moreover have "ro_OID sample_commit \<in> history sample_store [ro_OID sample_commit]" "history sample_store [] = {}"
    by (simp_all add: history_def)
  moreover have "ro_OID sample_commit \<in> dom (gs_objects sample_store)" by (simp add: sample_objects)
  ultimately have "objs \<noteq> []" using objs(2) by auto
  then have "store_answer (sample_env down) sample_store
      \<lparr>fr_Wants = [ro_OID sample_commit], fr_Haves = [], fr_IsV2 = True, fr_Done = True\<rparr> =
      Some (Some (FormatSidebandPackfile (BuildPackfile sample_sha1 (\<lambda>d. d) objs) True [] False))"
    using objs(1) by (simp add: store_answer_def HasAllCommits_def sample_commits sample_env_def)
  then obtain body where "lookup_store (sample_env down) (repo_target ''github.com'') fetch_body sample_state = (Some (Some body), sample_state)"
    by (simp add: lookup_store_def sample_repo sample_fetch_parse)
  from hit_ignores_host [OF sample_fetch_type this, of "repo_target ''evil.example.org''"] show ?thesis
    by (auto simp: repo_target_def buildURL_def)
qed

theorem git_bypass_witness:
  "\<exists>w' wd. git_serve (sample_env answering) sample_cfg (path_request ''/r.git/info/refs'') (repo_target ''github.com'') []
     (new_writer None) sample_state = Done w' (sample_state\<lparr>gt_world := wd\<rparr>) \<and> rw_body w' = [7] \<and>
     hdr_values (rw_sent w') ''X-Git-Cache'' = [''BYPASS'']"
proof -
  let ?r = "path_request ''/r.git/info/refs''" and ?t = "repo_target ''github.com''"
  have c: "\<not> IsCacheable (ClassifyGitRequest ?r [])" by code_simp
  obtain out where out: "git_out_request (sample_env answering) sample_cfg ?r ?t [] = Inr out"
    by (simp add: git_out_request_def sample_env_def Let_def)
  have rt: "ge_rt (sample_env answering) out (gt_world sample_state) =
      (Inr \<lparr>rs_status = 200, rs_header = (\<lambda>_. None), rs_body = body_of [7], rs_trailer = (\<lambda>_. None)\<rparr>, gt_world sample_state @ [out])"
    by (simp add: sample_env_def answering_def)
  have w: "rw_status (new_writer None) = None" "rw_body (new_writer None) = []" "rw_left (new_writer None) = None"
    by (simp_all add: new_writer_def)
  show ?thesis
    using git_bypass [OF c out rt w(1,2)] w(3) by (auto simp: delivered_def body_of_def)
qed

theorem token_follows_path_witness:
  "\<exists>out st'. final_state (Git_ServeHTTP (sample_env down) sample_cfg (path_request ''/evil.example.org/info/refs'') None
     (new_writer None) sample_state) = Some st' \<and> gt_world st' = [out] \<and> rq_host out = ''evil.example.org'' \<and>
     hdr_values (rq_header out) ''Authorization'' = [''Bearer secret'']"
proof -
  have h: "isLikelyHostname ''evil.example.org''" "\<not> isLocalHost ''evil.example.org''" "list_all path_plain ''evil.example.org''" 
    "\<not> IsCacheable (ClassifyGitRequest (path_request ''/evil.example.org/info/refs'') [])" by code_simp+
  show ?thesis
    using token_follows_path [of "path_request ''/evil.example.org/info/refs''" "''evil.example.org''" "''info/refs''" sample_cfg "sample_env down"
        "new_writer None" sample_state] h
    by (auto simp: path_request_def sample_cfg_def sample_env_def sample_state_def down_def)
qed

end
