(* ===== verification/Pod_Network.thy ===== *)
theory Pod_Network
  imports Go_Net
begin

text \<open>
  pkg/networking/ip.go: how the NRI plugin finds the host side of a pod's network interface and the
  pod's addresses, from the listings of \<^verbatim>\<open>ip\<close> run inside and outside the pod's namespace.  Commands,
  and the interfaces of the node, belong to the environment and are parameters; package strconv's
  \<^verbatim>\<open>Atoi\<close> and filepath's \<^verbatim>\<open>Base\<close> are modelled.

  Shown: the parser of the link listing finds the peer index of the first interface that has one, the
  index fits a Go int, the addresses discovered for a pod are no loopback and (for IPv6) no
  link-local addresses, and a namespace whose name begins with the one looked for can be taken for it.
\<close>

subsection \<open>Standard library\<close>

definition digits_value :: "string \<Rightarrow> int" where
  "digits_value s = foldl (\<lambda>n c. 10 * n + (of_char c - 48)) 0 s"

text \<open>\<^verbatim>\<open>strconv.Atoi\<close> for 64-bit ints: an optional sign, decimal digits, and a range check.\<close>

definition atoi :: "string \<Rightarrow> int option" where
  "atoi s =
     (let neg = has_prefix s ''-'';
          ds = (if has_prefix s ''-'' \<or> has_prefix s ''+'' then drop 1 s else s);
          v = (if neg then - digits_value ds else digits_value ds)
      in if ds = [] \<or> \<not> list_all is_digit ds then None
         else if v < - (2 ^ 63) \<or> 2 ^ 63 \<le> v then None
         else Some v)"

text \<open>\<^verbatim>\<open>filepath.Base\<close>\<close>

definition path_base :: "string \<Rightarrow> string" where
  "path_base p =
     (if p = [] then ''.''
      else let q = trim_right_if (\<lambda>c. c = CHR ''/'') p in
           if q = [] then ''/'' else last (split_on q ''/''))"

fun first_some :: "('a \<Rightarrow> 'b option) \<Rightarrow> 'a list \<Rightarrow> 'b option" where
  "first_some f [] = None"
| "first_some f (x # xs) = (case f x of Some y \<Rightarrow> Some y | None \<Rightarrow> first_some f xs)"

definition lines :: "string \<Rightarrow> string list" where
  "lines s = split_on s [CHR 10]"

text \<open>\<^verbatim>\<open>exec.Command(...).CombinedOutput()\<close>\<close>

datatype exec_result = ExecOK string | ExecNotFound | ExecFailed string

datatype NetError =
    NoPeerInterface
  | CommandFailed string exec_result
  | NoHostInterface string

subsection \<open>Parsing the listings\<close>

definition name_field :: "string list \<Rightarrow> string" where
  "name_field fs = trim_suffix (fs ! 1) '':''"

definition is_lo :: "string \<Rightarrow> bool" where
  "is_lo name \<longleftrightarrow> name = ''lo'' \<or> has_prefix name ''lo@''"

definition peer_of_line :: "string \<Rightarrow> int option" where
  "peer_of_line l =
     (let line = trim_space l in
      if line = [] then None
      else let fs = fields line in
           if length fs < 2 then None
           else let nameField = name_field fs in
                if is_lo nameField then None
                else case index_of nameField ''@if'' of
                       None \<Rightarrow> None
                     | Some idx \<Rightarrow>
                         (case atoi (drop (idx + 3) nameField) of
                            Some pIdx \<Rightarrow> if pIdx > 0 then Some pIdx else None
                          | None \<Rightarrow> None))"

definition ParsePeerIndex :: "string \<Rightarrow> NetError + int" where
  "ParsePeerIndex output =
     (case first_some peer_of_line (lines output) of Some n \<Rightarrow> Inr n | None \<Rightarrow> Inl NoPeerInterface)"

fun cidr_after :: "string \<Rightarrow> (bytes \<Rightarrow> bool) \<Rightarrow> string list \<Rightarrow> bytes option" where
  "cidr_after kw ok (f # g # fs) =
     (case (if f = kw then parse_cidr g else None) of
        Some ip \<Rightarrow> if ok ip then Some ip else cidr_after kw ok (g # fs)
      | None \<Rightarrow> cidr_after kw ok (g # fs))"
| "cidr_after kw ok _ = None"

definition ipv4_of_line :: "string \<Rightarrow> bytes option" where
  "ipv4_of_line line =
     (let fs = fields line in
      if 2 \<le> length fs \<and> is_lo (name_field fs) then None
      else cidr_after ''inet'' (\<lambda>ip. \<not> is_loopback ip) fs)"

definition ParsePodIPv4 :: "string \<Rightarrow> string" where
  "ParsePodIPv4 output =
     (case first_some ipv4_of_line (lines output) of Some ip \<Rightarrow> ip_string ip | None \<Rightarrow> [])"

definition ParsePodIPv6 :: "string \<Rightarrow> string" where
  "ParsePodIPv6 output =
     (case first_some
             (\<lambda>line. cidr_after ''inet6'' (\<lambda>ip. \<not> is_loopback ip \<and> \<not> is_link_local_unicast ip) (fields line))
             (lines output) of
        Some ip \<Rightarrow> ip_string ip
      | None \<Rightarrow> [])"

definition host_iface_of_line :: "string \<Rightarrow> string \<Rightarrow> string option" where
  "host_iface_of_line base line =
     (if \<not> contains line (''link-netns '' @ base) then None
      else let fs = fields line in
           if length fs < 2 then None
           else let rawName = trim_suffix (fs ! 1) '':'';
                    name = (case index_of rawName ''@'' of Some i \<Rightarrow> take i rawName | None \<Rightarrow> rawName)
                in if name \<noteq> [] \<and> name \<noteq> ''lo'' then Some name else None)"

definition ParseHostInterfaceFromHostLinks :: "string \<Rightarrow> string \<Rightarrow> string" where
  "ParseHostInterfaceFromHostLinks output base =
     (case first_some (host_iface_of_line base) (lines output) of Some name \<Rightarrow> name | None \<Rightarrow> [])"

subsection \<open>Discovery\<close>

record 'w host_env =
  he_exec :: "string \<Rightarrow> string list \<Rightarrow> 'w \<Rightarrow> exec_result \<times> 'w"
  he_ifname :: "int \<Rightarrow> 'w \<Rightarrow> string option"
  he_ifaddrs :: "'w \<Rightarrow> bytes option list option"

definition take_pod_ip :: "string \<Rightarrow> string \<times> string \<Rightarrow> string \<times> string" where
  "take_pod_ip s ips =
     (case parse_ip s of
        None \<Rightarrow> ips
      | Some ip \<Rightarrow>
          if is_loopback ip \<or> is_link_local_unicast ip then ips
          else if ip_to4 ip \<noteq> None \<and> fst ips = [] then (s, snd ips)
          else if ip_to4 ip = None \<and> snd ips = [] then (fst ips, s)
          else ips)"

definition nsenter_addr :: "'w host_env \<Rightarrow> string \<Rightarrow> string \<Rightarrow> (string \<Rightarrow> string) \<Rightarrow> string \<Rightarrow> 'w \<Rightarrow> (NetError + string) \<times> 'w" where
  "nsenter_addr env netnsPath flag parse known w =
     (if known \<noteq> [] then (Inr known, w)
      else case he_exec env ''nsenter'' [''--net='' @ netnsPath, ''ip'', ''-o'', flag, ''addr'', ''show''] w of
             (ExecOK out, w1) \<Rightarrow> (Inr (parse out), w1)
           | (res, w1) \<Rightarrow> (Inl (CommandFailed ''nsenter ip addr show'' res), w1))"

definition DiscoverPodIPs :: "'w host_env \<Rightarrow> string list \<Rightarrow> string \<Rightarrow> 'w \<Rightarrow> (NetError + string \<times> string) \<times> 'w" where
  "DiscoverPodIPs env podIPs netnsPath w =
     (let (podIPv4, podIPv6) = fold take_pod_ip podIPs ([], []) in
      if (podIPv4 = [] \<or> podIPv6 = []) \<and> netnsPath \<noteq> [] then
        (case nsenter_addr env netnsPath ''-4'' ParsePodIPv4 podIPv4 w of
           (Inl e, w1) \<Rightarrow> (Inl e, w1)
         | (Inr ip4, w1) \<Rightarrow>
             (case nsenter_addr env netnsPath ''-6'' ParsePodIPv6 podIPv6 w1 of
                (Inl e, w2) \<Rightarrow> (Inl e, w2)
              | (Inr ip6, w2) \<Rightarrow> (Inr (ip4, ip6), w2)))
      else (Inr (podIPv4, podIPv6), w))"

definition node_ipv6 :: "bytes option \<Rightarrow> string option" where
  "node_ipv6 addr =
     (case addr of
        None \<Rightarrow> None
      | Some ip \<Rightarrow>
          if ip_to4 ip = None \<and> length ip = 16 \<and> \<not> is_loopback ip \<and> \<not> is_link_local_unicast ip
          then Some (ip_string ip) else None)"

definition DiscoverNodeIPv6 :: "'w host_env \<Rightarrow> 'w \<Rightarrow> string \<times> 'w" where
  "DiscoverNodeIPv6 env w =
     (let (res, w1) = he_exec env ''ip'' [''-o'', ''-6'', ''addr'', ''show'', ''scope'', ''global''] w;
          ip = (case res of ExecOK out \<Rightarrow> ParsePodIPv6 out | _ \<Rightarrow> [])
      in if ip \<noteq> [] then (ip, w1)
         else case he_ifaddrs env w1 of
                None \<Rightarrow> ([], w1)
              | Some addrs \<Rightarrow> ((case first_some node_ipv6 addrs of Some s \<Rightarrow> s | None \<Rightarrow> []), w1))"

definition iface_by_peer :: "'w host_env \<Rightarrow> string \<Rightarrow> 'w \<Rightarrow> string" where
  "iface_by_peer env out w =
     (case ParsePeerIndex out of
        Inr peerIndex \<Rightarrow> if peerIndex > 0 then (case he_ifname env peerIndex w of Some name \<Rightarrow> name | None \<Rightarrow> []) else []
      | Inl _ \<Rightarrow> [])"

definition iface_by_links :: "'w host_env \<Rightarrow> string \<Rightarrow> 'w \<Rightarrow> string \<times> 'w" where
  "iface_by_links env netnsPath w =
     (case he_exec env ''ip'' [''-o'', ''link'', ''show''] w of
        (ExecOK hOut, w1) \<Rightarrow> (ParseHostInterfaceFromHostLinks hOut (path_base netnsPath), w1)
      | (_, w1) \<Rightarrow> ([], w1))"

definition FindHostInterface :: "'w host_env \<Rightarrow> string list \<Rightarrow> string \<Rightarrow> 'w \<Rightarrow> (NetError + string \<times> string) \<times> 'w" where
  "FindHostInterface env podIPs netnsPath w =
     (case he_exec env ''nsenter'' [''--net='' @ netnsPath, ''ip'', ''-o'', ''link'', ''show''] w of
        (ExecOK out, w1) \<Rightarrow>
          let peer = iface_by_peer env out w1;
              (hostIface, w2) = (if peer = [] then iface_by_links env netnsPath w1 else (peer, w1))
          in if hostIface = [] then (Inl (NoHostInterface netnsPath), w2)
             else (case DiscoverPodIPs env podIPs netnsPath w2 of
                     (Inl e, w3) \<Rightarrow> (Inl e, w3)
                   | (Inr (podIPv4, _), w3) \<Rightarrow> (Inr (hostIface, podIPv4), w3))
      | (res, w1) \<Rightarrow> (Inl (CommandFailed ''nsenter ip link show'' res), w1))"

subsection \<open>What the parsers find\<close>

lemma first_some_Some: "first_some f xs = Some y \<Longrightarrow> \<exists>x\<in>set xs. f x = Some y"
  by (induction xs) (auto split: option.splits)

lemma first_some_append:
  "first_some f (xs @ ys) = (case first_some f xs of Some y \<Rightarrow> Some y | None \<Rightarrow> first_some f ys)"
  by (induction xs) (auto split: option.splits)

lemma first_some_map_find:
  assumes "\<And>x. x \<in> set xs \<Longrightarrow> f (g x) = (if P x then Some (h x) else None)"
  shows "first_some f (map g xs) = map_option h (find P xs)"
  using assms by (induction xs) auto

lemma digits_value_snoc: "digits_value (s @ [c]) = 10 * digits_value s + (of_char c - 48)"
  by (simp add: digits_value_def)

lemma dec_str_digits: "dec_str n \<noteq> [] \<and> list_all is_digit (dec_str n)"
proof (induction n rule: dec_str.induct)
  case (1 n)
  have "is_digit (char_of (48 + k))" if "k < 10" for k :: nat
    using that by (simp add: is_digit_def Let_def)
  with 1 show ?case by (cases "n < 10") (simp_all add: dec_str.simps [of n])
qed

lemma dec_str_value: "digits_value (dec_str n) = int n"
proof (induction n rule: dec_str.induct)
  case (1 n)
  have d: "of_char (char_of (48 + k) :: char) - 48 = int k" if "k < 10" for k :: nat
    using that by (subst of_nat_of_char [symmetric]) simp
  show ?case
  proof (cases "n < 10")
    case True
    then show ?thesis using d [OF True] by (simp add: dec_str.simps [of n] digits_value_def)
  next
    case False
    moreover have "10 * int (n div 10) + int (n mod 10) = int n" by (simp add: zdiv_int zmod_int)
    ultimately show ?thesis
      using 1 d [of "n mod 10"] by (simp add: dec_str.simps [of n] digits_value_snoc)
  qed
qed

lemma digit_free: "list_all is_digit s \<Longrightarrow> c \<in> set s \<Longrightarrow> \<not> is_space c \<and> c \<noteq> CHR ''-'' \<and> c \<noteq> CHR ''+''"
  by (auto simp: list_all_iff is_digit_def is_space_def Let_def)

lemma atoi_dec_str: "n < 2 ^ 63 \<Longrightarrow> atoi (dec_str n) = Some (int n)"
proof -
  assume n: "n < 2 ^ 63"
  obtain c s where s: "dec_str n = c # s" using dec_str_digits [of n] by (cases "dec_str n") auto
  then have "c \<noteq> CHR ''-''" "c \<noteq> CHR ''+''" using digit_free [of "dec_str n" c] dec_str_digits [of n] by auto
  moreover have "int n < 2 ^ 63" using n by (metis of_nat_less_numeral_power_cancel_iff)
  ultimately show ?thesis
    using dec_str_digits [of n] dec_str_value [of n] s by (simp add: atoi_def has_prefix_def)
qed

lemma atoi_range: "atoi s = Some v \<Longrightarrow> v < 2 ^ 63"
  by (auto simp: atoi_def Let_def split: if_splits)

lemma index_of_fresh: "c \<notin> set s \<Longrightarrow> index_of (s @ c # t) (c # p) = map_option (\<lambda>i. length s + i) (index_of (c # t) (c # p))"
  by (induction s) (auto simp: has_prefix_def map_option.compositionality comp_def)

lemma index_of_absent: "c \<notin> set s \<Longrightarrow> index_of s (c # p) = None"
  by (induction s) (auto simp: has_prefix_def)

text \<open>The listing of \<^verbatim>\<open>ip -o link show\<close>: one interface per line, with the index of its peer.\<close>

record link =
  ln_index :: nat
  ln_name :: string
  ln_peer :: "nat option"
  ln_rest :: string

definition link_name :: "link \<Rightarrow> string" where
  "link_name l = ln_name l @ (case ln_peer l of Some n \<Rightarrow> ''@if'' @ dec_str n | None \<Rightarrow> [])"

definition print_link :: "link \<Rightarrow> string" where
  "print_link l = dec_str (ln_index l) @ '':'' @ '' '' @ link_name l @ '':'' @ '' '' @ ln_rest l"

definition print_links :: "link list \<Rightarrow> string" where
  "print_links ls = join_with [CHR 10] (map print_link ls @ [[]])"

definition link_ok :: "link \<Rightarrow> bool" where
  "link_ok l \<longleftrightarrow> ln_name l \<noteq> [] \<and> list_all (\<lambda>c. \<not> is_space c \<and> c \<noteq> CHR ''@'') (ln_name l) \<and>
     CHR 10 \<notin> set (ln_rest l) \<and> (case ln_peer l of Some n \<Rightarrow> 0 < n \<and> n < 2 ^ 63 | None \<Rightarrow> True)"

definition peered :: "link \<Rightarrow> bool" where
  "peered l \<longleftrightarrow> ln_name l \<noteq> ''lo'' \<and> ln_peer l \<noteq> None"

lemma print_link_fields:
  assumes "link_ok l"
  shows "Portal_Prelude.fields (print_link l) = (dec_str (ln_index l) @ '':'') # (link_name l @ '':'') # Portal_Prelude.fields (ln_rest l)"
proof -
  have w: "is_space CHR '' ''" "\<not> is_space CHR '':''" by code_simp+
  have at: "\<forall>c\<in>set ''@if''. \<not> is_space c" by code_simp
  have d: "\<forall>c\<in>set (dec_str n). \<not> is_space c" for n using digit_free dec_str_digits by blast
  have n: "\<forall>c\<in>set (link_name l). \<not> is_space c"
    using assms at d by (auto simp: link_name_def link_ok_def list_all_iff split: option.splits)
  have "print_link l = (dec_str (ln_index l) @ '':'') @ CHR '' '' # (link_name l @ '':'') @ CHR '' '' # ln_rest l"
    by (simp add: print_link_def)
  moreover have "Portal_Prelude.fields (dec_str (ln_index l) @ '':'') = [dec_str (ln_index l) @ '':'']"
    "Portal_Prelude.fields (link_name l @ '':'') = [link_name l @ '':'']"
    using d n w(2) by (intro fields_word; auto)+
  ultimately show ?thesis by (simp only: fields_append_space [OF w(1)]) simp
qed

lemma link_name_lo:
  assumes "link_ok l"
  shows "is_lo (link_name l) \<longleftrightarrow> ln_name l = ''lo''"
proof
  assume "is_lo (link_name l)"
  then consider "link_name l = ''lo''" | r where "link_name l = ''lo@'' @ r"
    by (auto simp: is_lo_def has_prefix_iff)
  then show "ln_name l = ''lo''"
  proof cases
    case 1
    then show ?thesis by (cases "ln_peer l") (auto simp: link_name_def append_eq_Cons_conv)
  next
    case 2
    have "takeWhile (\<lambda>c. c \<noteq> CHR ''@'') (ln_name l) = ln_name l"
      using assms by (simp add: link_ok_def list_all_iff)
    then have "takeWhile (\<lambda>c. c \<noteq> CHR ''@'') (link_name l) = ln_name l"
      using assms by (cases "ln_peer l") (simp_all add: link_name_def link_ok_def list_all_iff)
    then show ?thesis by (simp add: 2)
  qed
next
  assume "ln_name l = ''lo''"
  then show "is_lo (link_name l)" by (auto simp: is_lo_def link_name_def has_prefix_def split: option.splits)
qed

lemma peer_of_print_link:
  assumes "link_ok l"
  shows "peer_of_line (print_link l) = (if peered l then Some (int (the (ln_peer l))) else None)"
proof -
  have f: "Portal_Prelude.fields (trim_space (print_link l)) =
      (dec_str (ln_index l) @ '':'') # (link_name l @ '':'') # Portal_Prelude.fields (ln_rest l)"
    by (simp add: fields_trim_space print_link_fields [OF assms])
  then have ne: "trim_space (print_link l) \<noteq> []" by auto
  have at: "CHR ''@'' \<notin> set (ln_name l)" using assms by (auto simp: link_ok_def list_all_iff)
  have nf: "name_field ((dec_str (ln_index l) @ '':'') # (link_name l @ '':'') # fs) = link_name l" for fs
    by (simp add: name_field_def)
  show ?thesis
  proof (cases "ln_peer l")
    case None
    then have "index_of (link_name l) ''@if'' = None" using at by (simp add: link_name_def index_of_absent)
    then show ?thesis using f ne nf None by (simp add: peer_of_line_def peered_def Let_def)
  next
    case (Some n)
    then have i: "index_of (link_name l) ''@if'' = Some (length (ln_name l))"
      and dr: "drop (length (ln_name l) + 3) (link_name l) = dec_str n"
      using at by (simp_all add: link_name_def index_of_fresh has_prefix_def)
    moreover have "0 < n" "n < 2 ^ 63" using assms Some by (simp_all add: link_ok_def)
    ultimately show ?thesis
      using f ne nf Some link_name_lo [OF assms] atoi_dec_str [of n] by (simp add: peer_of_line_def peered_def Let_def)
  qed
qed

lemma print_link_line:
  assumes "link_ok l"
  shows "CHR 10 \<notin> set (print_link l)"
proof -
  have s: "is_space CHR 10" by code_simp
  then have "CHR 10 \<notin> set (dec_str n)" for n using digit_free dec_str_digits by blast
  then show ?thesis
    using assms s by (auto simp: print_link_def link_name_def link_ok_def list_all_iff split: option.splits)
qed

lemma parse_print_links:
  assumes "list_all link_ok ls"
  shows "ParsePeerIndex (print_links ls) =
    (case find peered ls of Some l \<Rightarrow> Inr (int (the (ln_peer l))) | None \<Rightarrow> Inl NoPeerInterface)"
proof -
  have "lines (print_links ls) = map print_link ls @ [[]]"
    unfolding lines_def print_links_def using assms
    by (intro split_join_single) (auto simp: list_all_iff print_link_line)
  moreover have "first_some peer_of_line (map print_link ls) = map_option (\<lambda>l. int (the (ln_peer l))) (find peered ls)"
    using assms by (intro first_some_map_find) (simp add: list_all_iff peer_of_print_link)
  moreover have "peer_of_line [] = None" by code_simp
  ultimately show ?thesis
    by (simp add: ParsePeerIndex_def first_some_append split: option.splits)
qed

subsection \<open>Properties\<close>

text \<open>
  The peer index that leads to the host side of a pod's interface is found: on the
  listing of \<^verbatim>\<open>ip -o link show\<close> for any interfaces, ParsePeerIndex gives the peer of the first one
  besides the loopback that has a peer, and an error if there is none.
\<close>

theorem peer_index_round_trip:
  assumes "list_all link_ok ls"
  shows "ParsePeerIndex (print_links ls) =
    (case find peered ls of Some l \<Rightarrow> Inr (int (the (ln_peer l))) | None \<Rightarrow> Inl NoPeerInterface)"
  by (rule parse_print_links [OF assms])

definition sample_links :: "link list" where
  "sample_links =
     [\<lparr>ln_index = 1, ln_name = ''lo'', ln_peer = None, ln_rest = ''<LOOPBACK,UP> mtu 65536''\<rparr>,
      \<lparr>ln_index = 3, ln_name = ''eth0'', ln_peer = Some 17, ln_rest = ''<BROADCAST,UP> mtu 1500''\<rparr>]"

theorem peer_index_round_trip_witness:
  "ParsePeerIndex (print_links sample_links) = Inr 17"
  using peer_index_round_trip [of sample_links]
  by (simp add: sample_links_def link_ok_def peered_def is_space_def)

text \<open>
  Claim C37. A peer index is always positive and fits a signed 64-bit int, whatever the listing: the
  range check of \<^verbatim>\<open>strconv.Atoi\<close> and the sign check exclude every other value.
\<close>

theorem peer_index_bounds:
  assumes "ParsePeerIndex output = Inr n"
  shows "0 < n \<and> n < 2 ^ 63"
proof -
  obtain l where "peer_of_line l = Some n"
    using assms by (auto simp: ParsePeerIndex_def split: option.splits dest: first_some_Some)
  then show ?thesis
    by (auto simp: peer_of_line_def Let_def dest: atoi_range split: if_splits option.splits)
qed

theorem peer_index_bounds_witness:
  "ParsePeerIndex ''2: eth0@if9223372036854775807: <UP>'' = Inr 9223372036854775807 \<and> (0 :: int) < 9223372036854775807 \<and>
   ParsePeerIndex ''2: eth0@if9223372036854775808: <UP>'' = Inl NoPeerInterface"
proof -
  have p: "ParsePeerIndex ''2: eth0@if9223372036854775807: <UP>'' = Inr 9223372036854775807" by code_simp
  have "ParsePeerIndex ''2: eth0@if9223372036854775808: <UP>'' = Inl NoPeerInterface" by code_simp
  then show ?thesis using p peer_index_bounds [OF p] by blast
qed

text \<open>The addresses: which of the addresses the runtime reports is taken.\<close>

definition usable :: "(bytes \<Rightarrow> bool) \<Rightarrow> string \<Rightarrow> bool" where
  "usable fam s \<longleftrightarrow>
     (case parse_ip s of Some ip \<Rightarrow> fam ip \<and> \<not> is_loopback ip \<and> \<not> is_link_local_unicast ip | None \<Rightarrow> False)"

definition first_usable :: "(bytes \<Rightarrow> bool) \<Rightarrow> string list \<Rightarrow> string" where
  "first_usable fam ips = (case find (usable fam) ips of Some s \<Rightarrow> s | None \<Rightarrow> [])"

abbreviation is_v4 :: "bytes \<Rightarrow> bool" where
  "is_v4 ip \<equiv> ip_to4 ip \<noteq> None"

abbreviation is_v6 :: "bytes \<Rightarrow> bool" where
  "is_v6 ip \<equiv> ip_to4 ip = None"

lemma usable_nonempty: "usable fam s \<Longrightarrow> s \<noteq> []"
  by (auto simp: usable_def parse_ip_def)

lemma fold_take_pod_ip:
  "fold take_pod_ip ips (a, b) =
     ((if a = [] then first_usable is_v4 ips else a), (if b = [] then first_usable is_v6 ips else b))"
proof (induction ips arbitrary: a b)
  case Nil
  then show ?case by (simp add: first_usable_def)
next
  case (Cons s ips)
  have ne: "parse_ip s \<noteq> None \<Longrightarrow> s \<noteq> []" by (auto simp: parse_ip_def)
  have "take_pod_ip s (a, b) = ((if a = [] \<and> usable is_v4 s then s else a), (if b = [] \<and> usable is_v6 s then s else b))"
    by (auto simp: take_pod_ip_def usable_def split: option.splits)
  then show ?case using Cons ne by (auto simp: first_usable_def usable_def split: option.splits)
qed

lemma cidr_after_ok: "cidr_after kw ok fs = Some ip \<Longrightarrow> ok ip"
  by (induction kw ok fs rule: cidr_after.induct) (auto split: option.splits if_splits)

lemma ParsePodIPv4_ok:
  assumes "ParsePodIPv4 out \<noteq> []"
  shows "\<exists>ip. ParsePodIPv4 out = ip_string ip \<and> \<not> is_loopback ip"
proof -
  obtain ip l where ip: "ParsePodIPv4 out = ip_string ip" "ipv4_of_line l = Some ip"
    using assms by (auto simp: ParsePodIPv4_def split: option.splits dest!: first_some_Some)
  from ip(2) have "cidr_after ''inet'' (\<lambda>ip. \<not> is_loopback ip) (Portal_Prelude.fields l) = Some ip"
    by (simp add: ipv4_of_line_def Let_def split: if_splits)
  then show ?thesis using ip(1) cidr_after_ok by blast
qed

lemma ParsePodIPv6_ok:
  assumes "ParsePodIPv6 out \<noteq> []"
  shows "\<exists>ip. ParsePodIPv6 out = ip_string ip \<and> \<not> is_loopback ip \<and> \<not> is_link_local_unicast ip"
  using assms by (auto simp: ParsePodIPv6_def split: option.splits dest!: first_some_Some cidr_after_ok)

lemma nsenter_addr_known:
  assumes "nsenter_addr env ns flag parse known w = (Inr ip, w')"
  shows "if known \<noteq> [] then ip = known \<and> w' = w else \<exists>out. ip = parse out"
  using assms by (auto simp: nsenter_addr_def split: if_splits prod.splits exec_result.splits)

text \<open>
  Claim C36. The addresses found for a pod are usable ones: an address that the runtime reports is
  taken, the first of its family that is neither loopback nor link-local; only if there is none the
  namespace is asked, and what it gives is empty or no loopback address, and for IPv6 no link-local
  one either.
\<close>

theorem discovered_addresses:
  assumes "DiscoverPodIPs env ips netnsPath w = (Inr (v4, v6), w')"
  shows "(if first_usable is_v4 ips \<noteq> [] then v4 = first_usable is_v4 ips
          else v4 = [] \<or> (\<exists>ip. v4 = ip_string ip \<and> \<not> is_loopback ip)) \<and>
         (if first_usable is_v6 ips \<noteq> [] then v6 = first_usable is_v6 ips
          else v6 = [] \<or> (\<exists>ip. v6 = ip_string ip \<and> \<not> is_loopback ip \<and> \<not> is_link_local_unicast ip))"
proof -
  let ?a = "first_usable is_v4 ips" and ?b = "first_usable is_v6 ips"
  have f: "fold take_pod_ip ips ([], []) = (?a, ?b)" by (simp add: fold_take_pod_ip)
  show ?thesis
  proof (cases "(?a = [] \<or> ?b = []) \<and> netnsPath \<noteq> []")
    case False
    then show ?thesis using assms by (auto simp: DiscoverPodIPs_def f)
  next
    case True
    obtain w1 where "nsenter_addr env netnsPath ''-4'' ParsePodIPv4 ?a w = (Inr v4, w1)"
      "nsenter_addr env netnsPath ''-6'' ParsePodIPv6 ?b w1 = (Inr v6, w')"
      using assms True by (auto simp: DiscoverPodIPs_def f split: prod.splits sum.splits)
    note n = this [THEN nsenter_addr_known]
    have "v4 = ?a" if "?a \<noteq> []" using n(1) that by simp
    moreover have "v6 = ?b" if "?b \<noteq> []" using n(2) that by simp
    moreover have "\<exists>out. v4 = ParsePodIPv4 out" if "?a = []" using n(1) that by simp
    moreover have "\<exists>out. v6 = ParsePodIPv6 out" if "?b = []" using n(2) that by simp
    ultimately show ?thesis using ParsePodIPv4_ok ParsePodIPv6_ok by (auto split: if_splits)
  qed
qed

definition sample_host :: "unit host_env" where
  "sample_host =
     \<lparr>he_exec = (\<lambda>bin args w.
        (if ''link'' \<in> set args then ExecOK (print_links sample_links)
         else if ''-6'' \<in> set args then ExecOK []
         else ExecOK ''2: eth0 inet 10.8.0.4/24 scope global eth0'', w)),
      he_ifname = (\<lambda>n w. if n = 17 then Some ''veth17'' else None), he_ifaddrs = (\<lambda>w. None)\<rparr>"

theorem discovered_addresses_witness:
  "DiscoverPodIPs sample_host [''127.0.0.1''] ''/run/netns/a'' () = (Inr (''10.8.0.4'', []), ()) \<and>
   (\<exists>ip. ''10.8.0.4'' = ip_string ip \<and> \<not> is_loopback ip)"
proof -
  have d: "DiscoverPodIPs sample_host [''127.0.0.1''] ''/run/netns/a'' () = (Inr (''10.8.0.4'', []), ())" by code_simp
  have "first_usable is_v4 [''127.0.0.1''] = []" by code_simp
  then show ?thesis using d discovered_addresses [OF d] by simp
qed

text \<open>
  The host interface is the peer's: when the pod's interfaces are listed, the node knows
  the interface with the first peer index and the pod's addresses can be found, FindHostInterface
  returns the name of that interface, and never an empty name.
\<close>

theorem host_interface_found:
  assumes "he_exec env ''nsenter'' [''--net='' @ netnsPath, ''ip'', ''-o'', ''link'', ''show''] w = (ExecOK (print_links ls), w1)"
    and "list_all link_ok ls" and "find peered ls = Some l" and "he_ifname env (int (the (ln_peer l))) w1 = Some name"
    and "name \<noteq> []" and "DiscoverPodIPs env ips netnsPath w1 = (Inr (v4, v6), w2)"
  shows "FindHostInterface env ips netnsPath w = (Inr (name, v4), w2)"
proof -
  have p: "ParsePeerIndex (print_links ls) = Inr (int (the (ln_peer l)))"
    by (simp add: parse_print_links [OF assms(2)] assms(3))
  have "l \<in> set ls" "peered l" using assms(3) by (auto simp: find_Some_iff)
  then have "0 < the (ln_peer l)" using assms(2) by (auto simp: list_all_iff link_ok_def peered_def split: option.splits)
  then have "iface_by_peer env (print_links ls) w1 = name" using p assms(4) by (simp add: iface_by_peer_def)
  then show ?thesis using assms(1,5,6) by (simp add: FindHostInterface_def)
qed

theorem host_interface_found_witness:
  "FindHostInterface sample_host [''10.8.0.4''] ''/run/netns/a'' () = (Inr (''veth17'', ''10.8.0.4''), ())"
proof -
  have d: "DiscoverPodIPs sample_host [''10.8.0.4''] ''/run/netns/a'' () = (Inr (''10.8.0.4'', []), ())"
    by code_simp
  show ?thesis
    by (rule host_interface_found [of _ _ _ sample_links _ "sample_links ! 1", OF _ _ _ _ _ d])
       (simp_all add: sample_host_def sample_links_def link_ok_def peered_def is_space_def)
qed

lemma find_host_interface_nonempty:
  "FindHostInterface env ips netnsPath w = (Inr (name, ip), w') \<Longrightarrow> name \<noteq> []"
  by (auto simp: FindHostInterface_def Let_def split: prod.splits exec_result.splits if_splits sum.splits)

text \<open>
  The fallback compares by substring: a line whose namespace only begins with the name that is looked
  for matches as well, and the first match is taken.
\<close>

lemma link_netns_prefix:
  "ParseHostInterfaceFromHostLinks
     (''5: veth5@if2: <UP> link-netns pod-12'' @ [CHR 10] @ ''6: veth6@if2: <UP> link-netns pod-1'') ''pod-1'' = ''veth5''"
  by code_simp

end
