(* ===== verification/Pod_Firewall.thy ===== *)
theory Pod_Firewall
  imports Pod_Network
begin

text \<open>
  cmd/portal-nri-plugin/main.go, lines 206 to 317: the netfilter rules that send a pod's traffic to
  the node proxy, and how they are installed and removed by running iptables and ip6tables.  The two
  programs and the kernel are not part of the repository: running a command is a parameter, and
  \<open>runs_netfilter\<close> states what iptables(8) documents about it, for a view of the tables.  The
  meaning of the rules for a packet is that of iptables(8) and iptables-extensions(8), as
  \<open>nf_verdict\<close>.

  Shown: installing the rules succeeds on any tables and then the traffic of that interface is
  accepted only towards the proxy (and redirected there for HTTP, HTTPS and DNS), installation and removal for
  other interfaces do not change that, removal undoes installation, and removal fails where nothing
  was installed.
\<close>

subsection \<open>The rules\<close>

definition pr_chain :: "string \<Rightarrow> string" where
  "pr_chain hostIface = ''PORTAL_PR_'' @ hostIface"

definition eg_chain :: "string \<Rightarrow> string" where
  "eg_chain hostIface = ''PORTAL_EG_'' @ hostIface"

definition jump_spec :: "string \<Rightarrow> string \<Rightarrow> string list" where
  "jump_spec hostIface chain = [''-i'', hostIface, ''-j'', chain]"

definition nat_rules :: "string \<Rightarrow> string \<Rightarrow> string \<Rightarrow> string \<Rightarrow> string list list" where
  "nat_rules proxyHost proxyPort proxyHTTPSPort proxyDNSPort =
     [[''-p'', ''tcp'', ''--dport'', ''80'', ''-j'', ''DNAT'', ''--to-destination'', join_host_port proxyHost proxyPort],
      [''-p'', ''tcp'', ''--dport'', ''443'', ''-j'', ''DNAT'', ''--to-destination'', join_host_port proxyHost proxyHTTPSPort],
      [''-p'', ''udp'', ''--dport'', ''53'', ''-j'', ''DNAT'', ''--to-destination'', join_host_port proxyHost proxyDNSPort],
      [''-p'', ''tcp'', ''--dport'', ''53'', ''-j'', ''DNAT'', ''--to-destination'', join_host_port proxyHost proxyDNSPort]]"

definition icmp_rules :: "bool \<Rightarrow> string list list" where
  "icmp_rules isIPv6 =
     (if isIPv6
      then map (\<lambda>icmpType. [''-p'', ''ipv6-icmp'', ''--icmpv6-type'', icmpType, ''-j'', ''ACCEPT''])
             [''1'', ''2'', ''3'', ''4'', ''133'', ''135'', ''136'']
      else [])"

definition proxy_rules :: "string \<Rightarrow> string \<Rightarrow> string \<Rightarrow> string \<Rightarrow> string list list" where
  "proxy_rules proxyHost proxyPort proxyHTTPSPort proxyDNSPort =
     [[''-d'', proxyHost, ''-p'', ''tcp'', ''--dport'', proxyPort, ''-j'', ''ACCEPT''],
      [''-d'', proxyHost, ''-p'', ''tcp'', ''--dport'', proxyHTTPSPort, ''-j'', ''ACCEPT''],
      [''-d'', proxyHost, ''-p'', ''udp'', ''--dport'', proxyDNSPort, ''-j'', ''ACCEPT''],
      [''-d'', proxyHost, ''-p'', ''tcp'', ''--dport'', proxyDNSPort, ''-j'', ''ACCEPT'']]"

definition reject_rules :: "bool \<Rightarrow> string list list" where
  "reject_rules isIPv6 =
     (let rejectTarget = (if isIPv6 then ''icmp6-port-unreachable'' else ''icmp-port-unreachable'') in
      [[''-p'', ''tcp'', ''-j'', ''REJECT'', ''--reject-with'', rejectTarget],
       [''-p'', ''udp'', ''-j'', ''REJECT'', ''--reject-with'', rejectTarget],
       [''-j'', ''REJECT'', ''--reject-with'', rejectTarget]])"

definition buildHostNetfilterRules :: "bool \<Rightarrow> string \<Rightarrow> string \<Rightarrow> string \<Rightarrow> string \<Rightarrow> string \<Rightarrow> string list list" where
  "buildHostNetfilterRules isIPv6 hostIface proxyHost proxyPort proxyHTTPSPort dnsPort =
     (let proxyDNSPort = (if dnsPort = [] then ''53'' else dnsPort);
          prChain = pr_chain hostIface;
          egChain = eg_chain hostIface
      in [[''-t'', ''nat'', ''-N'', prChain],
          [''-t'', ''nat'', ''-F'', prChain],
          [''-t'', ''nat'', ''-D'', ''PREROUTING''] @ jump_spec hostIface prChain,
          [''-t'', ''nat'', ''-I'', ''PREROUTING'', ''1''] @ jump_spec hostIface prChain] @
         map ((@) [''-t'', ''nat'', ''-A'', prChain]) (nat_rules proxyHost proxyPort proxyHTTPSPort proxyDNSPort) @
         [[''-t'', ''filter'', ''-N'', egChain],
          [''-t'', ''filter'', ''-F'', egChain],
          [''-t'', ''filter'', ''-D'', ''INPUT''] @ jump_spec hostIface egChain,
          [''-t'', ''filter'', ''-I'', ''INPUT'', ''1''] @ jump_spec hostIface egChain,
          [''-t'', ''filter'', ''-D'', ''FORWARD''] @ jump_spec hostIface egChain,
          [''-t'', ''filter'', ''-I'', ''FORWARD'', ''1''] @ jump_spec hostIface egChain] @
         map ((@) [''-t'', ''filter'', ''-A'', egChain])
           ([''-m'', ''conntrack'', ''--ctstate'', ''ESTABLISHED,RELATED'', ''-j'', ''ACCEPT''] #
            icmp_rules isIPv6 @ proxy_rules proxyHost proxyPort proxyHTTPSPort proxyDNSPort @ reject_rules isIPv6))"

definition buildHostIptablesRules :: "string \<Rightarrow> string \<Rightarrow> string \<Rightarrow> string \<Rightarrow> string \<Rightarrow> string list list" where
  "buildHostIptablesRules = buildHostNetfilterRules False"

definition buildHostIp6tablesRules :: "string \<Rightarrow> string \<Rightarrow> string \<Rightarrow> string \<Rightarrow> string \<Rightarrow> string list list" where
  "buildHostIp6tablesRules = buildHostNetfilterRules True"

definition buildHostCleanupRules :: "string \<Rightarrow> string list list" where
  "buildHostCleanupRules hostIface =
     (let prChain = pr_chain hostIface; egChain = eg_chain hostIface in
      [[''-t'', ''nat'', ''-D'', ''PREROUTING''] @ jump_spec hostIface prChain,
       [''-t'', ''nat'', ''-F'', prChain],
       [''-t'', ''nat'', ''-X'', prChain],
       [''-t'', ''filter'', ''-D'', ''INPUT''] @ jump_spec hostIface egChain,
       [''-t'', ''filter'', ''-D'', ''FORWARD''] @ jump_spec hostIface egChain,
       [''-t'', ''filter'', ''-F'', egChain],
       [''-t'', ''filter'', ''-X'', egChain]])"

subsection \<open>Running them\<close>

datatype NetfilterError = NetfilterFailed string "string list" string

definition tolerated :: "string list \<Rightarrow> string \<Rightarrow> bool" where
  "tolerated args msg \<longleftrightarrow>
     3 \<le> length args \<and>
     (args ! 2 = ''-N'' \<and> contains (to_lower msg) ''already exists'' \<or>
      (args ! 2 = ''-D'' \<or> args ! 2 = ''-X'') \<and>
        (contains (to_lower msg) ''does not exist'' \<or>
         contains msg ''No chain/target/match by that name'' \<or>
         contains (to_lower msg) ''bad rule'' \<or>
         contains (to_lower msg) ''too many links''))"

fun runNetfilter :: "'w host_env \<Rightarrow> string \<Rightarrow> string list list \<Rightarrow> 'w \<Rightarrow> NetfilterError option \<times> 'w" where
  "runNetfilter env bin [] w = (None, w)"
| "runNetfilter env bin (args # ruleCmds) w =
     (case he_exec env bin args w of
        (ExecOK _, w1) \<Rightarrow> runNetfilter env bin ruleCmds w1
      | (ExecNotFound, w1) \<Rightarrow> (None, w1)
      | (ExecFailed msg, w1) \<Rightarrow>
          if tolerated args msg then runNetfilter env bin ruleCmds w1
          else (Some (NetfilterFailed bin args msg), w1))"

definition runIptables :: "'w host_env \<Rightarrow> string list list \<Rightarrow> 'w \<Rightarrow> NetfilterError option \<times> 'w" where
  "runIptables env ruleCmds w = runNetfilter env ''iptables'' ruleCmds w"

definition runIp6tables :: "'w host_env \<Rightarrow> string list list \<Rightarrow> 'w \<Rightarrow> NetfilterError option \<times> 'w" where
  "runIp6tables env ruleCmds w = runNetfilter env ''ip6tables'' ruleCmds w"

subsection \<open>What iptables(8) documents\<close>

text \<open>Per table, the chains with their rules; a rule is kept as the arguments that describe it.\<close>

type_synonym nf_tables = "string \<Rightarrow> string \<rightharpoonup> string list list"

datatype nf_error = NfExists | NfNoChain | NfNoTarget | NfBadRule | NfBusy | NfUsage

fun jump_of :: "string list \<Rightarrow> string option" where
  "jump_of (x # y # r) = (if x = ''-j'' then Some y else jump_of (y # r))"
| "jump_of _ = None"

definition builtin_targets :: "string list" where
  "builtin_targets = [''ACCEPT'', ''DROP'', ''REJECT'', ''DNAT'', ''RETURN'']"

definition has_target :: "nf_tables \<Rightarrow> string \<Rightarrow> string list \<Rightarrow> bool" where
  "has_target t tab spec =
     (case jump_of spec of Some c \<Rightarrow> c \<in> set builtin_targets \<or> t tab c \<noteq> None | None \<Rightarrow> True)"

definition referenced :: "nf_tables \<Rightarrow> string \<Rightarrow> string \<Rightarrow> bool" where
  "referenced t tab chain \<longleftrightarrow> (\<exists>c rs. t tab c = Some rs \<and> Some chain \<in> jump_of ` set rs)"

definition nf_set :: "nf_tables \<Rightarrow> string \<Rightarrow> string \<Rightarrow> string list list option \<Rightarrow> nf_tables" where
  "nf_set t tab chain rs = t(tab := (t tab)(chain := rs))"

text \<open>
  The commands: create, flush and delete a chain (of at most 28 characters; it has to be empty and
  no rule may jump to it), delete, insert (at the head) and append a rule.
\<close>

definition nf_on_rules :: "string \<Rightarrow> nf_tables \<Rightarrow> string \<Rightarrow> string \<Rightarrow> string list \<Rightarrow> string list list \<Rightarrow> nf_error + nf_tables" where
  "nf_on_rules cmd t tab chain spec rs =
     (if cmd = ''-F'' then Inr (nf_set t tab chain (Some []))
      else if cmd = ''-X'' then
        (if rs \<noteq> [] \<or> referenced t tab chain then Inl NfBusy else Inr (nf_set t tab chain None))
      else if \<not> has_target t tab spec then Inl NfNoTarget
      else if cmd = ''-D'' then
        (if spec \<in> set rs then Inr (nf_set t tab chain (Some (remove1 spec rs))) else Inl NfBadRule)
      else if cmd = ''-I'' then Inr (nf_set t tab chain (Some (tl spec # rs)))
      else if cmd = ''-A'' then Inr (nf_set t tab chain (Some (rs @ [spec])))
      else Inl NfUsage)"

fun nf_apply :: "string list \<Rightarrow> nf_tables \<Rightarrow> nf_error + nf_tables" where
  "nf_apply (_ # tab # cmd # chain # spec) t =
     (if cmd = ''-N'' then
        (if t tab chain \<noteq> None then Inl NfExists
         else if 28 < length chain then Inl NfUsage
         else Inr (nf_set t tab chain (Some [])))
      else case t tab chain of None \<Rightarrow> Inl NfNoChain | Some rs \<Rightarrow> nf_on_rules cmd t tab chain spec rs)"
| "nf_apply _ t = Inl NfUsage"

definition nf_message :: "nf_error \<Rightarrow> string \<Rightarrow> bool" where
  "nf_message e msg \<longleftrightarrow>
     (case e of
        NfExists \<Rightarrow> contains (to_lower msg) ''already exists''
      | NfNoChain \<Rightarrow> contains msg ''No chain/target/match by that name''
      | NfBadRule \<Rightarrow> contains (to_lower msg) ''bad rule''
      | _ \<Rightarrow> True)"

definition nf_commands :: "string list" where
  "nf_commands = [''-N'', ''-F'', ''-X'', ''-D'', ''-I'', ''-A'']"

definition nf_command :: "string list \<Rightarrow> bool" where
  "nf_command args \<longleftrightarrow> 4 \<le> length args \<and> args ! 0 = ''-t'' \<and> args ! 2 \<in> set nf_commands"

text \<open>
  Running the program \<open>bin\<close> does to its tables what is documented, reports a failure with its
  message, and leaves the tables of the other program alone.
\<close>

definition runs_netfilter :: "'w host_env \<Rightarrow> (string \<Rightarrow> 'w \<Rightarrow> nf_tables) \<Rightarrow> string \<Rightarrow> bool" where
  "runs_netfilter env view bin \<longleftrightarrow>
     (\<forall>args w. nf_command args \<longrightarrow>
        (\<exists>res w'. he_exec env bin args w = (res, w') \<and> (\<forall>b. b \<noteq> bin \<longrightarrow> view b w' = view b w) \<and>
           (case nf_apply args (view bin w) of
              Inr t \<Rightarrow> (\<exists>out. res = ExecOK out) \<and> view bin w' = t
            | Inl e \<Rightarrow> (\<exists>msg. res = ExecFailed msg \<and> nf_message e msg) \<and> view bin w' = view bin w)))"

text \<open>What a rule matches; \<open>other\<close> stands for the matches that the plugin's rules do not use.\<close>

datatype l4 = TCP nat | UDP nat | ICMPv6 nat | OtherL4

record packet =
  pk_in :: string
  pk_dst :: bytes
  pk_l4 :: l4
  pk_ct :: string

definition iface_match :: "string \<Rightarrow> string \<Rightarrow> bool" where
  "iface_match pat name \<longleftrightarrow>
     (if pat \<noteq> [] \<and> last pat = CHR ''+'' then has_prefix name (butlast pat) else name = pat)"

definition proto_match :: "string \<Rightarrow> l4 \<Rightarrow> bool" where
  "proto_match x p =
     (case p of TCP _ \<Rightarrow> x = ''tcp'' | UDP _ \<Rightarrow> x = ''udp'' | ICMPv6 _ \<Rightarrow> x = ''ipv6-icmp'' | OtherL4 \<Rightarrow> False)"

definition port_match :: "string \<Rightarrow> l4 \<Rightarrow> bool" where
  "port_match x p = (case p of TCP n \<Rightarrow> x = dec_str n | UDP n \<Rightarrow> x = dec_str n | _ \<Rightarrow> False)"

definition icmp_match :: "string \<Rightarrow> l4 \<Rightarrow> bool" where
  "icmp_match x p = (case p of ICMPv6 n \<Rightarrow> x = dec_str n | _ \<Rightarrow> False)"

fun nf_matches :: "(string list \<Rightarrow> packet \<Rightarrow> bool) \<Rightarrow> string list \<Rightarrow> packet \<Rightarrow> bool" where
  "nf_matches other (opt # x # r) p =
     (if opt = ''-j'' then True
      else if opt = ''-i'' then iface_match x (pk_in p) \<and> nf_matches other r p
      else if opt = ''-d'' then parse_ip x = Some (pk_dst p) \<and> nf_matches other r p
      else if opt = ''-p'' then proto_match x (pk_l4 p) \<and> nf_matches other r p
      else if opt = ''--dport'' then port_match x (pk_l4 p) \<and> nf_matches other r p
      else if opt = ''--icmpv6-type'' then icmp_match x (pk_l4 p) \<and> nf_matches other r p
      else if opt = ''-m'' then nf_matches other r p
      else if opt = ''--ctstate'' then pk_ct p \<in> set (split_on x '','') \<and> nf_matches other r p
      else other (opt # x # r) p)"
| "nf_matches other r p = other r p"

datatype verdict = Accept | Reject | Dnat string

fun nf_walk :: "(string list \<Rightarrow> packet \<Rightarrow> bool) \<Rightarrow> (string \<Rightarrow> verdict option) \<Rightarrow> packet \<Rightarrow> string list list \<Rightarrow> verdict option" where
  "nf_walk other call p [] = None"
| "nf_walk other call p (r # rs) =
     (if \<not> nf_matches other r p then nf_walk other call p rs
      else case jump_of r of
             None \<Rightarrow> nf_walk other call p rs
           | Some c \<Rightarrow>
               if c = ''ACCEPT'' then Some Accept
               else if c = ''REJECT'' \<or> c = ''DROP'' then Some Reject
               else if c = ''DNAT'' then Some (Dnat (last r))
               else if c = ''RETURN'' then None
               else case call c of Some v \<Rightarrow> Some v | None \<Rightarrow> nf_walk other call p rs)"

text \<open>Chains are entered up to a nesting depth, which the kernel bounds as well.\<close>

fun nf_verdict :: "(string list \<Rightarrow> packet \<Rightarrow> bool) \<Rightarrow> nat \<Rightarrow> (string \<rightharpoonup> string list list) \<Rightarrow> packet \<Rightarrow> string \<Rightarrow> verdict option" where
  "nf_verdict other 0 tbl p chain = None"
| "nf_verdict other (Suc d) tbl p chain =
     (case tbl chain of None \<Rightarrow> None | Some rs \<Rightarrow> nf_walk other (nf_verdict other d tbl p) p rs)"

subsection \<open>Installation\<close>

definition forgiven :: "string list \<Rightarrow> nf_error \<Rightarrow> bool" where
  "forgiven args e \<longleftrightarrow>
     args ! 2 = ''-N'' \<and> e = NfExists \<or> (args ! 2 = ''-D'' \<or> args ! 2 = ''-X'') \<and> (e = NfNoChain \<or> e = NfBadRule)"

text \<open>The effect of a list of commands that all succeed or fail with a forgiven error.\<close>

fun nf_run :: "string list list \<Rightarrow> nf_tables \<Rightarrow> nf_tables option" where
  "nf_run [] t = Some t"
| "nf_run (args # cmds) t =
     (case nf_apply args t of
        Inr t' \<Rightarrow> nf_run cmds t'
      | Inl e \<Rightarrow> if forgiven args e then nf_run cmds t else None)"

lemma nf_run_append: "nf_run (a @ b) t = Option.bind (nf_run a t) (nf_run b)"
  by (induction a arbitrary: t) (auto split: sum.splits)

lemma forgiven_tolerated: "nf_command args \<Longrightarrow> forgiven args e \<Longrightarrow> nf_message e msg \<Longrightarrow> tolerated args msg"
  by (auto simp: nf_command_def forgiven_def nf_message_def tolerated_def)

lemma runs_netfilterD:
  assumes "runs_netfilter env view bin" and "nf_command args"
  obtains res w' where "he_exec env bin args w = (res, w')" and "\<And>b. b \<noteq> bin \<Longrightarrow> view b w' = view b w"
    and "\<And>t. nf_apply args (view bin w) = Inr t \<Longrightarrow> (\<exists>out. res = ExecOK out) \<and> view bin w' = t"
    and "\<And>e. nf_apply args (view bin w) = Inl e \<Longrightarrow> (\<exists>msg. res = ExecFailed msg \<and> nf_message e msg) \<and> view bin w' = view bin w"
proof -
  obtain res w' where "he_exec env bin args w = (res, w')" "\<forall>b. b \<noteq> bin \<longrightarrow> view b w' = view b w"
    "case nf_apply args (view bin w) of
       Inr t \<Rightarrow> (\<exists>out. res = ExecOK out) \<and> view bin w' = t
     | Inl e \<Rightarrow> (\<exists>msg. res = ExecFailed msg \<and> nf_message e msg) \<and> view bin w' = view bin w"
    using assms unfolding runs_netfilter_def by blast
  then show ?thesis by (intro that [of res w']) (auto split: sum.splits)
qed

lemma runNetfilter_runs:
  assumes "runs_netfilter env view bin" and "list_all nf_command cmds" and "nf_run cmds (view bin w) = Some t"
  shows "\<exists>w'. runNetfilter env bin cmds w = (None, w') \<and> view bin w' = t \<and> (\<forall>b. b \<noteq> bin \<longrightarrow> view b w' = view b w)"
  using assms(2,3)
proof (induction cmds arbitrary: w)
  case Nil
  then show ?case by simp
next
  case (Cons args cmds)
  then have c: "nf_command args" by simp
  obtain res w' where r: "he_exec env bin args w = (res, w')" "\<And>b. b \<noteq> bin \<Longrightarrow> view b w' = view b w"
    "\<And>t. nf_apply args (view bin w) = Inr t \<Longrightarrow> (\<exists>out. res = ExecOK out) \<and> view bin w' = t"
    "\<And>e. nf_apply args (view bin w) = Inl e \<Longrightarrow> (\<exists>msg. res = ExecFailed msg \<and> nf_message e msg) \<and> view bin w' = view bin w"
    using runs_netfilterD [OF assms(1) c, of w] by blast
  have n: "runNetfilter env bin (args # cmds) w = runNetfilter env bin cmds w' \<and> nf_run cmds (view bin w') = Some t"
  proof (cases "nf_apply args (view bin w)")
    case (Inl e)
    then have "forgiven args e" using Cons.prems(2) by (auto split: if_splits)
    then have "\<exists>msg. res = ExecFailed msg \<and> tolerated args msg" "view bin w' = view bin w"
      using r(4) [OF Inl] forgiven_tolerated [OF c] by blast+
    then show ?thesis
      using r(1) Inl \<open>forgiven args e\<close> Cons.prems(2) by auto
  next
    case (Inr t')
    then show ?thesis
      using r(1) r(3) [OF Inr] Cons.prems(2) by auto
  qed
  then obtain w2 where "runNetfilter env bin cmds w' = (None, w2)" "view bin w2 = t" "\<forall>b. b \<noteq> bin \<longrightarrow> view b w2 = view b w'"
    using Cons.IH [of w'] Cons.prems(1) n by auto
  then show ?case using n r(2) by auto
qed

lemma runNetfilter_other:
  assumes "runs_netfilter env view bin" and "b \<noteq> bin"
  shows "list_all nf_command cmds \<Longrightarrow> view b (snd (runNetfilter env bin cmds w)) = view b w"
proof (induction cmds arbitrary: w)
  case Nil
  then show ?case by simp
next
  case (Cons args cmds)
  then have c: "nf_command args" by simp
  obtain res w' where r: "he_exec env bin args w = (res, w')" "\<And>b. b \<noteq> bin \<Longrightarrow> view b w' = view b w"
    by (rule runs_netfilterD [OF assms(1) c, of w]) (rule that; assumption)
  then show ?case using Cons assms(2) by (cases res) simp_all
qed

lemma nf_set_at [simp]: "nf_set t tab c rs tab c = rs"
  by (simp add: nf_set_def)

lemma nf_set_other: "tab' \<noteq> tab \<or> c' \<noteq> c \<Longrightarrow> nf_set t tab c rs tab' c' = t tab' c'"
  by (auto simp: nf_set_def)

lemma nf_set_twice [simp]: "nf_set (nf_set t tab c rs) tab c rs' = nf_set t tab c rs'"
  by (simp add: nf_set_def)

lemma nf_set_same: "t tab c = rs \<Longrightarrow> nf_set t tab c rs = t"
  by (auto simp: nf_set_def)

lemma run_new_chain:
  "length c \<le> 28 \<Longrightarrow> nf_run [[''-t'', tab, ''-N'', c], [''-t'', tab, ''-F'', c]] t = Some (nf_set t tab c (Some []))"
  by (auto simp: forgiven_def nf_on_rules_def split: option.splits)

lemma jump_of_spec [simp]: "jump_of (jump_spec i c) = (if i = ''-j'' then Some ''-j'' else Some c)"
  by (simp add: jump_spec_def)

lemma run_jump:
  assumes "t tab base = Some rs" and "t tab c \<noteq> None" and "i \<noteq> ''-j''"
  shows "nf_run [[''-t'', tab, ''-D'', base] @ jump_spec i c, [''-t'', tab, ''-I'', base, ''1''] @ jump_spec i c] t =
           Some (nf_set t tab base (Some (jump_spec i c # remove1 (jump_spec i c) rs)))"
proof -
  have h: "has_target t tab (jump_spec i c)" using assms(2,3) by (simp add: has_target_def)
  have h': "has_target t' tab (''1'' # jump_spec i c)" if "t' tab c \<noteq> None" for t'
    using assms(3) that by (simp add: has_target_def jump_spec_def)
  show ?thesis
  proof (cases "jump_spec i c \<in> set rs")
    case True
    have "nf_set t tab base (Some (remove1 (jump_spec i c) rs)) tab c \<noteq> None" using assms(2) by (simp add: nf_set_def)
    then show ?thesis using assms(1) h h' True by (simp add: nf_on_rules_def)
  next
    case False
    then show ?thesis
      using assms(1,2) h h' by (simp add: nf_on_rules_def forgiven_def remove1_idem)
  qed
qed

lemma run_appends:
  "t tab c = Some rs \<Longrightarrow> list_all (\<lambda>r. jump_of r \<in> Some ` set builtin_targets) rules \<Longrightarrow>
   nf_run (map ((@) [''-t'', tab, ''-A'', c]) rules) t = Some (nf_set t tab c (Some (rs @ rules)))"
proof (induction rules arbitrary: t rs)
  case Nil
  then show ?case by (simp add: nf_set_same)
next
  case (Cons r rules)
  then have "has_target t tab r" by (auto simp: has_target_def)
  then show ?case using Cons.prems Cons.IH [of "nf_set t tab c (Some (rs @ [r]))" "rs @ [r]"]
    by (simp add: nf_on_rules_def)
qed

record proxy_dest =
  pd_v6 :: bool
  pd_host :: string
  pd_http :: string
  pd_https :: string
  pd_dns :: string

definition build_rules :: "proxy_dest \<Rightarrow> string \<Rightarrow> string list list" where
  "build_rules d iface = buildHostNetfilterRules (pd_v6 d) iface (pd_host d) (pd_http d) (pd_https d) (pd_dns d)"

definition dns_port :: "proxy_dest \<Rightarrow> string" where
  "dns_port d = (if pd_dns d = [] then ''53'' else pd_dns d)"

definition pr_rules :: "proxy_dest \<Rightarrow> string list list" where
  "pr_rules d = nat_rules (pd_host d) (pd_http d) (pd_https d) (dns_port d)"

definition eg_rules :: "proxy_dest \<Rightarrow> string list list" where
  "eg_rules d =
     [''-m'', ''conntrack'', ''--ctstate'', ''ESTABLISHED,RELATED'', ''-j'', ''ACCEPT''] #
     icmp_rules (pd_v6 d) @ proxy_rules (pd_host d) (pd_http d) (pd_https d) (dns_port d) @ reject_rules (pd_v6 d)"

definition has_builtin :: "nf_tables \<Rightarrow> bool" where
  "has_builtin t \<longleftrightarrow> t ''nat'' ''PREROUTING'' \<noteq> None \<and> t ''filter'' ''INPUT'' \<noteq> None \<and> t ''filter'' ''FORWARD'' \<noteq> None"

definition iface_ok :: "string \<Rightarrow> bool" where
  "iface_ok i \<longleftrightarrow> i \<noteq> [] \<and> length i \<le> 15 \<and> last i \<noteq> CHR ''+'' \<and> i \<noteq> ''-j''"

definition with_jump :: "string \<Rightarrow> string \<Rightarrow> string list list option \<Rightarrow> string list list option" where
  "with_jump i c rs = map_option (\<lambda>rs. jump_spec i c # remove1 (jump_spec i c) rs) rs"

text \<open>The tables after installation.\<close>

definition installed :: "proxy_dest \<Rightarrow> string \<Rightarrow> nf_tables \<Rightarrow> nf_tables" where
  "installed d i t = (\<lambda>tab c.
     if tab = ''nat'' \<and> c = pr_chain i then Some (pr_rules d)
     else if tab = ''nat'' \<and> c = ''PREROUTING'' then with_jump i (pr_chain i) (t tab c)
     else if tab = ''filter'' \<and> c = eg_chain i then Some (eg_rules d)
     else if tab = ''filter'' \<and> (c = ''INPUT'' \<or> c = ''FORWARD'') then with_jump i (eg_chain i) (t tab c)
     else t tab c)"

lemma chain_names:
  "pr_chain i \<noteq> ''PREROUTING''" "eg_chain i \<noteq> ''INPUT''" "eg_chain i \<noteq> ''FORWARD''"
  "pr_chain i = pr_chain i' \<longleftrightarrow> i = i'" "eg_chain i = eg_chain i' \<longleftrightarrow> i = i'"
  "pr_chain i \<noteq> ''INPUT''" "pr_chain i \<noteq> ''FORWARD''" "eg_chain i \<noteq> ''PREROUTING''"
  by (simp_all add: pr_chain_def eg_chain_def)

lemmas chain_distinct = chain_names(1-3,6-8) chain_names(1-3,6-8) [THEN not_sym]

lemma chain_length: "iface_ok i \<Longrightarrow> length (pr_chain i) \<le> 28 \<and> length (eg_chain i) \<le> 28"
  by (simp add: iface_ok_def pr_chain_def eg_chain_def)

lemma pr_rules_targets: "list_all (\<lambda>r. jump_of r \<in> Some ` set builtin_targets) (pr_rules d)"
  by (simp add: pr_rules_def nat_rules_def builtin_targets_def)

lemma eg_rules_targets: "pd_host d \<noteq> ''-j'' \<Longrightarrow> pd_http d \<noteq> ''-j'' \<Longrightarrow> pd_https d \<noteq> ''-j'' \<Longrightarrow> dns_port d \<noteq> ''-j'' \<Longrightarrow>
   list_all (\<lambda>r. jump_of r \<in> Some ` set builtin_targets) (eg_rules d)"
  by (simp add: eg_rules_def icmp_rules_def proxy_rules_def reject_rules_def builtin_targets_def Let_def)

lemma build_rules_parts:
  "build_rules d i =
     [[''-t'', ''nat'', ''-N'', pr_chain i], [''-t'', ''nat'', ''-F'', pr_chain i]] @
     [[''-t'', ''nat'', ''-D'', ''PREROUTING''] @ jump_spec i (pr_chain i),
      [''-t'', ''nat'', ''-I'', ''PREROUTING'', ''1''] @ jump_spec i (pr_chain i)] @
     map ((@) [''-t'', ''nat'', ''-A'', pr_chain i]) (pr_rules d) @
     [[''-t'', ''filter'', ''-N'', eg_chain i], [''-t'', ''filter'', ''-F'', eg_chain i]] @
     [[''-t'', ''filter'', ''-D'', ''INPUT''] @ jump_spec i (eg_chain i),
      [''-t'', ''filter'', ''-I'', ''INPUT'', ''1''] @ jump_spec i (eg_chain i)] @
     [[''-t'', ''filter'', ''-D'', ''FORWARD''] @ jump_spec i (eg_chain i),
      [''-t'', ''filter'', ''-I'', ''FORWARD'', ''1''] @ jump_spec i (eg_chain i)] @
     map ((@) [''-t'', ''filter'', ''-A'', eg_chain i]) (eg_rules d)"
  unfolding build_rules_def buildHostNetfilterRules_def Let_def pr_rules_def eg_rules_def dns_port_def by simp

definition dest_ok :: "proxy_dest \<Rightarrow> bool" where
  "dest_ok d \<longleftrightarrow> parse_ip (pd_host d) \<noteq> None \<and> list_all is_digit (pd_http d @ pd_https d @ pd_dns d)"

lemma dest_ok_words: "dest_ok d \<Longrightarrow> pd_host d \<noteq> ''-j'' \<and> pd_http d \<noteq> ''-j'' \<and> pd_https d \<noteq> ''-j'' \<and> dns_port d \<noteq> ''-j''"
proof -
  assume d: "dest_ok d"
  have "parse_ip ''-j'' = None" by code_simp
  moreover have "\<not> list_all is_digit ''-j''" by code_simp
  moreover have "''53'' \<noteq> ''-j''" by simp
  ultimately show ?thesis using d by (auto simp: dest_ok_def dns_port_def)
qed

lemma nf_run_install:
  assumes "has_builtin t" and "iface_ok i" and "dest_ok d"
  shows "nf_run (build_rules d i) t = Some (installed d i t)"
proof -
  note len = chain_length [OF assms(2), THEN conjunct1] chain_length [OF assms(2), THEN conjunct2]
  have ij: "i \<noteq> ''-j''" using assms(2) by (simp add: iface_ok_def)
  obtain pre inp fwd where b: "t ''nat'' ''PREROUTING'' = Some pre" "t ''filter'' ''INPUT'' = Some inp" "t ''filter'' ''FORWARD'' = Some fwd"
    using assms(1) by (auto simp: has_builtin_def)
  let ?jp = "jump_spec i (pr_chain i)" and ?je = "jump_spec i (eg_chain i)"
  define t1 where "t1 = nf_set t ''nat'' (pr_chain i) (Some [])"
  define t2 where "t2 = nf_set t1 ''nat'' ''PREROUTING'' (Some (?jp # remove1 ?jp pre))"
  define t3 where "t3 = nf_set t2 ''nat'' (pr_chain i) (Some (pr_rules d))"
  define t4 where "t4 = nf_set t3 ''filter'' (eg_chain i) (Some [])"
  define t5 where "t5 = nf_set t4 ''filter'' ''INPUT'' (Some (?je # remove1 ?je inp))"
  define t6 where "t6 = nf_set t5 ''filter'' ''FORWARD'' (Some (?je # remove1 ?je fwd))"
  define t7 where "t7 = nf_set t6 ''filter'' (eg_chain i) (Some (eg_rules d))"
  note defs = t1_def t2_def t3_def t4_def t5_def t6_def
  have s1: "t1 ''nat'' ''PREROUTING'' = Some pre" "t1 ''nat'' (pr_chain i) \<noteq> None" "t2 ''nat'' (pr_chain i) = Some []"
    using b chain_distinct by (simp_all add: defs nf_set_def)
  have s2: "t4 ''filter'' ''INPUT'' = Some inp" "t4 ''filter'' (eg_chain i) \<noteq> None"
    "t5 ''filter'' ''FORWARD'' = Some fwd" "t5 ''filter'' (eg_chain i) \<noteq> None" "t6 ''filter'' (eg_chain i) = Some []"
    using b chain_distinct by (simp_all add: defs nf_set_def)
  note d = dest_ok_words [OF assms(3)]
  have "nf_run (build_rules d i) t = Some t7"
    unfolding build_rules_parts nf_run_append
      run_new_chain [OF len(1), of "''nat''" t] bind.bind_lunit t1_def [symmetric]
      run_jump [of t1 "''nat''" "''PREROUTING''", OF s1(1,2) ij] t2_def [symmetric]
      run_appends [of t2 "''nat''", OF s1(3) pr_rules_targets] append_Nil t3_def [symmetric]
      run_new_chain [OF len(2), of "''filter''" t3] t4_def [symmetric]
      run_jump [of t4 "''filter''" "''INPUT''", OF s2(1,2) ij] t5_def [symmetric]
      run_jump [of t5 "''filter''" "''FORWARD''", OF s2(3,4) ij] t6_def [symmetric]
    using run_appends [of t6 "''filter''", OF s2(5) eg_rules_targets [of d]] d
    by (simp add: t7_def)
  moreover have "t7 = installed d i t"
    using b chain_distinct by (auto simp: fun_eq_iff installed_def t7_def defs nf_set_def with_jump_def)
  ultimately show ?thesis by simp
qed

subsection \<open>Isolation\<close>

text \<open>
  A pod interface is guarded when its two chains hold the plugin's rules and its jumps are the first
  rules of the built-in chains that its packets can match.
\<close>

definition skips :: "string \<Rightarrow> string list \<Rightarrow> bool" where
  "skips i r \<longleftrightarrow> (\<exists>i' c. r = jump_spec i' c \<and> \<not> iface_match i' i)"

definition first_jump :: "string \<Rightarrow> string \<Rightarrow> string list list option \<Rightarrow> bool" where
  "first_jump i c rs \<longleftrightarrow> (\<exists>pre post. rs = Some (pre @ jump_spec i c # post) \<and> list_all (skips i) pre)"

definition guarded :: "proxy_dest \<Rightarrow> string \<Rightarrow> nf_tables \<Rightarrow> bool" where
  "guarded d i t \<longleftrightarrow>
     t ''nat'' (pr_chain i) = Some (pr_rules d) \<and> t ''filter'' (eg_chain i) = Some (eg_rules d) \<and>
     first_jump i (pr_chain i) (t ''nat'' ''PREROUTING'') \<and>
     first_jump i (eg_chain i) (t ''filter'' ''INPUT'') \<and> first_jump i (eg_chain i) (t ''filter'' ''FORWARD'')"

lemma first_jump_with: "rs \<noteq> None \<Longrightarrow> first_jump i c (with_jump i c rs)"
  by (auto simp: first_jump_def with_jump_def intro: exI [of _ "[]"])

lemma installed_at:
  "installed d i t ''nat'' (pr_chain i) = Some (pr_rules d)"
  "installed d i t ''filter'' (eg_chain i) = Some (eg_rules d)"
  "installed d i t ''nat'' ''PREROUTING'' = with_jump i (pr_chain i) (t ''nat'' ''PREROUTING'')"
  "installed d i t ''filter'' ''INPUT'' = with_jump i (eg_chain i) (t ''filter'' ''INPUT'')"
  "installed d i t ''filter'' ''FORWARD'' = with_jump i (eg_chain i) (t ''filter'' ''FORWARD'')"
  using chain_distinct [of i] by (simp_all add: installed_def)

lemma guarded_installed: "has_builtin t \<Longrightarrow> guarded d i (installed d i t)"
  unfolding guarded_def installed_at has_builtin_def by (simp add: first_jump_with)

lemma dec_str_inj [simp]: "dec_str m = dec_str n \<longleftrightarrow> m = n"
  by (metis dec_str_value of_nat_eq_iff)

lemma port_names: "''80'' = dec_str 80" "''443'' = dec_str 443" "''53'' = dec_str 53"
  by code_simp+

lemma icmp_names: "[''1'', ''2'', ''3'', ''4'', ''133'', ''135'', ''136''] = map dec_str [1, 2, 3, 4, 133, 135, 136]"
  by code_simp

lemma walk_skips: "list_all (skips (pk_in p)) pre \<Longrightarrow> nf_walk other call p (pre @ rs) = nf_walk other call p rs"
  by (induction pre) (auto simp: skips_def jump_spec_def)

lemma iface_match_self: "iface_ok i \<Longrightarrow> iface_match i' i \<longleftrightarrow> i' = i" if "iface_ok i'"
  using that by (auto simp: iface_match_def iface_ok_def)

lemma enter_chain:
  assumes "first_jump i c (tbl base)" and "iface_ok i" and "pk_in p = i" and "c \<notin> set builtin_targets"
    and "tbl c = Some rs"
  shows "\<exists>post. nf_verdict other (Suc (Suc d)) tbl p base =
           (case nf_walk other (nf_verdict other d tbl p) p rs of Some v \<Rightarrow> Some v
            | None \<Rightarrow> nf_walk other (nf_verdict other (Suc d) tbl p) p post)"
proof -
  obtain pre post where pp: "tbl base = Some (pre @ jump_spec i c # post)" "list_all (skips i) pre"
    using assms(1) by (auto simp: first_jump_def)
  have m: "nf_matches other (jump_spec i c) p" "jump_of (jump_spec i c) = Some c"
    using assms(2,3) iface_match_self [OF assms(2,2)] by (simp_all add: jump_spec_def iface_ok_def)
  have c: "c \<noteq> ''ACCEPT''" "c \<noteq> ''REJECT''" "c \<noteq> ''DROP''" "c \<noteq> ''DNAT''" "c \<noteq> ''RETURN''"
    using assms(4) by (auto simp: builtin_targets_def)
  have "nf_walk other (nf_verdict other (Suc d) tbl p) p (pre @ jump_spec i c # post) =
      (case nf_verdict other (Suc d) tbl p c of Some v \<Rightarrow> Some v
       | None \<Rightarrow> nf_walk other (nf_verdict other (Suc d) tbl p) p post)"
    using walk_skips [of p pre] pp(2) assms(3) m c by simp
  then show ?thesis using pp(1) assms(5) by auto
qed

text \<open>The packets that leave towards the proxy or belong to a connection.\<close>

definition allowed :: "proxy_dest \<Rightarrow> packet \<Rightarrow> bool" where
  "allowed d p \<longleftrightarrow>
     pk_ct p = ''ESTABLISHED'' \<or> pk_ct p = ''RELATED'' \<or>
     (pd_v6 d \<and> (\<exists>n\<in>{1, 2, 3, 4, 133, 135, 136}. pk_l4 p = ICMPv6 n)) \<or>
     (parse_ip (pd_host d) = Some (pk_dst p) \<and>
      (\<exists>n. pk_l4 p = TCP n \<and> dec_str n \<in> {pd_http d, pd_https d, dns_port d} \<or>
           pk_l4 p = UDP n \<and> dec_str n = dns_port d))"

definition redirect :: "proxy_dest \<Rightarrow> packet \<Rightarrow> string option" where
  "redirect d p =
     (if pk_l4 p = TCP 80 then Some (pd_http d)
      else if pk_l4 p = TCP 443 then Some (pd_https d)
      else if pk_l4 p = UDP 53 \<or> pk_l4 p = TCP 53 then Some (dns_port d)
      else None)"

lemma walk_accepts:
  "list_all (\<lambda>r. jump_of r = Some ''ACCEPT'') rs \<Longrightarrow>
   nf_walk other call p (rs @ rs') = (if list_ex (\<lambda>r. nf_matches other r p) rs then Some Accept else nf_walk other call p rs')"
  by (induction rs) auto

lemma walk_rejects: "nf_walk other call p (reject_rules v6) = Some Reject"
  by (simp add: reject_rules_def Let_def)

lemma established_matches:
  "nf_matches other [''-m'', ''conntrack'', ''--ctstate'', ''ESTABLISHED,RELATED'', ''-j'', ''ACCEPT''] p \<longleftrightarrow>
     pk_ct p = ''ESTABLISHED'' \<or> pk_ct p = ''RELATED''"
proof -
  have "split_on ''ESTABLISHED,RELATED'' '','' = [''ESTABLISHED'', ''RELATED'']" by code_simp
  then show ?thesis by (simp del: split_on_single_Cons)
qed

lemma icmp_matches:
  "list_ex (\<lambda>r. nf_matches other r p) (icmp_rules v6) \<longleftrightarrow> v6 \<and> (\<exists>n\<in>{1, 2, 3, 4, 133, 135, 136}. pk_l4 p = ICMPv6 n)"
proof -
  have "nf_matches other [''-p'', ''ipv6-icmp'', ''--icmpv6-type'', dec_str n, ''-j'', ''ACCEPT''] p \<longleftrightarrow> pk_l4 p = ICMPv6 n" for n
    by (cases "pk_l4 p") (auto simp: proto_match_def icmp_match_def)
  then show ?thesis unfolding icmp_rules_def icmp_names by (simp del: nf_matches.simps)
qed

lemma proxy_matches:
  "nf_matches other [''-d'', h, ''-p'', ''tcp'', ''--dport'', x, ''-j'', ''ACCEPT''] p \<longleftrightarrow>
     parse_ip h = Some (pk_dst p) \<and> (\<exists>n. pk_l4 p = TCP n \<and> dec_str n = x)"
  "nf_matches other [''-d'', h, ''-p'', ''udp'', ''--dport'', x, ''-j'', ''ACCEPT''] p \<longleftrightarrow>
     parse_ip h = Some (pk_dst p) \<and> (\<exists>n. pk_l4 p = UDP n \<and> dec_str n = x)"
  by (cases "pk_l4 p"; auto simp: proto_match_def port_match_def)+

lemma walk_eg_rules:
  assumes dest: "pd_host d \<noteq> ''-j''" "pd_http d \<noteq> ''-j''" "pd_https d \<noteq> ''-j''" "dns_port d \<noteq> ''-j''"
  shows "nf_walk other call p (eg_rules d) = Some (if allowed d p then Accept else Reject)"
proof -
  let ?acc = "[''-m'', ''conntrack'', ''--ctstate'', ''ESTABLISHED,RELATED'', ''-j'', ''ACCEPT''] #
    icmp_rules (pd_v6 d) @ proxy_rules (pd_host d) (pd_http d) (pd_https d) (dns_port d)"
  have ex: "list_ex (\<lambda>r. nf_matches other r p) (proxy_rules (pd_host d) (pd_http d) (pd_https d) (dns_port d)) \<longleftrightarrow>
      parse_ip (pd_host d) = Some (pk_dst p) \<and>
      (\<exists>n. pk_l4 p = TCP n \<and> dec_str n \<in> {pd_http d, pd_https d, dns_port d} \<or> pk_l4 p = UDP n \<and> dec_str n = dns_port d)"
    unfolding proxy_rules_def by (simp add: proxy_matches del: nf_matches.simps) blast
  have "nf_walk other call p (?acc @ reject_rules (pd_v6 d)) = Some (if list_ex (\<lambda>r. nf_matches other r p) ?acc then Accept else Reject)"
    using dest by (subst walk_accepts) (simp_all add: walk_rejects icmp_rules_def proxy_rules_def del: nf_matches.simps)
  moreover have "list_ex (\<lambda>r. nf_matches other r p) ?acc \<longleftrightarrow> allowed d p"
    by (simp only: allowed_def list_ex_Cons_iff list_ex_append established_matches icmp_matches ex disj_assoc)
  ultimately show ?thesis by (simp only: eg_rules_def append_Cons append_assoc)
qed

lemma nat_matches:
  "nf_matches other [''-p'', ''tcp'', ''--dport'', ''80'', ''-j'', ''DNAT'', ''--to-destination'', x] p \<longleftrightarrow> pk_l4 p = TCP 80"
  "nf_matches other [''-p'', ''tcp'', ''--dport'', ''443'', ''-j'', ''DNAT'', ''--to-destination'', x] p \<longleftrightarrow> pk_l4 p = TCP 443"
  "nf_matches other [''-p'', ''tcp'', ''--dport'', ''53'', ''-j'', ''DNAT'', ''--to-destination'', x] p \<longleftrightarrow> pk_l4 p = TCP 53"
  "nf_matches other [''-p'', ''udp'', ''--dport'', ''53'', ''-j'', ''DNAT'', ''--to-destination'', x] p \<longleftrightarrow> pk_l4 p = UDP 53"
proof -
  have "''80'' = dec_str n \<longleftrightarrow> n = 80" "''443'' = dec_str n \<longleftrightarrow> n = 443" "''53'' = dec_str n \<longleftrightarrow> n = 53" for n
    unfolding port_names by auto
  note n = this
  show "nf_matches other [''-p'', ''tcp'', ''--dport'', ''80'', ''-j'', ''DNAT'', ''--to-destination'', x] p \<longleftrightarrow> pk_l4 p = TCP 80"
    "nf_matches other [''-p'', ''tcp'', ''--dport'', ''443'', ''-j'', ''DNAT'', ''--to-destination'', x] p \<longleftrightarrow> pk_l4 p = TCP 443"
    "nf_matches other [''-p'', ''tcp'', ''--dport'', ''53'', ''-j'', ''DNAT'', ''--to-destination'', x] p \<longleftrightarrow> pk_l4 p = TCP 53"
    "nf_matches other [''-p'', ''udp'', ''--dport'', ''53'', ''-j'', ''DNAT'', ''--to-destination'', x] p \<longleftrightarrow> pk_l4 p = UDP 53"
    by (cases "pk_l4 p"; simp add: proto_match_def port_match_def n)+
qed

lemma walk_pr_rules:
  "nf_walk other call p (pr_rules d) = map_option (\<lambda>port. Dnat (join_host_port (pd_host d) port)) (redirect d p)"
  by (simp add: pr_rules_def nat_rules_def redirect_def nat_matches del: nf_matches.simps)

lemma build_rules_commands: "list_all nf_command (build_rules d i)"
  unfolding build_rules_parts by (auto simp: list_all_iff nf_command_def nf_commands_def)

lemma user_chain: "pr_chain i \<notin> set builtin_targets" "eg_chain i \<notin> set builtin_targets"
  by (simp_all add: builtin_targets_def pr_chain_def eg_chain_def)

definition isolates :: "proxy_dest \<Rightarrow> string \<Rightarrow> nf_tables \<Rightarrow> bool" where
  "isolates d i t \<longleftrightarrow>
     (\<forall>other n p. pk_in p = i \<longrightarrow>
        (\<forall>port. redirect d p = Some port \<longrightarrow>
           nf_verdict other (n + 2) (t ''nat'') p ''PREROUTING'' = Some (Dnat (join_host_port (pd_host d) port))) \<and>
        (\<forall>hook\<in>{''INPUT'', ''FORWARD''}.
           nf_verdict other (n + 2) (t ''filter'') p hook = Some (if allowed d p then Accept else Reject)))"

lemma isolates_redirect:
  assumes "isolates d i t" and "pk_in p = i" and "redirect d p = Some port"
  shows "nf_verdict other (n + 2) (t ''nat'') p ''PREROUTING'' = Some (Dnat (join_host_port (pd_host d) port))"
  using assms(1) [unfolded isolates_def, THEN spec [of _ other], THEN spec [of _ n], THEN spec [of _ p], THEN mp, OF assms(2),
    THEN conjunct1, THEN spec [of _ port], THEN mp, OF assms(3)] .

lemma isolates_filter:
  assumes "isolates d i t" and "pk_in p = i" and "hook \<in> {''INPUT'', ''FORWARD''}"
  shows "nf_verdict other (n + 2) (t ''filter'') p hook = Some (if allowed d p then Accept else Reject)"
  using assms(1) [unfolded isolates_def, THEN spec [of _ other], THEN spec [of _ n], THEN spec [of _ p], THEN mp, OF assms(2),
    THEN conjunct2, THEN bspec, OF assms(3)] .

lemma guarded_isolates:
  assumes "guarded d i t" and "iface_ok i" and "dest_ok d"
  shows "isolates d i t"
proof -
  note g = assms(1) [unfolded guarded_def]
  have d: "pd_host d \<noteq> ''-j''" "pd_http d \<noteq> ''-j''" "pd_https d \<noteq> ''-j''" "dns_port d \<noteq> ''-j''"
    using dest_ok_words [OF assms(3)] by simp_all
  have nat: "nf_verdict other (Suc (Suc n)) (t ''nat'') p ''PREROUTING'' = Some (Dnat (join_host_port (pd_host d) port))"
    if "pk_in p = i" and "redirect d p = Some port" for other n p port
    using enter_chain [of i "pr_chain i" "t ''nat''" "''PREROUTING''" p "pr_rules d" other n] g that assms(2) user_chain(1)
    by (auto simp: walk_pr_rules simp del: nf_verdict.simps)
  have fil: "nf_verdict other (Suc (Suc n)) (t ''filter'') p hook = Some (if allowed d p then Accept else Reject)"
    if "pk_in p = i" and "hook \<in> {''INPUT'', ''FORWARD''}" for other n p hook
  proof -
    have j: "first_jump i (eg_chain i) (t ''filter'' hook)" using g that(2) by auto
    show ?thesis
      using enter_chain [of i "eg_chain i" "t ''filter''" hook p "eg_rules d" other n, OF j] g that(1) assms(2) user_chain(2)
      by (auto simp: walk_eg_rules [OF d] simp del: nf_verdict.simps)
  qed
  show ?thesis
    unfolding isolates_def using nat fil by (simp del: nf_verdict.simps)
qed

lemma with_jump_twice [simp]: "with_jump i c (with_jump i c rs) = with_jump i c rs"
  by (cases rs) (simp_all add: with_jump_def)

lemma installed_twice: "installed d i (installed d' i t) = installed d i t"
  using chain_distinct [of i] by (intro ext) (auto simp: installed_def)

lemma first_jump_other:
  assumes "first_jump i c rs" and "iface_ok i" and "iface_ok i'" and "i \<noteq> i'"
  shows "first_jump i c (with_jump i' c' rs)"
proof -
  obtain pre post where rs: "rs = Some (pre @ jump_spec i c # post)" "list_all (skips i) pre"
    using assms(1) by (auto simp: first_jump_def)
  let ?j = "jump_spec i' c'"
  have ne: "?j \<noteq> jump_spec i c" using assms(4) by (simp add: jump_spec_def)
  have sk: "skips i ?j" using iface_match_self [OF assms(3,2)] assms(4) by (auto simp: skips_def)
  have "list_all (skips i) (remove1 ?j pre)" using rs(2) by (auto simp: list_all_iff dest: set_remove1_subset [THEN subsetD])
  then have "list_all (skips i) (?j # remove1 ?j pre)" "list_all (skips i) (?j # pre)" using sk rs(2) by simp_all
  moreover have "with_jump i' c' rs = Some ((?j # remove1 ?j pre) @ jump_spec i c # post) \<or>
      (\<exists>post'. with_jump i' c' rs = Some ((?j # pre) @ jump_spec i c # post'))"
    using ne by (cases "?j \<in> set pre") (auto simp: rs(1) with_jump_def remove1_append)
  ultimately show ?thesis unfolding first_jump_def by blast
qed

lemma guarded_other:
  assumes "guarded d i t" and "iface_ok i" and "iface_ok i'" and "i \<noteq> i'"
  shows "guarded d i (installed d' i' t)"
proof -
  have "installed d' i' t ''nat'' (pr_chain i) = t ''nat'' (pr_chain i)"
    "installed d' i' t ''filter'' (eg_chain i) = t ''filter'' (eg_chain i)"
    using chain_distinct chain_names(4,5) assms(4) by (simp_all add: installed_def)
  then show ?thesis
    using assms(1) first_jump_other [OF _ assms(2-4)] unfolding guarded_def installed_at by simp
qed

subsection \<open>Other interfaces\<close>

text \<open>The commands that concern another interface: its own chains, and its jumps in the built-in ones.\<close>

definition foreign :: "string \<Rightarrow> string list \<Rightarrow> bool" where
  "foreign i args \<longleftrightarrow>
     (\<exists>tab cmd chain spec. args = ''-t'' # tab # cmd # chain # spec \<and> cmd \<in> set nf_commands \<and>
        chain \<noteq> pr_chain i \<and> chain \<noteq> eg_chain i \<and>
        (chain \<in> {''PREROUTING'', ''INPUT'', ''FORWARD''} \<longrightarrow>
           (\<exists>i' c. iface_ok i' \<and> i' \<noteq> i \<and>
              (cmd = ''-D'' \<and> spec = jump_spec i' c \<or> cmd = ''-I'' \<and> spec = ''1'' # jump_spec i' c))))"

lemma first_jump_Cons: "skips i r \<Longrightarrow> first_jump i c (Some rs) \<Longrightarrow> first_jump i c (Some (r # rs))"
  unfolding first_jump_def by (elim exE conjE) (rule exI [of _ "r # _"], auto)

lemma first_jump_remove1:
  assumes "skips i r" and "first_jump i c (Some rs)" and "r \<noteq> jump_spec i c"
  shows "first_jump i c (Some (remove1 r rs))"
proof -
  obtain pre post where rs: "rs = pre @ jump_spec i c # post" "list_all (skips i) pre"
    using assms(2) by (auto simp: first_jump_def)
  have "list_all (skips i) (remove1 r pre)" using rs(2) by (auto simp: list_all_iff dest: set_remove1_subset [THEN subsetD])
  then show ?thesis
    using rs assms(3) by (cases "r \<in> set pre") (auto simp: first_jump_def remove1_append)
qed

lemma foreign_base:
  assumes "iface_ok i" and "iface_ok i'" and "i' \<noteq> i" and "cmd = ''-D'' \<and> spec = jump_spec i' c' \<or> cmd = ''-I'' \<and> spec = ''1'' # jump_spec i' c'"
    and "nf_on_rules cmd t tab base spec rs = Inr t'" and "first_jump i c (Some rs)"
  shows "\<exists>rs'. t' = nf_set t tab base (Some rs') \<and> first_jump i c (Some rs')"
proof -
  have sk: "skips i (jump_spec i' c')" using iface_match_self [OF assms(2,1)] assms(3) by (auto simp: skips_def)
  have ne: "jump_spec i' c' \<noteq> jump_spec i c" using assms(3) by (simp add: jump_spec_def)
  show ?thesis
    using assms(4,5) first_jump_Cons [OF sk assms(6)] first_jump_remove1 [OF sk assms(6) ne]
    by (auto simp: nf_on_rules_def split: if_splits)
qed

lemma nf_apply_local:
  assumes "nf_apply (opt # tab # cmd # chain # spec) t = Inr t'"
  shows "\<exists>rs. t' = nf_set t tab chain rs"
  using assms by (auto simp: nf_on_rules_def split: if_splits option.splits)

lemma guarded_foreign:
  assumes "guarded d i t" and "iface_ok i" and "foreign i args" and "nf_apply args t = Inr t'"
  shows "guarded d i t'"
proof -
  obtain tab cmd chain spec where a: "args = ''-t'' # tab # cmd # chain # spec" "cmd \<in> set nf_commands"
    "chain \<noteq> pr_chain i" "chain \<noteq> eg_chain i" and base: "chain \<in> {''PREROUTING'', ''INPUT'', ''FORWARD''} \<longrightarrow>
       (\<exists>i' c. iface_ok i' \<and> i' \<noteq> i \<and> (cmd = ''-D'' \<and> spec = jump_spec i' c \<or> cmd = ''-I'' \<and> spec = ''1'' # jump_spec i' c))"
    using assms(3) unfolding foreign_def by (elim exE conjE) (rule that; assumption)
  obtain rs where t': "t' = nf_set t tab chain rs" using nf_apply_local assms(4) a(1) by blast
  have own: "t' ''nat'' (pr_chain i) = t ''nat'' (pr_chain i)" "t' ''filter'' (eg_chain i) = t ''filter'' (eg_chain i)"
    using a(3,4) by (simp_all add: t' nf_set_other)
  have jump: "first_jump i c (t' tb hook)" if hook: "hook \<in> {''PREROUTING'', ''INPUT'', ''FORWARD''}" and f: "first_jump i c (t tb hook)" for c tb hook
  proof (cases "tb = tab \<and> hook = chain")
    case False
    then show ?thesis using f by (simp add: t' nf_set_other)
  next
    case True
    have "chain \<in> {''PREROUTING'', ''INPUT'', ''FORWARD''}" using True hook by (elim conjE) (simp only: )
    from base [rule_format, OF this] obtain i' c' where i': "iface_ok i'" "i' \<noteq> i" "cmd = ''-D'' \<and> spec = jump_spec i' c' \<or> cmd = ''-I'' \<and> spec = ''1'' # jump_spec i' c'"
      by (elim exE conjE) (rule that; assumption)
    obtain rs0 where rs0: "t tab chain = Some rs0" using f True by (auto simp: first_jump_def)
    have "nf_on_rules cmd t tab chain spec rs0 = Inr t'" using assms(4) i'(3) rs0 unfolding a(1) by (elim disjE conjE) simp_all
    then obtain rs' where "t' = nf_set t tab chain (Some rs')" "first_jump i c (Some rs')"
      using foreign_base [OF assms(2) i'] f rs0 True by (metis (no_types))
    then show ?thesis using True by simp
  qed
  show ?thesis
    using assms(1) jump [of "''PREROUTING''" _ "''nat''"] jump [of "''INPUT''" _ "''filter''"] jump [of "''FORWARD''" _ "''filter''"]
    unfolding guarded_def own by simp
qed

lemma foreign_command: "foreign i args \<Longrightarrow> nf_command args"
  unfolding foreign_def nf_command_def by (elim exE conjE) simp

lemma guarded_run_foreign:
  assumes "runs_netfilter env view bin" and "iface_ok i" and "list_all (foreign i) cmds" and "guarded d i (view bin w)"
  shows "guarded d i (view bin (snd (runNetfilter env bin cmds w)))"
  using assms(3,4)
proof (induction cmds arbitrary: w)
  case Nil
  then show ?case by simp
next
  case (Cons args cmds)
  then have f: "foreign i args" by simp
  obtain res w' where r: "he_exec env bin args w = (res, w')"
    "\<And>t. nf_apply args (view bin w) = Inr t \<Longrightarrow> (\<exists>out. res = ExecOK out) \<and> view bin w' = t"
    "\<And>e. nf_apply args (view bin w) = Inl e \<Longrightarrow> (\<exists>msg. res = ExecFailed msg \<and> nf_message e msg) \<and> view bin w' = view bin w"
    by (rule runs_netfilterD [OF assms(1) foreign_command [OF f], of w]) (rule that; assumption)
  have g: "guarded d i (view bin w')"
  proof (cases "nf_apply args (view bin w)")
    case (Inl e)
    then show ?thesis using r(3) Cons.prems(2) by simp
  next
    case (Inr t)
    from guarded_foreign [OF Cons.prems(2) assms(2) f Inr] show ?thesis using r(2) [OF Inr] by simp
  qed
  have "guarded d i (view bin (snd (runNetfilter env bin cmds w')))"
    using Cons.prems(1) by (intro Cons.IH [OF _ g]) simp
  then show ?case using r(1) g by (cases res) simp_all
qed

lemma foreign_own:
  assumes "cmd \<in> set nf_commands" and "i' \<noteq> i" and "chain = pr_chain i' \<or> chain = eg_chain i'"
  shows "foreign i (''-t'' # tab # cmd # chain # spec)"
proof -
  have "chain \<noteq> pr_chain i" "chain \<noteq> eg_chain i" "chain \<notin> {''PREROUTING'', ''INPUT'', ''FORWARD''}"
    using assms(2,3) by (auto simp: pr_chain_def eg_chain_def)
  then show ?thesis unfolding foreign_def using assms(1) by simp
qed

lemma foreign_jump:
  assumes "iface_ok i'" and "i' \<noteq> i" and "base \<in> {''PREROUTING'', ''INPUT'', ''FORWARD''}"
  shows "foreign i ([''-t'', tab, ''-D'', base] @ jump_spec i' c)" "foreign i ([''-t'', tab, ''-I'', base, ''1''] @ jump_spec i' c)"
proof -
  have "base \<noteq> pr_chain i" "base \<noteq> eg_chain i" using assms(3) by (auto simp: pr_chain_def eg_chain_def)
  then show "foreign i ([''-t'', tab, ''-D'', base] @ jump_spec i' c)" "foreign i ([''-t'', tab, ''-I'', base, ''1''] @ jump_spec i' c)"
    unfolding foreign_def nf_commands_def using assms(1,2) by auto
qed

lemma foreign_rules:
  assumes "iface_ok i'" and "i' \<noteq> i"
  shows "list_all (foreign i) (build_rules d i')" "list_all (foreign i) (buildHostCleanupRules i')"
proof -
  note f = foreign_jump [OF assms, simplified] foreign_own [OF _ assms(2)]
  show "list_all (foreign i) (build_rules d i')"
    unfolding build_rules_parts by (auto simp: list_all_iff nf_commands_def intro!: f)
  show "list_all (foreign i) (buildHostCleanupRules i')"
    unfolding buildHostCleanupRules_def Let_def by (auto simp: nf_commands_def intro!: f)
qed

lemma cleanup_commands: "list_all nf_command (buildHostCleanupRules i)"
  by (simp add: buildHostCleanupRules_def Let_def nf_command_def nf_commands_def)

subsection \<open>Removal\<close>

text \<open>An interface the tables do not mention.\<close>

definition unknown_iface :: "string \<Rightarrow> nf_tables \<Rightarrow> bool" where
  "unknown_iface i t \<longleftrightarrow>
     t ''nat'' (pr_chain i) = None \<and> \<not> referenced t ''nat'' (pr_chain i) \<and>
     t ''filter'' (eg_chain i) = None \<and> \<not> referenced t ''filter'' (eg_chain i)"

lemma not_referenced_rules: "\<not> referenced t tab c \<Longrightarrow> t tab ch = Some rs \<Longrightarrow> i \<noteq> ''-j'' \<Longrightarrow> jump_spec i c \<notin> set rs"
  unfolding referenced_def by (metis (no_types) image_eqI jump_of_spec)

lemma run_delete_jump:
  assumes "t tab base = Some (jump_spec i c # rs)" and "t tab c \<noteq> None" and "i \<noteq> ''-j''"
  shows "nf_run [[''-t'', tab, ''-D'', base] @ jump_spec i c] t = Some (nf_set t tab base (Some rs))"
proof -
  have "has_target t tab (jump_spec i c)" using assms(2,3) by (simp add: has_target_def)
  then show ?thesis using assms(1) by (simp add: nf_on_rules_def)
qed

lemma run_delete_chain:
  assumes "t tab c \<noteq> None" and "\<not> referenced (nf_set t tab c (Some [])) tab c"
  shows "nf_run [[''-t'', tab, ''-F'', c], [''-t'', tab, ''-X'', c]] t = Some (nf_set t tab c None)"
  using assms by (auto simp: nf_on_rules_def)

lemma cleanup_parts:
  "buildHostCleanupRules i =
     [[''-t'', ''nat'', ''-D'', ''PREROUTING''] @ jump_spec i (pr_chain i)] @
     [[''-t'', ''nat'', ''-F'', pr_chain i], [''-t'', ''nat'', ''-X'', pr_chain i]] @
     [[''-t'', ''filter'', ''-D'', ''INPUT''] @ jump_spec i (eg_chain i)] @
     [[''-t'', ''filter'', ''-D'', ''FORWARD''] @ jump_spec i (eg_chain i)] @
     [[''-t'', ''filter'', ''-F'', eg_chain i], [''-t'', ''filter'', ''-X'', eg_chain i]]"
  by (simp add: buildHostCleanupRules_def Let_def)

lemma not_referenced_mono:
  assumes "\<not> referenced t tab c" and "\<And>ch rs. t' tab ch = Some rs \<Longrightarrow> rs = [] \<or> t tab ch = Some rs"
  shows "\<not> referenced t' tab c"
  using assms unfolding referenced_def by fastforce

lemma nf_run_cleanup:
  assumes "has_builtin t" and "iface_ok i" and "unknown_iface i t"
  shows "nf_run (buildHostCleanupRules i) (installed d i t) = Some t"
proof -
  have ij: "i \<noteq> ''-j''" using assms(2) by (simp add: iface_ok_def)
  note un = assms(3) [unfolded unknown_iface_def]
  obtain pre inp fwd where b: "t ''nat'' ''PREROUTING'' = Some pre" "t ''filter'' ''INPUT'' = Some inp" "t ''filter'' ''FORWARD'' = Some fwd"
    using assms(1) by (auto simp: has_builtin_def)
  let ?jp = "jump_spec i (pr_chain i)" and ?je = "jump_spec i (eg_chain i)"
  have r: "remove1 ?jp pre = pre" "remove1 ?je inp = inp" "remove1 ?je fwd = fwd"
    using un b not_referenced_rules ij by (blast intro: remove1_idem)+
  let ?u = "installed d i t"
  define t1 where "t1 = nf_set ?u ''nat'' ''PREROUTING'' (Some pre)"
  define t2 where "t2 = nf_set t1 ''nat'' (pr_chain i) None"
  define t3 where "t3 = nf_set t2 ''filter'' ''INPUT'' (Some inp)"
  define t4 where "t4 = nf_set t3 ''filter'' ''FORWARD'' (Some fwd)"
  have u: "?u ''nat'' ''PREROUTING'' = Some (?jp # pre)" "?u ''nat'' (pr_chain i) \<noteq> None"
    unfolding installed_at b with_jump_def by (simp_all add: r)
  have t1: "t1 ''nat'' ch = (if ch = pr_chain i then Some (pr_rules d) else t ''nat'' ch)" for ch
    using b(1) chain_distinct by (auto simp: t1_def nf_set_def installed_def)
  have t2: "t2 ''filter'' ''INPUT'' = Some (?je # inp)" "t2 ''filter'' (eg_chain i) \<noteq> None" "t2 ''nat'' = t ''nat''"
    "t2 ''filter'' = ?u ''filter''"
    using un b chain_distinct r t1 by (auto simp: t2_def t1_def nf_set_def installed_def with_jump_def fun_eq_iff)
  have t3: "t3 ''filter'' ''FORWARD'' = Some (?je # fwd)" "t3 ''filter'' (eg_chain i) \<noteq> None"
    using t2(4) b chain_distinct r by (simp_all add: t3_def nf_set_def installed_def with_jump_def)
  have t4: "t4 ''filter'' ch = (if ch = eg_chain i then Some (eg_rules d) else t ''filter'' ch)" "t4 ''nat'' = t ''nat''"
    "tab \<noteq> ''nat'' \<Longrightarrow> tab \<noteq> ''filter'' \<Longrightarrow> t4 tab = t tab" for ch tab
    using b chain_distinct t2(3,4) by (auto simp: t4_def t3_def t2_def t1_def nf_set_def installed_def fun_eq_iff)
  have free: "\<not> referenced (nf_set t1 ''nat'' (pr_chain i) (Some [])) ''nat'' (pr_chain i)"
    "\<not> referenced (nf_set t4 ''filter'' (eg_chain i) (Some [])) ''filter'' (eg_chain i)"
    by (rule not_referenced_mono [of t]; use un t1 t4(1) in \<open>auto simp: nf_set_def split: if_splits\<close>)+
  have s: "t1 ''nat'' (pr_chain i) \<noteq> None" "t4 ''filter'' (eg_chain i) \<noteq> None" by (simp_all add: t1 t4(1))
  have "nf_run (buildHostCleanupRules i) ?u = Some (nf_set t4 ''filter'' (eg_chain i) None)"
    unfolding cleanup_parts nf_run_append run_delete_jump [of ?u "''nat''", OF u ij] t1_def [symmetric] bind.bind_lunit
      run_delete_chain [of t1 "''nat''", OF s(1) free(1)] t2_def [symmetric]
      run_delete_jump [of t2 "''filter''" "''INPUT''", OF t2(1,2) ij] t3_def [symmetric]
      run_delete_jump [of t3 "''filter''" "''FORWARD''", OF t3 ij] t4_def [symmetric]
      run_delete_chain [of t4 "''filter''", OF s(2) free(2)] by (rule refl)
  moreover have "nf_set t4 ''filter'' (eg_chain i) None = t"
  proof
    fix tab
    consider "tab = ''nat''" | "tab = ''filter''" | "tab \<noteq> ''nat'' \<and> tab \<noteq> ''filter''" by blast
    then show "nf_set t4 ''filter'' (eg_chain i) None tab = t tab"
      using un t4 by cases (auto simp: nf_set_def fun_eq_iff)
  qed
  ultimately show ?thesis by simp
qed

lemma run_missing_chain:
  assumes "runs_netfilter env view bin" and "has_builtin (view bin w)" and "iface_ok i" and "view bin w ''nat'' (pr_chain i) = None"
  shows "\<exists>e w'. runNetfilter env bin (buildHostCleanupRules i) w = (Some e, w') \<and> view bin w' = view bin w \<and>
    (\<forall>b. b \<noteq> bin \<longrightarrow> view b w' = view b w)"
proof -
  let ?D = "[''-t'', ''nat'', ''-D'', ''PREROUTING''] @ jump_spec i (pr_chain i)" and ?F = "[''-t'', ''nat'', ''-F'', pr_chain i]"
  have ij: "i \<noteq> ''-j''" using assms(3) by (simp add: iface_ok_def)
  have c: "nf_command ?D" "nf_command ?F" by (simp_all add: nf_command_def nf_commands_def)
  have D: "nf_apply ?D (view bin w) = Inl NfNoTarget"
    using assms(2,4) ij user_chain(1) by (auto simp: has_builtin_def nf_on_rules_def has_target_def)
  obtain res w1 where r: "he_exec env bin ?D w = (res, w1)" "\<And>b. b \<noteq> bin \<Longrightarrow> view b w1 = view b w"
    "\<And>e. nf_apply ?D (view bin w) = Inl e \<Longrightarrow> (\<exists>msg. res = ExecFailed msg \<and> nf_message e msg) \<and> view bin w1 = view bin w"
    by (rule runs_netfilterD [OF assms(1) c(1), of w]) (rule that; assumption)
  obtain res2 w2 where r2: "he_exec env bin ?F w1 = (res2, w2)" "\<And>b. b \<noteq> bin \<Longrightarrow> view b w2 = view b w1"
    "\<And>e. nf_apply ?F (view bin w1) = Inl e \<Longrightarrow> (\<exists>msg. res2 = ExecFailed msg \<and> nf_message e msg) \<and> view bin w2 = view bin w1"
    by (rule runs_netfilterD [OF assms(1) c(2), of w1]) (rule that; assumption)
  obtain m1 where m1: "res = ExecFailed m1" "view bin w1 = view bin w" using r(3) [OF D] by blast
  have F: "nf_apply ?F (view bin w1) = Inl NfNoChain" using assms(4) m1(2) by simp
  obtain m2 where m2: "res2 = ExecFailed m2" "view bin w2 = view bin w1" using r2(3) [OF F] by blast
  have nt: "\<not> tolerated ?F m2" by (simp add: tolerated_def)
  show ?thesis
  proof (cases "tolerated ?D m1")
    case True
    then have "runNetfilter env bin (buildHostCleanupRules i) w = (Some (NetfilterFailed bin ?F m2), w2)"
      unfolding buildHostCleanupRules_def Let_def using r(1) r2(1) m1(1) m2(1) nt by simp
    then show ?thesis using r(2) r2(2) m1(2) m2(2) by simp
  next
    case False
    then have "runNetfilter env bin (buildHostCleanupRules i) w = (Some (NetfilterFailed bin ?D m1), w1)"
      unfolding buildHostCleanupRules_def Let_def using r(1) m1(1) by simp
    then show ?thesis using r(2) m1(2) by simp
  qed
qed

subsection \<open>Properties\<close>

text \<open>
  Claim C34. An intercepted pod reaches nothing but the proxy: on tables that have the built-in
  chains, installing the rules for its interface succeeds, and from then on, whatever is installed
  or removed for other interfaces and whether that succeeds or not, new HTTP, HTTPS and DNS
  connections from that interface are redirected to the proxy's ports, and every packet from it is
  rejected unless it belongs to a connection, goes to the proxy's address and one of these ports,
  or is one of the ICMPv6 messages the rules allow.
\<close>

theorem pod_isolated:
  assumes "runs_netfilter env view bin" and "has_builtin (view bin w)" and "iface_ok i" and "dest_ok d"
    and "list_all (\<lambda>(i', d'). iface_ok i' \<and> i' \<noteq> i) later"
  shows "\<exists>w1. runNetfilter env bin (build_rules d i) w = (None, w1) \<and>
    isolates d i (view bin (fold (\<lambda>(i', d') w.
      snd (runNetfilter env bin (case d' of Some d' \<Rightarrow> build_rules d' i' | None \<Rightarrow> buildHostCleanupRules i') w)) later w1))"
proof -
  obtain w1 where w1: "runNetfilter env bin (build_rules d i) w = (None, w1)" "view bin w1 = installed d i (view bin w)"
    using runNetfilter_runs [OF assms(1) build_rules_commands nf_run_install [OF assms(2-4)]] by blast
  have "guarded d i (view bin (fold (\<lambda>(i', d') w.
      snd (runNetfilter env bin (case d' of Some d' \<Rightarrow> build_rules d' i' | None \<Rightarrow> buildHostCleanupRules i') w)) later w2))"
    if "guarded d i (view bin w2)" for w2
    using assms(5) that
  proof (induction later arbitrary: w2)
    case Nil
    then show ?case by simp
  next
    case (Cons x later)
    obtain i' d' where x: "x = (i', d')" by fastforce
    then have i': "iface_ok i'" "i' \<noteq> i" using Cons.prems(1) by simp_all
    have "list_all (foreign i) (case d' of Some d' \<Rightarrow> build_rules d' i' | None \<Rightarrow> buildHostCleanupRules i')"
      using foreign_rules [OF i'] by (simp split: option.split)
    from guarded_run_foreign [OF assms(1,3) this Cons.prems(2)] show ?case
      using Cons.IH Cons.prems(1) x by simp
  qed
  then have "isolates d i (view bin (fold (\<lambda>(i', d') w.
      snd (runNetfilter env bin (case d' of Some d' \<Rightarrow> build_rules d' i' | None \<Rightarrow> buildHostCleanupRules i') w)) later w1))"
    using guarded_installed [OF assms(2)] w1(2) by (intro guarded_isolates [OF _ assms(3,4)]) simp
  then show ?thesis using w1(1) by blast
qed

text \<open>
  Claim C35. Removal undoes installation: where the tables do not mention the interface before,
  installing its rules (once or several times) and removing them gives back the same tables, without an error.
\<close>

theorem cleanup_restores:
  assumes "runs_netfilter env view bin" and "has_builtin (view bin w)" and "iface_ok i" and "dest_ok d"
    and "unknown_iface i (view bin w)"
  shows "\<exists>w1 w2 w3. runNetfilter env bin (build_rules d i) w = (None, w1) \<and> runNetfilter env bin (build_rules d i) w1 = (None, w2) \<and>
    view bin w2 = view bin w1 \<and> runNetfilter env bin (buildHostCleanupRules i) w2 = (None, w3) \<and> view bin w3 = view bin w"
proof -
  obtain w1 where w1: "runNetfilter env bin (build_rules d i) w = (None, w1)" "view bin w1 = installed d i (view bin w)"
    using runNetfilter_runs [OF assms(1) build_rules_commands nf_run_install [OF assms(2-4)]] by blast
  then have "has_builtin (view bin w1)"
    using assms(2) unfolding has_builtin_def by (simp add: installed_at with_jump_def)
  then obtain w2 where w2: "runNetfilter env bin (build_rules d i) w1 = (None, w2)" "view bin w2 = installed d i (view bin w)"
    using runNetfilter_runs [OF assms(1) build_rules_commands nf_run_install [OF _ assms(3,4)]] w1(2) by (metis installed_twice)
  have "nf_run (buildHostCleanupRules i) (view bin w2) = Some (view bin w)"
    unfolding w2(2) by (rule nf_run_cleanup [OF assms(2,3,5)])
  from runNetfilter_runs [OF assms(1) cleanup_commands this] show ?thesis using w1 w2 by auto
qed

subsection \<open>A node that behaves as documented\<close>

definition nf_text :: "nf_error \<Rightarrow> string" where
  "nf_text e =
     (case e of
        NfExists \<Rightarrow> ''iptables: Chain already exists.''
      | NfNoChain \<Rightarrow> ''iptables: No chain/target/match by that name.''
      | NfBadRule \<Rightarrow> ''iptables: Bad rule (does a matching rule exist in that chain?).''
      | NfNoTarget \<Rightarrow> ''iptables: chain does not exist''
      | NfBusy \<Rightarrow> ''iptables: Too many links.''
      | NfUsage \<Rightarrow> ''iptables: usage'')"

type_synonym node = "string \<Rightarrow> nf_tables"

definition node_exec :: "string \<Rightarrow> string list \<Rightarrow> node \<Rightarrow> exec_result \<times> node" where
  "node_exec bin args w =
     (if bin = ''iptables'' \<or> bin = ''ip6tables'' then
        (case nf_apply args (w bin) of
           Inr t \<Rightarrow> (ExecOK [], w(bin := t))
         | Inl e \<Rightarrow> (ExecFailed (nf_text e), w))
      else (fst (he_exec sample_host bin args ()), w))"

definition node_env :: "node host_env" where
  "node_env =
     \<lparr>he_exec = node_exec, he_ifname = (\<lambda>n w. he_ifname sample_host n ()), he_ifaddrs = (\<lambda>w. None)\<rparr>"

definition empty_tables :: nf_tables where
  "empty_tables = (\<lambda>tab c.
     if tab = ''nat'' \<and> c = ''PREROUTING'' \<or> tab = ''filter'' \<and> (c = ''INPUT'' \<or> c = ''FORWARD'') then Some [] else None)"

definition view_node :: "string \<Rightarrow> node \<Rightarrow> nf_tables" where
  "view_node bin w = w bin"

lemma node_runs_netfilter:
  assumes "bin = ''iptables'' \<or> bin = ''ip6tables''"
  shows "runs_netfilter node_env view_node bin"
proof -
  have m: "nf_message e (nf_text e)" for e by (cases e) (simp_all only: nf_message_def nf_text_def nf_error.case, code_simp+)
  show ?thesis
    unfolding runs_netfilter_def using assms m
    by (auto simp: node_env_def node_exec_def view_node_def split: sum.splits)
qed

lemma empty_tables_builtin [simp]: "has_builtin empty_tables"
  by (simp add: has_builtin_def empty_tables_def)

lemma empty_tables_unknown [simp]: "unknown_iface i empty_tables"
  by (auto simp: unknown_iface_def referenced_def empty_tables_def pr_chain_def eg_chain_def split: if_splits)

definition sample_dest :: proxy_dest where
  "sample_dest = \<lparr>pd_v6 = False, pd_host = ''10.0.0.1'', pd_http = ''8080'', pd_https = ''8443'', pd_dns = ''53''\<rparr>"

lemma sample_dest_ok [simp]: "dest_ok sample_dest"
  by code_simp

definition sample_packet :: packet where
  "sample_packet = \<lparr>pk_in = ''veth17'', pk_dst = v4_in_v6 [8, 8, 8, 8], pk_l4 = TCP 443, pk_ct = ''NEW''\<rparr>"

lemma sample_packet_verdict:
  "redirect sample_dest sample_packet = Some ''8443''" "\<not> allowed sample_dest sample_packet"
proof -
  have "parse_ip ''10.0.0.1'' \<noteq> Some (v4_in_v6 [8, 8, 8, 8])" by code_simp
  then show "redirect sample_dest sample_packet = Some ''8443''" "\<not> allowed sample_dest sample_packet"
    by (auto simp: redirect_def allowed_def sample_dest_def sample_packet_def)
qed

theorem pod_isolated_witness:
  "\<exists>w1. runNetfilter node_env ''iptables'' (build_rules sample_dest ''veth17'') (\<lambda>_. empty_tables) = (None, w1) \<and>
     (let t = view_node ''iptables'' (snd (runNetfilter node_env ''iptables'' (buildHostCleanupRules ''veth18'') w1)) in
      nf_verdict (\<lambda>_ _. False) 2 (t ''nat'') sample_packet ''PREROUTING'' = Some (Dnat ''10.0.0.1:8443'') \<and>
      nf_verdict (\<lambda>_ _. False) 2 (t ''filter'') sample_packet ''FORWARD'' = Some Reject)"
proof -
  have hp: "join_host_port (pd_host sample_dest) ''8443'' = ''10.0.0.1:8443''" by code_simp
  have i: "iface_ok ''veth17''" "iface_ok ''veth18''" by code_simp+
  have b: "has_builtin (view_node ''iptables'' (\<lambda>_. empty_tables))" by (simp add: view_node_def)
  have l: "list_all (\<lambda>(i', d'). iface_ok i' \<and> i' \<noteq> ''veth17'') [(''veth18'', None :: proxy_dest option)]" using i(2) by simp
  let ?t = "\<lambda>w1. view_node ''iptables'' (snd (runNetfilter node_env ''iptables'' (buildHostCleanupRules ''veth18'') w1))"
  have r: "runs_netfilter node_env view_node ''iptables''" by (rule node_runs_netfilter) (rule disjI1, rule refl)
  obtain w1 where w1: "runNetfilter node_env ''iptables'' (build_rules sample_dest ''veth17'') (\<lambda>_. empty_tables) = (None, w1)"
    "isolates sample_dest ''veth17'' (?t w1)"
    using pod_isolated [of node_env view_node "''iptables''" "\<lambda>_. empty_tables" "''veth17''" sample_dest "[(''veth18'', None)]",
      OF r b i(1) sample_dest_ok l]
    unfolding fold_simps prod.case option.case by (elim exE conjE) (rule that)
  have p: "pk_in sample_packet = ''veth17''" by (simp add: sample_packet_def)
  have "nf_verdict (\<lambda>_ _. False) 2 (?t w1 ''nat'') sample_packet ''PREROUTING'' = Some (Dnat ''10.0.0.1:8443'')"
    using isolates_redirect [OF w1(2) p sample_packet_verdict(1), of _ 0] unfolding add_0 hp .
  moreover have "nf_verdict (\<lambda>_ _. False) 2 (?t w1 ''filter'') sample_packet ''FORWARD'' = Some Reject"
    using isolates_filter [OF w1(2) p, of "''FORWARD''" _ 0, OF insertI2, OF insertI1]
    unfolding add_0 if_not_P [OF sample_packet_verdict(2)] .
  ultimately show ?thesis using w1(1) unfolding Let_def by (intro exI [of _ w1] conjI)
qed

theorem cleanup_restores_witness:
  "\<exists>w1 w3. runNetfilter node_env ''iptables'' (build_rules sample_dest ''veth17'') (\<lambda>_. empty_tables) = (None, w1) \<and>
     view_node ''iptables'' w3 = empty_tables \<and>
     (\<exists>w2. runNetfilter node_env ''iptables'' (buildHostCleanupRules ''veth17'') w2 = (None, w3))"
proof -
  have i: "iface_ok ''veth17''" by code_simp
  have b: "has_builtin (view_node ''iptables'' (\<lambda>_. empty_tables))" "unknown_iface ''veth17'' (view_node ''iptables'' (\<lambda>_. empty_tables))"
    by (simp_all add: view_node_def)
  have r: "runs_netfilter node_env view_node ''iptables''" by (rule node_runs_netfilter) (rule disjI1, rule refl)
  show ?thesis
    using cleanup_restores [of node_env view_node "''iptables''" "\<lambda>_. empty_tables" "''veth17''" sample_dest,
      OF r b(1) i sample_dest_ok b(2)]
    unfolding view_node_def by blast
qed

end
