(* ===== verification/Pod_Map.thy ===== *)
theory Pod_Map
  imports Portal_Prelude
begin

text \<open>
  pkg/portals/podmap.go: the node proxy's table of intercepted pods.  The table holds pointers:
  \<^verbatim>\<open>byUID\<close> and \<^verbatim>\<open>byIP\<close> share \<^verbatim>\<open>*PodInfo\<close> objects, and \<^verbatim>\<open>Bind\<close> and \<^verbatim>\<open>Unbind\<close> write through the
  pointer found under the UID, so that a caller looked up by IP sees the change.  The model
  keeps that sharing: a heap of objects, an allocation counter, and two maps to addresses.
  Every operation holds the table's mutex for its whole body and is one step here.

  Shown: the two indexes agree in every reachable state (a pod found by IP is the object
  registered under its UID and lists that IP), revocation through the UID is seen through
  every IP, registration never restores a revoked binding, the synchronisation sweep does
  not depend on the iteration order, and the table refines a map from UIDs to pods.
\<close>

subsection \<open>Data\<close>

record PodInfo =
  pi_UID :: string
  pi_Namespace :: string
  pi_Name :: string
  pi_IPs :: "string list"
  pi_Annotations :: "string \<rightharpoonup> string"
  pi_Labels :: "string \<rightharpoonup> string"
  pi_Identity :: string
  pi_Policy :: string
  pi_Bound :: bool

definition zero_pod :: PodInfo where
  "zero_pod =
     \<lparr>pi_UID = '''', pi_Namespace = '''', pi_Name = '''', pi_IPs = [], pi_Annotations = (\<lambda>_. None),
      pi_Labels = (\<lambda>_. None), pi_Identity = '''', pi_Policy = '''', pi_Bound = False\<rparr>"

type_synonym addr = nat

record PodMap =
  pm_heap :: "addr \<Rightarrow> PodInfo"
  pm_next :: addr
  byUID :: "string \<rightharpoonup> addr"
  byIP :: "string \<rightharpoonup> addr"

definition NewPodMap :: PodMap where
  "NewPodMap =
     \<lparr>pm_heap = (\<lambda>_. zero_pod), pm_next = 0, byUID = (\<lambda>_. None), byIP = (\<lambda>_. None)\<rparr>"

text \<open>A fresh object, as \<^verbatim>\<open>&PodInfo{...}\<close>, a decoded request body or a slice element gives one.\<close>

definition new_pod :: "PodInfo \<Rightarrow> PodMap \<Rightarrow> addr \<times> PodMap" where
  "new_pod info pm =
     (pm_next pm,
      pm\<lparr>pm_heap := (pm_heap pm)(pm_next pm := info), pm_next := Suc (pm_next pm)\<rparr>)"

text \<open>Indexing a Go map of strings: a missing key reads as the empty string.\<close>

definition map_str :: "(string \<rightharpoonup> string) \<Rightarrow> string \<Rightarrow> string" where
  "map_str m k = (case m k of None \<Rightarrow> '''' | Some v \<Rightarrow> v)"

subsection \<open>Operations\<close>

definition delete_keys :: "string list \<Rightarrow> (string \<rightharpoonup> 'a) \<Rightarrow> (string \<rightharpoonup> 'a)" where
  "delete_keys ks m = fold (\<lambda>k m. m(k := None)) ks m"

definition set_ips :: "string list \<Rightarrow> addr \<Rightarrow> (string \<rightharpoonup> addr) \<Rightarrow> (string \<rightharpoonup> addr)" where
  "set_ips ips a m = fold (\<lambda>ip m. if ip \<noteq> '''' then m(ip \<mapsto> a) else m) ips m"

definition addOrUpdateLocked :: "addr option \<Rightarrow> PodMap \<Rightarrow> PodMap" where
  "addOrUpdateLocked p pm =
     (case p of
        None \<Rightarrow> pm
      | Some a \<Rightarrow>
          let info = pm_heap pm a in
          if pi_UID info = '''' then pm
          else
            let pm1 =
              (case byUID pm (pi_UID info) of
                 Some e \<Rightarrow>
                   let ex = pm_heap pm e in
                   pm\<lparr>byIP := delete_keys (filter (\<lambda>old. old \<notin> set (pi_IPs info)) (pi_IPs ex)) (byIP pm),
                      pm_heap := (pm_heap pm)(a := info\<lparr>pi_Identity := pi_Identity ex,
                                   pi_Policy := pi_Policy ex, pi_Bound := pi_Bound ex\<rparr>)\<rparr>
               | None \<Rightarrow>
                   (case pi_Annotations info ''service-portal.gke.io/policy'' of
                      Some pol \<Rightarrow>
                        if pol \<noteq> '''' then
                          pm\<lparr>pm_heap := (pm_heap pm)(a := info\<lparr>pi_Policy := pol,
                               pi_Identity := map_str (pi_Annotations info) ''service-portal.gke.io/identity'',
                               pi_Bound := True\<rparr>)\<rparr>
                        else pm
                    | None \<Rightarrow> pm))
            in pm1\<lparr>byUID := (byUID pm1)(pi_UID info \<mapsto> a),
                   byIP := set_ips (pi_IPs info) a (byIP pm1)\<rparr>)"

definition AddOrUpdatePod :: "PodInfo \<Rightarrow> PodMap \<Rightarrow> PodMap" where
  "AddOrUpdatePod info pm = (let (a, pm1) = new_pod info pm in addOrUpdateLocked (Some a) pm1)"

definition RemovePod :: "string \<Rightarrow> PodMap \<Rightarrow> PodMap" where
  "RemovePod uid pm =
     (case byUID pm uid of
        None \<Rightarrow> pm
      | Some a \<Rightarrow>
          pm\<lparr>byIP := delete_keys (pi_IPs (pm_heap pm a)) (byIP pm), byUID := (byUID pm)(uid := None)\<rparr>)"

text \<open>
  \<^verbatim>\<open>SynchronizePods\<close>: first every listed pod is added, then the pods that the list does not
  name are removed in the order \<open>ord\<close> in which the range over \<^verbatim>\<open>byUID\<close> visits them.
\<close>

definition sync_add :: "PodInfo list \<Rightarrow> PodMap \<Rightarrow> PodMap" where
  "sync_add pods pm = fold AddOrUpdatePod pods pm"

definition sync_sweep :: "string list \<Rightarrow> string list \<Rightarrow> PodMap \<Rightarrow> PodMap" where
  "sync_sweep active ord pm =
     fold (\<lambda>uid pm. if uid \<notin> set active then RemovePod uid pm else pm) ord pm"

definition SynchronizePods :: "PodInfo list \<Rightarrow> string list \<Rightarrow> PodMap \<Rightarrow> PodMap" where
  "SynchronizePods pods ord pm = sync_sweep (map pi_UID pods) ord (sync_add pods pm)"

definition GetPodByIP :: "string \<Rightarrow> PodMap \<Rightarrow> addr option" where
  "GetPodByIP ip pm = byIP pm ip"

definition Bind :: "string \<Rightarrow> string \<Rightarrow> string \<Rightarrow> PodMap \<Rightarrow> PodMap" where
  "Bind uid identity policy pm =
     (let (a, pm1) =
        (case byUID pm uid of
           Some a \<Rightarrow> (a, pm)
         | None \<Rightarrow>
             let (a, pm1) = new_pod (zero_pod\<lparr>pi_UID := uid\<rparr>) pm
             in (a, pm1\<lparr>byUID := (byUID pm1)(uid \<mapsto> a)\<rparr>))
      in pm1\<lparr>pm_heap := (pm_heap pm1)(a := (pm_heap pm1 a)
               \<lparr>pi_Identity := identity, pi_Policy := policy, pi_Bound := True\<rparr>)\<rparr>)"

datatype PodError = PodUIDNotFound string

definition pod_error_text :: "PodError \<Rightarrow> string" where
  "pod_error_text e =
     (case e of PodUIDNotFound uid \<Rightarrow> ''pod UID '' @ [CHR 34] @ uid @ [CHR 34] @ '' not found'')"

definition Unbind :: "string \<Rightarrow> PodMap \<Rightarrow> PodError + PodMap" where
  "Unbind uid pm =
     (case byUID pm uid of
        None \<Rightarrow> Inl (PodUIDNotFound uid)
      | Some a \<Rightarrow>
          Inr (pm\<lparr>pm_heap := (pm_heap pm)(a := (pm_heap pm a)
                 \<lparr>pi_Identity := '''', pi_Policy := '''', pi_Bound := False\<rparr>)\<rparr>))"

definition IsRuleAllowed :: "PodInfo option \<Rightarrow> string \<Rightarrow> string \<Rightarrow> bool" where
  "IsRuleAllowed pod ruleName host =
     (case pod of
        None \<Rightarrow> False
      | Some p \<Rightarrow>
          if \<not> pi_Bound p \<or> pi_Policy p = '''' then False
          else list_ex (\<lambda>tok. let t = trim_space (to_lower tok) in
                  t = ''*'' \<or> t = to_lower ruleName \<or> t = to_lower host)
                (split_on (pi_Policy p) '',''))"

subsection \<open>The administration API\<close>

text \<open>
  \<^verbatim>\<open>AdminHandler\<close>.  The JSON decoder is a parameter: a request carries what decoding its body
  gives for each of the types the handlers ask for (\<^const>\<open>None\<close> or the error's text when decoding
  fails; encoding a response does not fail on these types), and what \<^verbatim>\<open>r.URL.Query().Get\<close> returns.  The path is the one the multiplexer dispatches on, after it has
  redirected paths that are not clean.
\<close>

record BindRequest =
  br_PodUID :: string
  br_Identity :: string
  br_Policy :: string

record AdminRequest =
  ar_method :: string
  ar_path :: string
  ar_query :: "string \<Rightarrow> string"
  ar_bind :: "BindRequest option"
  ar_unbind :: "string option"
  ar_pod :: "string + PodInfo"
  ar_pods :: "string + PodInfo list"

datatype AdminResponse =
    HttpError nat string
  | StatusJson string string
  | PodsJson "PodInfo list"
  | EmptyOk

definition handle_bind :: "AdminRequest \<Rightarrow> PodMap \<Rightarrow> AdminResponse \<times> PodMap" where
  "handle_bind r pm =
     (let req = (case ar_bind r of
                   Some b \<Rightarrow> b
                 | None \<Rightarrow> \<lparr>br_PodUID = ar_query r ''podUID'', br_Identity = ar_query r ''identity'',
                            br_Policy = ar_query r ''policy''\<rparr>)
      in if br_PodUID req = '''' then (HttpError 400 ''missing podUID'', pm)
         else (StatusJson ''bound'' (br_PodUID req),
               Bind (br_PodUID req) (br_Identity req) (br_Policy req) pm))"

definition handle_unbind :: "AdminRequest \<Rightarrow> PodMap \<Rightarrow> AdminResponse \<times> PodMap" where
  "handle_unbind r pm =
     (let uid = (case ar_unbind r of Some u \<Rightarrow> u | None \<Rightarrow> ar_query r ''podUID'')
      in if uid = '''' then (HttpError 400 ''missing podUID'', pm)
         else case Unbind uid pm of
                Inl e \<Rightarrow> (HttpError 404 (pod_error_text e), pm)
              | Inr pm' \<Rightarrow> (StatusJson ''unbound'' uid, pm'))"

definition handle_pods :: "AdminRequest \<Rightarrow> string list \<Rightarrow> PodMap \<Rightarrow> AdminResponse \<times> PodMap" where
  "handle_pods r ord pm =
     (if ar_method r = ''GET'' then
        (PodsJson (List.map_filter (\<lambda>uid. map_option (pm_heap pm) (byUID pm uid)) ord), pm)
      else if ar_method r = ''POST'' then
        (case ar_pod r of
           Inl e \<Rightarrow> (HttpError 400 e, pm)
         | Inr info \<Rightarrow> (EmptyOk, AddOrUpdatePod info pm))
      else if ar_method r = ''PUT'' then
        (case ar_pods r of
           Inl e \<Rightarrow> (HttpError 400 e, pm)
         | Inr pods \<Rightarrow> (EmptyOk, SynchronizePods pods ord pm))
      else (HttpError 405 ''method not allowed'', pm))"

definition handle_pod :: "AdminRequest \<Rightarrow> PodMap \<Rightarrow> AdminResponse \<times> PodMap" where
  "handle_pod r pm =
     (let uid = trim_prefix (ar_path r) ''/api/v1/pods/'' in
      if ar_method r = ''DELETE'' \<and> uid \<noteq> '''' then (EmptyOk, RemovePod uid pm)
      else (HttpError 404 ''not found'', pm))"

definition AdminHandler :: "AdminRequest \<Rightarrow> string list \<Rightarrow> PodMap \<Rightarrow> AdminResponse \<times> PodMap" where
  "AdminHandler r ord pm =
     (if ar_path r = ''/bind'' then handle_bind r pm
      else if ar_path r = ''/unbind'' then handle_unbind r pm
      else if ar_path r = ''/api/v1/pods'' then handle_pods r ord pm
      else if has_prefix (ar_path r) ''/api/v1/pods/'' then handle_pod r pm
      else (HttpError 404 ''404 page not found'', pm))"

subsection \<open>Characteristic equations\<close>

lemma delete_keys_apply [simp]: "delete_keys ks m k = (if k \<in> set ks then None else m k)"
  by (induction ks arbitrary: m) (auto simp: delete_keys_def)

lemma set_ips_apply [simp]:
  "set_ips ips a m ip = (if ip \<noteq> '''' \<and> ip \<in> set ips then Some a else m ip)"
  by (induction ips arbitrary: m) (auto simp: set_ips_def)

text \<open>What registration stores, given what the table held for the UID.\<close>

definition registered :: "PodInfo option \<Rightarrow> PodInfo \<Rightarrow> PodInfo" where
  "registered old info =
     (case old of
        Some ex \<Rightarrow> info\<lparr>pi_Identity := pi_Identity ex, pi_Policy := pi_Policy ex, pi_Bound := pi_Bound ex\<rparr>
      | None \<Rightarrow>
          if map_str (pi_Annotations info) ''service-portal.gke.io/policy'' \<noteq> '''' then
            info\<lparr>pi_Policy := map_str (pi_Annotations info) ''service-portal.gke.io/policy'',
                 pi_Identity := map_str (pi_Annotations info) ''service-portal.gke.io/identity'',
                 pi_Bound := True\<rparr>
          else info)"

lemma registered_same [simp]:
  "pi_UID (registered old info) = pi_UID info"
  "pi_IPs (registered old info) = pi_IPs info"
  by (auto simp: registered_def split: option.split)

definition pm_abs :: "PodMap \<Rightarrow> (string \<rightharpoonup> PodInfo)" where
  "pm_abs pm uid = map_option (pm_heap pm) (byUID pm uid)"

definition pm_inv :: "PodMap \<Rightarrow> bool" where
  "pm_inv pm \<longleftrightarrow>
     finite (dom (byUID pm)) \<and>
     (\<forall>uid a. byUID pm uid = Some a \<longrightarrow> a < pm_next pm \<and> pi_UID (pm_heap pm a) = uid) \<and>
     (\<forall>ip a. byIP pm ip = Some a \<longrightarrow>
        ip \<noteq> '''' \<and> ip \<in> set (pi_IPs (pm_heap pm a)) \<and> byUID pm (pi_UID (pm_heap pm a)) = Some a)"

lemma pm_invI:
  assumes "finite (dom (byUID pm))"
    and "\<And>uid a. byUID pm uid = Some a \<Longrightarrow> a < pm_next pm \<and> pi_UID (pm_heap pm a) = uid"
    and "\<And>ip a. byIP pm ip = Some a \<Longrightarrow>
        ip \<noteq> '''' \<and> ip \<in> set (pi_IPs (pm_heap pm a)) \<and> byUID pm (pi_UID (pm_heap pm a)) = Some a"
  shows "pm_inv pm"
  using assms by (simp add: pm_inv_def)

lemma pm_inv_finite: "pm_inv pm \<Longrightarrow> finite (dom (byUID pm))"
  by (simp add: pm_inv_def)

lemma pm_inv_uid:
  "pm_inv pm \<Longrightarrow> byUID pm uid = Some a \<Longrightarrow> a < pm_next pm \<and> pi_UID (pm_heap pm a) = uid"
  by (simp add: pm_inv_def)

lemma pm_inv_ip:
  "pm_inv pm \<Longrightarrow> byIP pm ip = Some a \<Longrightarrow>
   ip \<noteq> '''' \<and> ip \<in> set (pi_IPs (pm_heap pm a)) \<and> byUID pm (pi_UID (pm_heap pm a)) = Some a"
  by (simp add: pm_inv_def)

lemma AddOrUpdatePod_empty:
  "pi_UID info = '''' \<Longrightarrow> AddOrUpdatePod info pm = snd (new_pod info pm)"
  by (simp add: AddOrUpdatePod_def addOrUpdateLocked_def new_pod_def Let_def)

lemma new_pod_simps [simp]:
  "byUID (snd (new_pod info pm)) = byUID pm"
  "byIP (snd (new_pod info pm)) = byIP pm"
  "pm_next (snd (new_pod info pm)) = Suc (pm_next pm)"
  "pm_heap (snd (new_pod info pm)) = (pm_heap pm)(pm_next pm := info)"
  "fst (new_pod info pm) = pm_next pm"
  by (simp_all add: new_pod_def)

lemma AddOrUpdatePod_simps:
  assumes "pm_inv pm" "pi_UID info \<noteq> ''''"
  shows "pm_heap (AddOrUpdatePod info pm) =
           (pm_heap pm)(pm_next pm := registered (pm_abs pm (pi_UID info)) info)"
    and "byUID (AddOrUpdatePod info pm) = (byUID pm)(pi_UID info \<mapsto> pm_next pm)"
    and "pm_next (AddOrUpdatePod info pm) = Suc (pm_next pm)"
    and "byIP (AddOrUpdatePod info pm) ip =
           (if ip \<noteq> '''' \<and> ip \<in> set (pi_IPs info) then Some (pm_next pm)
            else if \<exists>ex. pm_abs pm (pi_UID info) = Some ex \<and> ip \<in> set (pi_IPs ex) - set (pi_IPs info)
              then None else byIP pm ip)"
proof -
  have e: "e \<noteq> pm_next pm" if "byUID pm (pi_UID info) = Some e" for e
    using pm_inv_uid [OF assms(1) that] by simp
  show "pm_heap (AddOrUpdatePod info pm) =
           (pm_heap pm)(pm_next pm := registered (pm_abs pm (pi_UID info)) info)"
    using assms(2) e
    by (auto simp: AddOrUpdatePod_def addOrUpdateLocked_def new_pod_def Let_def registered_def
          pm_abs_def map_str_def split: option.split)
  show "byUID (AddOrUpdatePod info pm) = (byUID pm)(pi_UID info \<mapsto> pm_next pm)"
    using assms(2)
    by (auto simp: AddOrUpdatePod_def addOrUpdateLocked_def new_pod_def Let_def split: option.split)
  show "pm_next (AddOrUpdatePod info pm) = Suc (pm_next pm)"
    using assms(2)
    by (auto simp: AddOrUpdatePod_def addOrUpdateLocked_def new_pod_def Let_def split: option.split)
  show "byIP (AddOrUpdatePod info pm) ip =
           (if ip \<noteq> '''' \<and> ip \<in> set (pi_IPs info) then Some (pm_next pm)
            else if \<exists>ex. pm_abs pm (pi_UID info) = Some ex \<and> ip \<in> set (pi_IPs ex) - set (pi_IPs info)
              then None else byIP pm ip)"
    using assms(2) e
    by (auto simp: AddOrUpdatePod_def addOrUpdateLocked_def new_pod_def Let_def pm_abs_def
          split: option.split)
qed

subsection \<open>The invariant is kept\<close>

lemma pm_inv_new [go_inv]: "pm_inv NewPodMap"
  by (simp add: pm_inv_def NewPodMap_def)

lemma pm_inv_AddOrUpdatePod [go_inv]:
  assumes inv: "pm_inv pm"
  shows "pm_inv (AddOrUpdatePod info pm)"
proof (cases "pi_UID info = ''''")
  case True
  show ?thesis
  proof (rule pm_invI)
    show "finite (dom (byUID (AddOrUpdatePod info pm)))"
      using True pm_inv_finite [OF inv] by (simp add: AddOrUpdatePod_empty)
  next
    fix uid a
    assume "byUID (AddOrUpdatePod info pm) uid = Some a"
    with True pm_inv_uid [OF inv, of uid a] show
      "a < pm_next (AddOrUpdatePod info pm) \<and> pi_UID (pm_heap (AddOrUpdatePod info pm) a) = uid"
      by (auto simp: AddOrUpdatePod_empty)
  next
    fix ip a
    assume "byIP (AddOrUpdatePod info pm) ip = Some a"
    with True have ip: "byIP pm ip = Some a" by (simp add: AddOrUpdatePod_empty)
    from pm_inv_ip [OF inv ip] have "a \<noteq> pm_next pm"
      using pm_inv_uid [OF inv] by blast
    with True pm_inv_ip [OF inv ip] show "ip \<noteq> '''' \<and>
        ip \<in> set (pi_IPs (pm_heap (AddOrUpdatePod info pm) a)) \<and>
        byUID (AddOrUpdatePod info pm) (pi_UID (pm_heap (AddOrUpdatePod info pm) a)) = Some a"
      by (simp add: AddOrUpdatePod_empty)
  qed
next
  case False
  note sim = AddOrUpdatePod_simps [OF inv False]
  show ?thesis
  proof (rule pm_invI)
    show "finite (dom (byUID (AddOrUpdatePod info pm)))"
      using pm_inv_finite [OF inv] by (simp add: sim)
  next
    fix uid a
    assume "byUID (AddOrUpdatePod info pm) uid = Some a"
    then show "a < pm_next (AddOrUpdatePod info pm) \<and> pi_UID (pm_heap (AddOrUpdatePod info pm) a) = uid"
      using pm_inv_uid [OF inv, of uid a] by (auto simp: sim split: if_splits)
  next
    fix ip a
    assume a: "byIP (AddOrUpdatePod info pm) ip = Some a"
    show "ip \<noteq> '''' \<and> ip \<in> set (pi_IPs (pm_heap (AddOrUpdatePod info pm) a)) \<and>
        byUID (AddOrUpdatePod info pm) (pi_UID (pm_heap (AddOrUpdatePod info pm) a)) = Some a"
    proof (cases "ip \<noteq> '''' \<and> ip \<in> set (pi_IPs info)")
      case True
      with a show ?thesis by (auto simp: sim)
    next
      case other: False
      with a have ip: "byIP pm ip = Some a"
        and no: "\<not> (\<exists>ex. pm_abs pm (pi_UID info) = Some ex \<and> ip \<in> set (pi_IPs ex) - set (pi_IPs info))"
        by (auto simp: sim split: if_splits)
      from pm_inv_ip [OF inv ip] have old: "ip \<noteq> ''''" "ip \<in> set (pi_IPs (pm_heap pm a))"
        "byUID pm (pi_UID (pm_heap pm a)) = Some a" by auto
      with no other have "pi_UID (pm_heap pm a) \<noteq> pi_UID info"
        by (auto simp: pm_abs_def)
      moreover from pm_inv_uid [OF inv old(3)] have "a \<noteq> pm_next pm" by simp
      ultimately show ?thesis using old by (simp add: sim)
    qed
  qed
qed

lemma RemovePod_simps:
  assumes "byUID pm uid = Some a"
  shows "byUID (RemovePod uid pm) = (byUID pm)(uid := None)"
    and "byIP (RemovePod uid pm) ip = (if ip \<in> set (pi_IPs (pm_heap pm a)) then None else byIP pm ip)"
    and "pm_heap (RemovePod uid pm) = pm_heap pm"
    and "pm_next (RemovePod uid pm) = pm_next pm"
  using assms by (auto simp: RemovePod_def)

lemma RemovePod_absent: "byUID pm uid = None \<Longrightarrow> RemovePod uid pm = pm"
  by (simp add: RemovePod_def)

lemma pm_inv_RemovePod [go_inv]:
  assumes inv: "pm_inv pm"
  shows "pm_inv (RemovePod uid pm)"
proof (cases "byUID pm uid")
  case None
  with inv show ?thesis by (simp add: RemovePod_absent)
next
  case (Some a)
  note sim = RemovePod_simps [OF Some]
  show ?thesis
  proof (rule pm_invI)
    show "finite (dom (byUID (RemovePod uid pm)))"
      using pm_inv_finite [OF inv] by (simp add: sim)
  next
    fix u b
    assume "byUID (RemovePod uid pm) u = Some b"
    then show "b < pm_next (RemovePod uid pm) \<and> pi_UID (pm_heap (RemovePod uid pm) b) = u"
      using pm_inv_uid [OF inv, of u b] by (auto simp: sim split: if_splits)
  next
    fix ip b
    assume "byIP (RemovePod uid pm) ip = Some b"
    then have ip: "byIP pm ip = Some b" and notin: "ip \<notin> set (pi_IPs (pm_heap pm a))"
      by (auto simp: sim split: if_splits)
    from pm_inv_ip [OF inv ip] notin have "b \<noteq> a" by auto
    moreover have "pi_UID (pm_heap pm b) \<noteq> uid"
      using pm_inv_ip [OF inv ip] Some \<open>b \<noteq> a\<close> by auto
    ultimately show "ip \<noteq> '''' \<and> ip \<in> set (pi_IPs (pm_heap (RemovePod uid pm) b)) \<and>
        byUID (RemovePod uid pm) (pi_UID (pm_heap (RemovePod uid pm) b)) = Some b"
      using pm_inv_ip [OF inv ip] by (simp add: sim)
  qed
qed

lemma pm_inv_sync_add [go_inv]: "pm_inv pm \<Longrightarrow> pm_inv (sync_add pods pm)"
  by (induction pods arbitrary: pm) (auto simp: sync_add_def pm_inv_AddOrUpdatePod)

lemma pm_inv_sync_sweep [go_inv]: "pm_inv pm \<Longrightarrow> pm_inv (sync_sweep active ord pm)"
  by (induction ord arbitrary: pm) (auto simp: sync_sweep_def pm_inv_RemovePod)

lemma pm_inv_SynchronizePods [go_inv]: "pm_inv pm \<Longrightarrow> pm_inv (SynchronizePods pods ord pm)"
  by (simp add: SynchronizePods_def pm_inv_sync_add pm_inv_sync_sweep)

lemma Bind_simps:
  assumes "pm_inv pm"
  shows "byIP (Bind uid i pol pm) = byIP pm"
    and "byUID (Bind uid i pol pm) =
           (case byUID pm uid of Some _ \<Rightarrow> byUID pm | None \<Rightarrow> (byUID pm)(uid \<mapsto> pm_next pm))"
    and "pm_next pm \<le> pm_next (Bind uid i pol pm)"
    and "byUID pm uid = None \<Longrightarrow> pm_next (Bind uid i pol pm) = Suc (pm_next pm)"
    and "pm_heap (Bind uid i pol pm) =
           (case byUID pm uid of
              Some a \<Rightarrow> (pm_heap pm)(a := (pm_heap pm a)\<lparr>pi_Identity := i, pi_Policy := pol, pi_Bound := True\<rparr>)
            | None \<Rightarrow> (pm_heap pm)(pm_next pm :=
                zero_pod\<lparr>pi_UID := uid, pi_Identity := i, pi_Policy := pol, pi_Bound := True\<rparr>))"
  by (auto simp: Bind_def new_pod_def Let_def split: option.split)

lemma pm_inv_Bind [go_inv]:
  assumes inv: "pm_inv pm"
  shows "pm_inv (Bind uid i pol pm)"
proof (rule pm_invI)
  show "finite (dom (byUID (Bind uid i pol pm)))"
    using pm_inv_finite [OF inv] by (auto simp: Bind_simps [OF inv] split: option.split)
next
  fix u a
  assume "byUID (Bind uid i pol pm) u = Some a"
  then show "a < pm_next (Bind uid i pol pm) \<and> pi_UID (pm_heap (Bind uid i pol pm) a) = u"
    using pm_inv_uid [OF inv, of u a] pm_inv_uid [OF inv, of uid]
      Bind_simps(3,4) [OF inv, of uid i pol]
    by (fastforce simp: Bind_simps(2,5) [OF inv] split: option.splits if_splits)
next
  fix ip a
  assume "byIP (Bind uid i pol pm) ip = Some a"
  then have ip: "byIP pm ip = Some a" by (simp add: Bind_simps [OF inv])
  note old = pm_inv_ip [OF inv ip]
  then have "a \<noteq> pm_next pm" using pm_inv_uid [OF inv] by blast
  with old show "ip \<noteq> '''' \<and> ip \<in> set (pi_IPs (pm_heap (Bind uid i pol pm) a)) \<and>
      byUID (Bind uid i pol pm) (pi_UID (pm_heap (Bind uid i pol pm) a)) = Some a"
    by (auto simp: Bind_simps [OF inv] split: option.split)
qed

lemma pm_inv_Unbind [go_inv]:
  assumes inv: "pm_inv pm" and "Unbind uid pm = Inr pm'"
  shows "pm_inv pm'"
proof -
  from assms(2) obtain b where b: "byUID pm uid = Some b"
    and pm': "pm' = pm\<lparr>pm_heap := (pm_heap pm)(b := (pm_heap pm b)
                 \<lparr>pi_Identity := '''', pi_Policy := '''', pi_Bound := False\<rparr>)\<rparr>"
    by (auto simp: Unbind_def split: option.splits)
  have h: "pi_UID (pm_heap pm' x) = pi_UID (pm_heap pm x)"
    "pi_IPs (pm_heap pm' x) = pi_IPs (pm_heap pm x)" for x
    by (simp_all add: pm')
  have o: "byUID pm' = byUID pm" "byIP pm' = byIP pm" "pm_next pm' = pm_next pm"
    by (simp_all add: pm')
  from inv show ?thesis unfolding pm_inv_def h o .
qed

subsection \<open>Refinement of a map from UIDs to pods\<close>

definition spec_add :: "PodInfo \<Rightarrow> (string \<rightharpoonup> PodInfo) \<Rightarrow> (string \<rightharpoonup> PodInfo)" where
  "spec_add info m =
     (if pi_UID info = '''' then m else m(pi_UID info \<mapsto> registered (m (pi_UID info)) info))"

definition spec_sync :: "PodInfo list \<Rightarrow> (string \<rightharpoonup> PodInfo) \<Rightarrow> (string \<rightharpoonup> PodInfo)" where
  "spec_sync pods m = fold spec_add pods m |` set (map pi_UID pods)"

definition spec_bind :: "string \<Rightarrow> string \<Rightarrow> string \<Rightarrow> (string \<rightharpoonup> PodInfo) \<Rightarrow> (string \<rightharpoonup> PodInfo)" where
  "spec_bind uid i pol m =
     m(uid \<mapsto> (case m uid of Some p \<Rightarrow> p | None \<Rightarrow> zero_pod\<lparr>pi_UID := uid\<rparr>)
          \<lparr>pi_Identity := i, pi_Policy := pol, pi_Bound := True\<rparr>)"

definition spec_unbind :: "string \<Rightarrow> (string \<rightharpoonup> PodInfo) \<Rightarrow> (string \<rightharpoonup> PodInfo)" where
  "spec_unbind uid m =
     m(uid := map_option (\<lambda>p. p\<lparr>pi_Identity := '''', pi_Policy := '''', pi_Bound := False\<rparr>) (m uid))"

lemma pm_abs_add:
  assumes inv: "pm_inv pm"
  shows "pm_abs (AddOrUpdatePod info pm) = spec_add info (pm_abs pm)"
proof (cases "pi_UID info = ''''")
  case True
  show ?thesis
  proof
    fix u
    show "pm_abs (AddOrUpdatePod info pm) u = spec_add info (pm_abs pm) u"
      using True pm_inv_uid [OF inv, of u]
      by (cases "byUID pm u") (auto simp: AddOrUpdatePod_empty spec_add_def pm_abs_def)
  qed
next
  case False
  show ?thesis
  proof
    fix u
    show "pm_abs (AddOrUpdatePod info pm) u = spec_add info (pm_abs pm) u"
      using False pm_inv_uid [OF inv, of u] AddOrUpdatePod_simps [OF inv False]
      by (cases "byUID pm u") (auto simp: spec_add_def pm_abs_def)
  qed
qed

lemma pm_abs_remove: "pm_abs (RemovePod uid pm) = (pm_abs pm)(uid := None)"
  by (auto simp: pm_abs_def RemovePod_def fun_eq_iff split: option.split)

lemma pm_abs_sync_add: "pm_inv pm \<Longrightarrow> pm_abs (sync_add pods pm) = fold spec_add pods (pm_abs pm)"
  by (induction pods arbitrary: pm) (auto simp: sync_add_def pm_inv_AddOrUpdatePod pm_abs_add)

lemma pm_abs_bind:
  assumes inv: "pm_inv pm"
  shows "pm_abs (Bind uid i pol pm) = spec_bind uid i pol (pm_abs pm)"
proof
  fix u
  have ne: "a \<noteq> pm_next pm" if "byUID pm u = Some a" for a
    using pm_inv_uid [OF inv that] by simp
  have inj: "u = uid" if "byUID pm u = Some a" "byUID pm uid = Some a" for a
    using pm_inv_uid [OF inv that(1)] pm_inv_uid [OF inv that(2)] by simp
  show "pm_abs (Bind uid i pol pm) u = spec_bind uid i pol (pm_abs pm) u"
    using ne inj
    by (cases "byUID pm u"; cases "byUID pm uid")
       (auto simp: pm_abs_def spec_bind_def Bind_simps [OF inv])
qed

lemma pm_abs_unbind:
  assumes inv: "pm_inv pm" and u: "Unbind uid pm = Inr pm'"
  shows "pm_abs pm' = spec_unbind uid (pm_abs pm)"
proof
  fix v
  have inj: "v = uid" if "byUID pm v = Some a" "byUID pm uid = Some a" for a
    using pm_inv_uid [OF inv that(1)] pm_inv_uid [OF inv that(2)] by simp
  from u obtain b where "byUID pm uid = Some b"
    and "pm' = pm\<lparr>pm_heap := (pm_heap pm)(b := (pm_heap pm b)
                 \<lparr>pi_Identity := '''', pi_Policy := '''', pi_Bound := False\<rparr>)\<rparr>"
    by (auto simp: Unbind_def split: option.splits)
  with inj show "pm_abs pm' v = spec_unbind uid (pm_abs pm) v"
    by (cases "byUID pm v") (auto simp: pm_abs_def spec_unbind_def)
qed

subsection \<open>The synchronisation sweep\<close>

lemma sync_sweep_byUID:
  "byUID (sync_sweep active ord pm) u = (if u \<in> set ord - set active then None else byUID pm u)"
proof (induction ord arbitrary: pm)
  case Nil
  show ?case by (simp add: sync_sweep_def)
next
  case (Cons x ord)
  have "byUID (RemovePod x pm) u = (if u = x then None else byUID pm u)"
    by (auto simp: RemovePod_def split: option.split)
  with Cons [of "RemovePod x pm"] Cons [of pm] show ?case
    by (auto simp: sync_sweep_def)
qed

lemma sync_sweep_heap:
  "pm_heap (sync_sweep active ord pm) = pm_heap pm \<and> pm_next (sync_sweep active ord pm) = pm_next pm"
proof (induction ord arbitrary: pm)
  case Nil
  show ?case by (simp add: sync_sweep_def)
next
  case (Cons x ord)
  have "pm_heap (RemovePod x pm) = pm_heap pm \<and> pm_next (RemovePod x pm) = pm_next pm"
    by (auto simp: RemovePod_def split: option.split)
  with Cons [of "RemovePod x pm"] Cons [of pm] show ?case
    by (auto simp: sync_sweep_def)
qed

definition swept_ip :: "string list \<Rightarrow> string set \<Rightarrow> PodMap \<Rightarrow> string \<Rightarrow> bool" where
  "swept_ip active us pm ip \<longleftrightarrow>
     (\<exists>u p. u \<in> us \<and> u \<notin> set active \<and> pm_abs pm u = Some p \<and> ip \<in> set (pi_IPs p))"

lemma sync_sweep_byIP:
  "byIP (sync_sweep active ord pm) ip =
     (if swept_ip active (set ord) pm ip then None else byIP pm ip)"
proof (induction ord arbitrary: pm)
  case Nil
  show ?case by (simp add: sync_sweep_def swept_ip_def)
next
  case (Cons x ord)
  show ?case
  proof (cases "x \<in> set active")
    case True
    then have "sync_sweep active (x # ord) pm = sync_sweep active ord pm"
      by (simp add: sync_sweep_def)
    moreover have "swept_ip active (set (x # ord)) pm ip = swept_ip active (set ord) pm ip"
      using True by (auto simp: swept_ip_def)
    ultimately show ?thesis using Cons [of pm] by simp
  next
    case False
    then have e: "sync_sweep active (x # ord) pm = sync_sweep active ord (RemovePod x pm)"
      by (simp add: sync_sweep_def)
    have r: "byIP (RemovePod x pm) ip =
        (if \<exists>p. pm_abs pm x = Some p \<and> ip \<in> set (pi_IPs p) then None else byIP pm ip)"
      by (auto simp: RemovePod_def pm_abs_def split: option.split)
    have s: "swept_ip active (set (x # ord)) pm ip \<longleftrightarrow>
        swept_ip active (set ord) (RemovePod x pm) ip \<or>
        (\<exists>p. pm_abs pm x = Some p \<and> ip \<in> set (pi_IPs p))"
      using False by (auto simp: swept_ip_def pm_abs_remove)
    show ?thesis
      unfolding e Cons r s by auto
  qed
qed

lemma sync_sweep_set:
  assumes "set ord = set ord'"
  shows "sync_sweep active ord pm = sync_sweep active ord' pm"
proof (rule PodMap.equality)
  show "byUID (sync_sweep active ord pm) = byUID (sync_sweep active ord' pm)"
    using assms by (simp add: fun_eq_iff sync_sweep_byUID)
  show "byIP (sync_sweep active ord pm) = byIP (sync_sweep active ord' pm)"
    using assms by (simp add: fun_eq_iff sync_sweep_byIP)
qed (simp_all add: sync_sweep_heap)

lemma pm_abs_SynchronizePods:
  assumes inv: "pm_inv pm" and ord: "iterates ord (byUID (sync_add pods pm))"
  shows "pm_abs (SynchronizePods pods ord pm) = spec_sync pods (pm_abs pm)"
proof
  fix u
  let ?pm1 = "sync_add pods pm"
  have "pm_abs (SynchronizePods pods ord pm) u =
      (if u \<in> set ord - set (map pi_UID pods) then None else pm_abs ?pm1 u)"
    by (simp add: SynchronizePods_def pm_abs_def sync_sweep_byUID sync_sweep_heap)
  also have "\<dots> = (if u \<in> set (map pi_UID pods) then pm_abs ?pm1 u else None)"
    using iterates_set [OF ord] by (auto simp: pm_abs_def dom_def)
  finally show "pm_abs (SynchronizePods pods ord pm) u = spec_sync pods (pm_abs pm) u"
    by (simp add: spec_sync_def pm_abs_sync_add [OF inv] restrict_map_def)
qed

subsection \<open>Runs of the table\<close>

datatype pm_op =
    OpAdd PodInfo
  | OpRemove string
  | OpSync "PodInfo list" "string list"
  | OpBind string string string
  | OpUnbind string

fun pm_apply :: "pm_op \<Rightarrow> PodMap \<Rightarrow> PodMap" where
  "pm_apply (OpAdd info) pm = AddOrUpdatePod info pm"
| "pm_apply (OpRemove uid) pm = RemovePod uid pm"
| "pm_apply (OpSync pods ord) pm = SynchronizePods pods ord pm"
| "pm_apply (OpBind uid i pol) pm = Bind uid i pol pm"
| "pm_apply (OpUnbind uid) pm = (case Unbind uid pm of Inl _ \<Rightarrow> pm | Inr pm' \<Rightarrow> pm')"

inductive pm_reachable :: "PodMap \<Rightarrow> bool" where
  pm_start: "pm_reachable NewPodMap"
| pm_step: "pm_reachable pm \<Longrightarrow> pm_reachable (pm_apply oper pm)"
| pm_admin: "pm_reachable pm \<Longrightarrow> pm_reachable (snd (AdminHandler r ord pm))"

lemma pm_inv_apply [go_inv]: "pm_inv pm \<Longrightarrow> pm_inv (pm_apply oper pm)"
  by (cases oper) (auto intro: go_inv split: sum.split)

lemma AdminHandler_apply:
  "snd (AdminHandler r ord pm) = pm \<or> (\<exists>oper. snd (AdminHandler r ord pm) = pm_apply oper pm)"
proof -
  have "snd (handle_bind r pm) = pm \<or> (\<exists>oper. snd (handle_bind r pm) = pm_apply oper pm)"
    by (auto simp: handle_bind_def Let_def intro: exI [of _ "OpBind u i pol" for u i pol])
  moreover have "snd (handle_unbind r pm) = pm \<or> (\<exists>oper. snd (handle_unbind r pm) = pm_apply oper pm)"
    by (auto simp: handle_unbind_def Let_def split: sum.split
          intro: exI [of _ "OpUnbind (case ar_unbind r of Some u \<Rightarrow> u | None \<Rightarrow> ar_query r ''podUID'')"])
  moreover have "snd (handle_pods r ord pm) = pm \<or> (\<exists>oper. snd (handle_pods r ord pm) = pm_apply oper pm)"
    by (auto simp: handle_pods_def split: sum.split
          intro: exI [of _ "OpAdd info" for info] exI [of _ "OpSync pods ord" for pods])
  moreover have "snd (handle_pod r pm) = pm \<or> (\<exists>oper. snd (handle_pod r pm) = pm_apply oper pm)"
    by (auto simp: handle_pod_def Let_def intro: exI [of _ "OpRemove uid" for uid])
  ultimately show ?thesis by (simp add: AdminHandler_def)
qed

lemma pm_inv_AdminHandler [go_inv]: "pm_inv pm \<Longrightarrow> pm_inv (snd (AdminHandler r ord pm))"
  using AdminHandler_apply [of r ord pm] pm_inv_apply by auto

lemma pm_reachable_inv: "pm_reachable pm \<Longrightarrow> pm_inv pm"
  by (induction rule: pm_reachable.induct) (auto intro: go_inv)

subsection \<open>Revocation, for any table with these laws\<close>

text \<open>
  What the caller checks of the proxy rely on: a table of pods by UID, a lookup by address
  that only returns what the table holds, and operations that keep an unbound pod unbound
  unless they bind or drop it.
\<close>

locale binding_table =
  fixes tbl :: "'s \<Rightarrow> string \<Rightarrow> PodInfo option"
    and find_ip :: "'s \<Rightarrow> string \<Rightarrow> PodInfo option"
    and ok :: "'s \<Rightarrow> bool"
    and app :: "'op \<Rightarrow> 's \<Rightarrow> 's"
    and keeps :: "'op \<Rightarrow> string \<Rightarrow> bool"
  assumes ok_app: "ok s \<Longrightarrow> ok (app oper s)"
    and find_tbl: "ok s \<Longrightarrow> find_ip s ip = Some p \<Longrightarrow> tbl s (pi_UID p) = Some p"
    and keeps_unbound: "ok s \<Longrightarrow> keeps oper uid \<Longrightarrow> tbl s uid = Some p \<Longrightarrow> \<not> pi_Bound p \<Longrightarrow>
          \<exists>p'. tbl (app oper s) uid = Some p' \<and> \<not> pi_Bound p'"
begin

lemma unbound_run:
  "ok s \<Longrightarrow> tbl s uid = Some p \<Longrightarrow> \<not> pi_Bound p \<Longrightarrow> list_all (\<lambda>oper. keeps oper uid) ops \<Longrightarrow>
   ok (fold app ops s) \<and> (\<exists>p'. tbl (fold app ops s) uid = Some p' \<and> \<not> pi_Bound p')"
proof (induction ops arbitrary: s p)
  case Nil
  then show ?case by simp
next
  case (Cons oper ops)
  then obtain p' where "tbl (app oper s) uid = Some p'" "\<not> pi_Bound p'"
    using keeps_unbound [of s oper uid p] by auto
  with Cons show ?case by (simp add: ok_app)
qed

lemma unbound_everywhere:
  assumes "ok s" "tbl s uid = Some p" "\<not> pi_Bound p" "list_all (\<lambda>oper. keeps oper uid) ops"
    and "find_ip (fold app ops s) ip = Some q" "pi_UID q = uid"
  shows "\<not> pi_Bound q"
  using unbound_run [OF assms(1-4)] find_tbl [OF _ assms(5)] assms(6) by auto

end

fun pm_keeps :: "pm_op \<Rightarrow> string \<Rightarrow> bool" where
  "pm_keeps (OpAdd info) uid = True"
| "pm_keeps (OpRemove u) uid = (u \<noteq> uid)"
| "pm_keeps (OpSync pods ord) uid = (uid \<in> set (map pi_UID pods))"
| "pm_keeps (OpBind u i pol) uid = (u \<noteq> uid)"
| "pm_keeps (OpUnbind u) uid = True"

definition caller :: "PodMap \<Rightarrow> string \<Rightarrow> PodInfo option" where
  "caller pm ip = map_option (pm_heap pm) (GetPodByIP ip pm)"

lemma caller_abs: "pm_inv pm \<Longrightarrow> caller pm ip = Some p \<Longrightarrow> pm_abs pm (pi_UID p) = Some p"
  by (auto simp: caller_def GetPodByIP_def pm_abs_def dest: pm_inv_ip)

lemma spec_add_unbound:
  "m uid = Some p \<Longrightarrow> \<not> pi_Bound p \<Longrightarrow> \<exists>p'. spec_add info m uid = Some p' \<and> \<not> pi_Bound p'"
  by (auto simp: spec_add_def registered_def)

lemma fold_spec_add_unbound:
  "m uid = Some p \<Longrightarrow> \<not> pi_Bound p \<Longrightarrow> \<exists>p'. fold spec_add pods m uid = Some p' \<and> \<not> pi_Bound p'"
proof (induction pods arbitrary: m p)
  case Nil
  then show ?case by simp
next
  case (Cons info pods)
  then obtain p' where "spec_add info m uid = Some p'" "\<not> pi_Bound p'"
    using spec_add_unbound [of m uid p info] by blast
  then show ?case using Cons.IH by simp
qed

lemma sync_keeps:
  assumes "uid \<in> set (map pi_UID pods)"
  shows "pm_abs (SynchronizePods pods ord pm) uid = pm_abs (sync_add pods pm) uid"
  using assms by (simp add: SynchronizePods_def pm_abs_def sync_sweep_byUID sync_sweep_heap)

lemma pm_keeps_unbound:
  assumes inv: "pm_inv pm" and k: "pm_keeps oper uid"
    and p: "pm_abs pm uid = Some p" "\<not> pi_Bound p"
  shows "\<exists>p'. pm_abs (pm_apply oper pm) uid = Some p' \<and> \<not> pi_Bound p'"
proof (cases oper)
  case (OpAdd info)
  with p spec_add_unbound show ?thesis by (simp add: pm_abs_add [OF inv])
next
  case (OpSync pods ord)
  with k have "pm_abs (pm_apply oper pm) uid = fold spec_add pods (pm_abs pm) uid"
    by (simp add: sync_keeps pm_abs_sync_add [OF inv] del: set_map)
  with fold_spec_add_unbound [of "pm_abs pm" uid p pods] p show ?thesis by simp
next
  case (OpUnbind u)
  with p show ?thesis
    by (cases "Unbind u pm") (auto simp: pm_abs_unbind [OF inv] spec_unbind_def)
qed (use p k in \<open>auto simp: pm_abs_remove pm_abs_bind [OF inv] spec_bind_def\<close>)

interpretation pods: binding_table pm_abs caller pm_inv pm_apply pm_keeps
  by unfold_locales (auto intro: pm_inv_apply caller_abs pm_keeps_unbound)

subsection \<open>Completeness of the address index\<close>

definition ips_unique :: "(string \<rightharpoonup> PodInfo) \<Rightarrow> bool" where
  "ips_unique m \<longleftrightarrow>
     (\<forall>u v p q ip. m u = Some p \<longrightarrow> m v = Some q \<longrightarrow> ip \<in> set (pi_IPs p) \<longrightarrow> ip \<in> set (pi_IPs q) \<longrightarrow>
        ip \<noteq> '''' \<longrightarrow> u = v)"

definition pm_complete :: "PodMap \<Rightarrow> bool" where
  "pm_complete pm \<longleftrightarrow>
     (\<forall>u a ip. byUID pm u = Some a \<longrightarrow> ip \<in> set (pi_IPs (pm_heap pm a)) \<longrightarrow> ip \<noteq> '''' \<longrightarrow>
        byIP pm ip = Some a)"

fun is_sync :: "pm_op \<Rightarrow> bool" where
  "is_sync (OpSync _ _) = True"
| "is_sync _ = False"

lemma ips_uniqueD:
  "ips_unique m \<Longrightarrow> m u = Some p \<Longrightarrow> m v = Some q \<Longrightarrow> ip \<in> set (pi_IPs p) \<Longrightarrow> ip \<in> set (pi_IPs q) \<Longrightarrow>
   ip \<noteq> '''' \<Longrightarrow> u = v"
  by (auto simp: ips_unique_def)

lemma pm_completeD:
  "pm_complete pm \<Longrightarrow> byUID pm u = Some a \<Longrightarrow> ip \<in> set (pi_IPs (pm_heap pm a)) \<Longrightarrow> ip \<noteq> '''' \<Longrightarrow>
   byIP pm ip = Some a"
  by (simp add: pm_complete_def)

lemma pm_complete_add:
  assumes inv: "pm_inv pm" and c: "pm_complete pm" and u: "ips_unique (pm_abs pm)"
    and u': "ips_unique (pm_abs (AddOrUpdatePod info pm))"
  shows "pm_complete (AddOrUpdatePod info pm)"
proof (cases "pi_UID info = ''''")
  case True
  show ?thesis
    unfolding pm_complete_def
  proof (intro allI impI)
    fix v a ip
    assume "byUID (AddOrUpdatePod info pm) v = Some a"
      and ip: "ip \<in> set (pi_IPs (pm_heap (AddOrUpdatePod info pm) a))" "ip \<noteq> ''''"
    then have v: "byUID pm v = Some a" using True by (simp add: AddOrUpdatePod_empty)
    from pm_inv_uid [OF inv v] ip(1) True have "ip \<in> set (pi_IPs (pm_heap pm a))"
      by (simp add: AddOrUpdatePod_empty)
    with pm_completeD [OF c v _ ip(2)] True show "byIP (AddOrUpdatePod info pm) ip = Some a"
      by (simp add: AddOrUpdatePod_empty)
  qed
next
  case False
  note sim = AddOrUpdatePod_simps [OF inv False]
  have abs: "pm_abs (AddOrUpdatePod info pm) =
      (pm_abs pm)(pi_UID info \<mapsto> registered (pm_abs pm (pi_UID info)) info)"
    using False by (simp add: pm_abs_add [OF inv] spec_add_def)
  show ?thesis
    unfolding pm_complete_def
  proof (intro allI impI)
    fix v a ip
    assume v: "byUID (AddOrUpdatePod info pm) v = Some a"
      and ip: "ip \<in> set (pi_IPs (pm_heap (AddOrUpdatePod info pm) a))" "ip \<noteq> ''''"
    show "byIP (AddOrUpdatePod info pm) ip = Some a"
    proof (cases "v = pi_UID info")
      case True
      with v ip show ?thesis by (auto simp: sim)
    next
      case other: False
      with v have v0: "byUID pm v = Some a" by (simp add: sim)
      from pm_inv_uid [OF inv v0] ip(1) have ip0: "ip \<in> set (pi_IPs (pm_heap pm a))"
        by (simp add: sim)
      from v0 have absv: "pm_abs pm v = Some (pm_heap pm a)" by (simp add: pm_abs_def)
      have "ip \<notin> set (pi_IPs info)"
        using ips_uniqueD [OF u', of v "pm_heap pm a" "pi_UID info" _ ip] other absv ip0 ip(2)
        by (auto simp: abs)
      moreover have "\<not> (\<exists>ex. pm_abs pm (pi_UID info) = Some ex \<and> ip \<in> set (pi_IPs ex))"
        using ips_uniqueD [OF u absv _ ip0 _ ip(2)] other by auto
      ultimately show ?thesis
        using pm_completeD [OF c v0 ip0 ip(2)] by (auto simp: sim)
    qed
  qed
qed

lemma pm_complete_remove:
  assumes inv: "pm_inv pm" and c: "pm_complete pm" and u: "ips_unique (pm_abs pm)"
  shows "pm_complete (RemovePod uid pm)"
proof (cases "byUID pm uid")
  case None
  with c show ?thesis by (simp add: RemovePod_absent)
next
  case (Some a)
  note sim = RemovePod_simps [OF Some]
  have absu: "pm_abs pm uid = Some (pm_heap pm a)" using Some by (simp add: pm_abs_def)
  show ?thesis
    unfolding pm_complete_def
  proof (intro allI impI)
    fix v b ip
    assume v: "byUID (RemovePod uid pm) v = Some b"
      and ip: "ip \<in> set (pi_IPs (pm_heap (RemovePod uid pm) b))" "ip \<noteq> ''''"
    from v have v0: "byUID pm v = Some b" "v \<noteq> uid" by (auto simp: sim split: if_splits)
    then have absv: "pm_abs pm v = Some (pm_heap pm b)" by (simp add: pm_abs_def)
    from ip(1) have ip0: "ip \<in> set (pi_IPs (pm_heap pm b))" by (simp add: sim)
    have "ip \<notin> set (pi_IPs (pm_heap pm a))"
      using ips_uniqueD [OF u absv absu ip0 _ ip(2)] v0(2) by auto
    with pm_completeD [OF c v0(1) ip0 ip(2)] show "byIP (RemovePod uid pm) ip = Some b"
      by (simp add: sim)
  qed
qed

lemma pm_complete_bind:
  assumes inv: "pm_inv pm" and c: "pm_complete pm"
  shows "pm_complete (Bind uid i pol pm)"
  unfolding pm_complete_def
proof (intro allI impI)
  fix v a ip
  assume v: "byUID (Bind uid i pol pm) v = Some a"
    and ip: "ip \<in> set (pi_IPs (pm_heap (Bind uid i pol pm) a))" "ip \<noteq> ''''"
  have v0: "byUID pm v = Some a" and ip0: "ip \<in> set (pi_IPs (pm_heap pm a))"
    using v ip pm_inv_uid [OF inv, of v a]
    by (auto simp: Bind_simps [OF inv] zero_pod_def split: option.splits if_splits)
  from pm_completeD [OF c v0 ip0 ip(2)] show "byIP (Bind uid i pol pm) ip = Some a"
    by (simp add: Bind_simps [OF inv])
qed

lemma pm_complete_unbind:
  assumes c: "pm_complete pm" and "Unbind uid pm = Inr pm'"
  shows "pm_complete pm'"
proof -
  from assms(2) obtain b where pm': "pm' = pm\<lparr>pm_heap := (pm_heap pm)(b := (pm_heap pm b)
                 \<lparr>pi_Identity := '''', pi_Policy := '''', pi_Bound := False\<rparr>)\<rparr>"
    by (auto simp: Unbind_def split: option.splits)
  have h: "pi_IPs (pm_heap pm' x) = pi_IPs (pm_heap pm x)" for x
    by (simp add: pm')
  have o: "byUID pm' = byUID pm" "byIP pm' = byIP pm"
    by (simp_all add: pm')
  from c show ?thesis unfolding pm_complete_def h o .
qed

lemma IsRuleAllowed_unbound: "\<not> pi_Bound p \<Longrightarrow> \<not> IsRuleAllowed (Some p) rule host"
  by (simp add: IsRuleAllowed_def)

subsection \<open>Properties\<close>

text \<open>Two pods used by the witnesses below.\<close>

definition pod_a :: PodInfo where
  "pod_a = zero_pod\<lparr>pi_UID := ''uid-a'', pi_Namespace := ''ns'', pi_Name := ''a'', pi_IPs := [''10.0.0.5'']\<rparr>"

definition pod_b :: PodInfo where
  "pod_b = zero_pod\<lparr>pi_UID := ''uid-b'', pi_Namespace := ''ns'', pi_Name := ''b'', pi_IPs := [''10.0.0.5'']\<rparr>"

lemmas pm_eval = AddOrUpdatePod_def addOrUpdateLocked_def new_pod_def Let_def NewPodMap_def
  pod_a_def pod_b_def zero_pod_def caller_def GetPodByIP_def Bind_def Unbind_def RemovePod_def
  pm_abs_def

lemma pod_a_reachable: "pm_reachable (pm_apply (OpAdd pod_a) NewPodMap)"
  by (intro pm_reachable.intros)

text \<open>
  Claim C6. In every state the pod table can reach, a caller found by its address is the pod
  registered under that pod's UID at that moment, and the pod lists the address: the two
  indexes never disagree, and a lookup never returns an object that is no longer registered.
\<close>

theorem caller_consistent:
  assumes "pm_reachable pm" and "caller pm ip = Some p"
  shows "pm_abs pm (pi_UID p) = Some p \<and> ip \<noteq> '''' \<and> ip \<in> set (pi_IPs p)"
proof -
  have inv: "pm_inv pm" by (rule pm_reachable_inv [OF assms(1)])
  from assms(2) obtain a where "byIP pm ip = Some a" "p = pm_heap pm a"
    by (auto simp: caller_def GetPodByIP_def)
  with pm_inv_ip [OF inv] caller_abs [OF inv assms(2)] show ?thesis by auto
qed

theorem caller_consistent_witness:
  "pm_abs (AddOrUpdatePod pod_a NewPodMap) ''uid-a'' = Some pod_a \<and> ''10.0.0.5'' \<in> set (pi_IPs pod_a)"
proof -
  have "caller (pm_apply (OpAdd pod_a) NewPodMap) ''10.0.0.5'' = Some pod_a"
    by (simp add: pm_eval)
  from caller_consistent [OF pod_a_reachable this] show ?thesis by (simp add: pod_a_def)
qed



text \<open>
  Claim C7. The pointer tables refine a map from UIDs to pods: registration, removal,
  synchronisation, binding and unbinding change the registered pods exactly as the
  corresponding operations on that map do, in every reachable state.
\<close>

theorem podmap_refines:
  assumes "pm_reachable pm"
  shows "pm_abs (AddOrUpdatePod info pm) = spec_add info (pm_abs pm) \<and>
         pm_abs (RemovePod uid pm) = (pm_abs pm)(uid := None) \<and>
         pm_abs (Bind uid i pol pm) = spec_bind uid i pol (pm_abs pm) \<and>
         (iterates ord (byUID (sync_add infos pm)) \<longrightarrow>
            pm_abs (SynchronizePods infos ord pm) = spec_sync infos (pm_abs pm)) \<and>
         (case Unbind uid pm of
            Inl e \<Rightarrow> e = PodUIDNotFound uid \<and> pm_abs pm uid = None
          | Inr pm' \<Rightarrow> pm_abs pm uid \<noteq> None \<and> pm_abs pm' = spec_unbind uid (pm_abs pm))"
proof -
  have inv: "pm_inv pm" by (rule pm_reachable_inv [OF assms])
  have "case Unbind uid pm of
            Inl e \<Rightarrow> e = PodUIDNotFound uid \<and> pm_abs pm uid = None
          | Inr pm' \<Rightarrow> pm_abs pm uid \<noteq> None \<and> pm_abs pm' = spec_unbind uid (pm_abs pm)"
  proof (cases "byUID pm uid")
    case None
    then show ?thesis by (simp add: Unbind_def pm_abs_def)
  next
    case (Some a)
    then obtain pm' where "Unbind uid pm = Inr pm'" by (simp add: Unbind_def)
    with Some pm_abs_unbind [OF inv this] show ?thesis by (simp add: pm_abs_def)
  qed
  then show ?thesis
    by (simp add: pm_abs_add [OF inv] pm_abs_remove pm_abs_bind [OF inv]
          pm_abs_SynchronizePods [OF inv])
qed

theorem podmap_refines_witness:
  "pm_abs (AddOrUpdatePod pod_b (AddOrUpdatePod pod_a NewPodMap)) ''uid-b'' = Some pod_b"
  using podmap_refines [OF pod_a_reachable, of pod_b]
  by (simp add: spec_add_def registered_def pod_b_def zero_pod_def map_str_def pm_eval)

text \<open>
  The result of a synchronisation does not depend on the order in which Go's map
  iteration visits the pods it sweeps.
\<close>

theorem sync_order_irrelevant:
  assumes "iterates ord (byUID (sync_add infos pm))" and "iterates ord' (byUID (sync_add infos pm))"
  shows "SynchronizePods infos ord pm = SynchronizePods infos ord' pm"
proof -
  have "set ord = set ord'" using assms by (simp add: iterates_def)
  then show ?thesis unfolding SynchronizePods_def by (rule sync_sweep_set)
qed

theorem sync_order_irrelevant_witness:
  "SynchronizePods [pod_b] [''uid-a'', ''uid-b''] (AddOrUpdatePod pod_a NewPodMap) =
   SynchronizePods [pod_b] [''uid-b'', ''uid-a''] (AddOrUpdatePod pod_a NewPodMap)"
  by (rule sync_order_irrelevant) (auto simp: iterates_def sync_add_def pm_eval)

text \<open>
  A pod that leaves the table is forgotten under every address: after RemovePod no
  caller resolves to that UID, and no other pod's registration changes.
\<close>

theorem remove_forgets:
  assumes "pm_reachable pm"
  shows "(\<forall>ip p. caller (RemovePod uid pm) ip = Some p \<longrightarrow> pi_UID p \<noteq> uid) \<and>
         (\<forall>u. u \<noteq> uid \<longrightarrow> pm_abs (RemovePod uid pm) u = pm_abs pm u)"
proof -
  have inv: "pm_inv (RemovePod uid pm)"
    by (rule pm_inv_RemovePod [OF pm_reachable_inv [OF assms]])
  have "pi_UID p \<noteq> uid" if "caller (RemovePod uid pm) ip = Some p" for ip p
    using caller_abs [OF inv that] by (auto simp: pm_abs_remove)
  then show ?thesis by (auto simp: pm_abs_remove)
qed

theorem remove_forgets_witness:
  "caller (RemovePod ''uid-a'' (AddOrUpdatePod pod_a NewPodMap)) ''10.0.0.5'' \<noteq> Some pod_a"
proof -
  have "pi_UID pod_a = ''uid-a''" by (simp add: pod_a_def)
  with remove_forgets [OF pod_a_reachable, of "''uid-a''"] show ?thesis by auto
qed

text \<open>
  Synchronisation frees every address of a pod it drops, even an address that one of
  the synchronised pods now has: after a pod's address has been given to a new pod, the full
  synchronisation that registers the new pod and drops the old one leaves the address
  resolving to nobody.
\<close>

theorem sync_drops_reused_ip:
  assumes "pm_reachable pm" and "iterates ord (byUID (sync_add infos pm))"
    and "pm_abs pm old = Some p" and "old \<notin> set (map pi_UID infos)" and "ip \<in> set (pi_IPs p)"
  shows "caller (SynchronizePods infos ord pm) ip = None"
proof -
  have inv: "pm_inv pm" by (rule pm_reachable_inv [OF assms(1)])
  have "fold spec_add infos m old = m old" if "old \<notin> set (map pi_UID infos)" for m
    using that by (induction infos arbitrary: m) (auto simp: spec_add_def)
  with assms(3,4) have abs: "pm_abs (sync_add infos pm) old = Some p"
    by (simp add: pm_abs_sync_add [OF inv])
  then have "old \<in> set ord"
    using iterates_set [OF assms(2)] by (auto simp: pm_abs_def)
  with abs assms(4,5) have "swept_ip (map pi_UID infos) (set ord) (sync_add infos pm) ip"
    by (auto simp: swept_ip_def)
  then show ?thesis
    by (simp add: caller_def GetPodByIP_def SynchronizePods_def sync_sweep_byIP)
qed

theorem sync_drops_reused_ip_witness:
  "caller (SynchronizePods [pod_b] [''uid-a'', ''uid-b''] (AddOrUpdatePod pod_a NewPodMap)) ''10.0.0.5'' = None \<and>
   ''10.0.0.5'' \<in> set (pi_IPs pod_b)"
proof -
  let ?pm = "pm_apply (OpAdd pod_a) NewPodMap"
  have "iterates [''uid-a'', ''uid-b''] (byUID (sync_add [pod_b] ?pm))"
    by (auto simp: iterates_def sync_add_def pm_eval)
  moreover have "pm_abs ?pm ''uid-a'' = Some pod_a" by (simp add: pm_eval)
  ultimately have "caller (SynchronizePods [pod_b] [''uid-a'', ''uid-b''] ?pm) ''10.0.0.5'' = None"
    by (rule sync_drops_reused_ip [OF pod_a_reachable]) (simp_all add: pod_a_def pod_b_def)
  then show ?thesis by (simp add: pod_b_def)
qed

text \<open>
  While registered pods do not share an address, the address index is complete: every
  registration, removal, binding and unbinding keeps every listed address of every registered
  pod resolving to that pod.
\<close>

theorem address_index_complete:
  assumes "pm_reachable pm" and "pm_complete pm" and "ips_unique (pm_abs pm)"
    and "\<not> is_sync oper" and "ips_unique (pm_abs (pm_apply oper pm))"
    and "pm_abs (pm_apply oper pm) u = Some p" and "ip \<in> set (pi_IPs p)" and "ip \<noteq> ''''"
  shows "pm_complete (pm_apply oper pm) \<and> caller (pm_apply oper pm) ip = Some p"
proof -
  have inv: "pm_inv pm" by (rule pm_reachable_inv [OF assms(1)])
  have c: "pm_complete (pm_apply oper pm)"
  proof (cases oper)
    case (OpUnbind v)
    then show ?thesis
      using assms(2) by (cases "Unbind v pm") (auto intro: pm_complete_unbind)
  qed (use assms inv in \<open>auto intro: pm_complete_add pm_complete_remove pm_complete_bind\<close>)
  with assms(6-8) show ?thesis
    by (auto simp: caller_def GetPodByIP_def pm_abs_def dest: pm_completeD)
qed

theorem address_index_complete_witness:
  "caller (Bind ''uid-a'' ''alice'' ''*'' (AddOrUpdatePod pod_a NewPodMap)) ''10.0.0.5'' =
   Some (pod_a\<lparr>pi_Identity := ''alice'', pi_Policy := ''*'', pi_Bound := True\<rparr>)"
proof -
  let ?pm = "pm_apply (OpAdd pod_a) NewPodMap"
  let ?op = "OpBind ''uid-a'' ''alice'' ''*''"
  have "pm_complete ?pm" by (auto simp: pm_complete_def pm_eval)
  moreover have "ips_unique (pm_abs ?pm)" by (auto simp: ips_unique_def pm_eval)
  moreover have "ips_unique (pm_abs (pm_apply ?op ?pm))"
    by (auto simp: ips_unique_def pm_eval split: if_splits)
  moreover have "pm_abs (pm_apply ?op ?pm) ''uid-a'' =
      Some (pod_a\<lparr>pi_Identity := ''alice'', pi_Policy := ''*'', pi_Bound := True\<rparr>)"
    by (simp add: pm_eval)
  ultimately have "caller (pm_apply ?op ?pm) ''10.0.0.5'' =
      Some (pod_a\<lparr>pi_Identity := ''alice'', pi_Policy := ''*'', pi_Bound := True\<rparr>)"
    using address_index_complete [OF pod_a_reachable, of ?op "''uid-a''" _ "''10.0.0.5''"]
    by (simp add: pod_a_def)
  then show ?thesis by simp
qed

text \<open>
  A policy written as a comma-separated list of tokens allows a rule on a host
  exactly when the pod is bound and some token, lower-cased and trimmed, is a star or names
  the rule or the host, whatever the case and spacing of the tokens.
\<close>

theorem policy_tokens:
  assumes "toks \<noteq> []" and "list_all (\<lambda>t. CHR '','' \<notin> set t) toks" and "join_with '','' toks \<noteq> ''''"
    and "pi_Policy p = join_with '','' toks"
  shows "IsRuleAllowed (Some p) ruleName host \<longleftrightarrow>
         pi_Bound p \<and> (\<exists>t\<in>set toks. trim_space (to_lower t) \<in> {''*'', to_lower ruleName, to_lower host})"
proof -
  have "split_on (pi_Policy p) '','' = toks"
    using assms by (simp add: split_join_single list_all_iff)
  with assms(3,4) show ?thesis
    by (auto simp: IsRuleAllowed_def list_ex_iff Let_def)
qed

theorem policy_tokens_witness:
  "IsRuleAllowed (Some (pod_a\<lparr>pi_Bound := True, pi_Policy := ''Gemini, github''\<rparr>)) ''GitHub'' ''x''"
proof -
  have "trim_space (to_lower '' github'') = to_lower ''GitHub''" by code_simp
  with policy_tokens [of "[''Gemini'', '' github'']"
      "pod_a\<lparr>pi_Bound := True, pi_Policy := ''Gemini, github''\<rparr>" "''GitHub''" "''x''"]
  show ?thesis by (simp del: to_lower_Cons)
qed

end
