(* ===== verification/Rule_Router.thy ===== *)
theory Rule_Router
  imports Http_Proxy Pod_Map
begin

text \<open>
  pkg/portals/rules.go: the router that maps a request's host to a rule, resolves the caller in
  the pod table, enforces the pod's binding and policy, adds attribution headers and hands the
  request to the rule's proxy; the TLS side of the same decision; the host matcher of the DNS
  server; and loading of the rule files.  Go's iteration order over the routes is an argument
  (\<open>ord\<close>).  The YAML decoder, \<^verbatim>\<open>url.Parse\<close>, \<^verbatim>\<open>time.ParseDuration\<close> and the loading of the CA key
  pair are parameters of the loader.
\<close>

subsection \<open>Data\<close>

record Rule =
  rl_Proxy :: HTTPProxy
  rl_ttl :: int
  rl_Name :: string
  rl_AttributionHeaders :: bool

datatype fallback = NoFallback | FallbackProxy HTTPProxy int

record RuleRouter =
  rr_routes :: "string \<rightharpoonup> Rule"
  rr_fallback :: fallback
  rr_rulesDir :: string
  rr_podMap :: "PodMap option"

definition NewRuleRouter :: "string \<Rightarrow> fallback \<Rightarrow> RuleRouter" where
  "NewRuleRouter rulesDir fb =
     \<lparr>rr_routes = (\<lambda>_. None), rr_fallback = fb, rr_rulesDir = rulesDir, rr_podMap = None\<rparr>"

definition SetPodMap :: "PodMap \<Rightarrow> RuleRouter \<Rightarrow> RuleRouter" where
  "SetPodMap pm rr = rr\<lparr>rr_podMap := Some pm\<rparr>"

text \<open>What the proxies of the rules share: transport, gob, the cache's clock readings.\<close>

record 'w proxy_env =
  pe_ord :: "header \<Rightarrow> string list"
  pe_ordk :: "header \<Rightarrow> string list"
  pe_enc :: "CachedResponse \<Rightarrow> bytes option"
  pe_dec :: "bytes \<Rightarrow> CachedResponse option"
  pe_url :: "URL \<Rightarrow> string"
  pe_rt :: "'w transport"
  pe_t1 :: time
  pe_t2 :: time

definition rule_transport :: "'w proxy_env \<Rightarrow> int \<Rightarrow> (InMemoryCache \<times> 'w) transport" where
  "rule_transport env ttl =
     (if ttl > 0
      then CachingRoundTrip mem_get_op mem_Set (pe_enc env) (pe_dec env) (pe_url env) (pe_rt env) ttl
             (pe_t1 env) (pe_t2 env)
      else (\<lambda>req cw. let (res, w') = pe_rt env req (snd cw) in (res, (fst cw, w'))))"

definition serve_proxy ::
  "'w proxy_env \<Rightarrow> HTTPProxy \<Rightarrow> int \<Rightarrow> Request \<Rightarrow> ResponseWriter \<times> (InMemoryCache \<times> 'w) \<Rightarrow>
   ResponseWriter \<times> (InMemoryCache \<times> 'w)" where
  "serve_proxy env p ttl r s = ServeHTTP (rule_transport env ttl) (pe_ord env) (pe_ordk env) p r s"

subsection \<open>Routing\<close>

definition find_rule :: "string list \<Rightarrow> (string \<rightharpoonup> Rule) \<Rightarrow> string \<Rightarrow> Rule option" where
  "find_rule ord routes host =
     (case routes host of
        Some rule \<Rightarrow> Some rule
      | None \<Rightarrow>
          (case find (\<lambda>rHost. has_prefix host (rHost @ ''.'')) ord of
             Some rHost \<Rightarrow> routes rHost
           | None \<Rightarrow> None))"

definition fallback_matches :: "HTTPProxy \<Rightarrow> string \<Rightarrow> bool" where
  "fallback_matches p host =
     (let targetHost = to_lower (HostWithoutPort (u_host (hp_target p)))
      in targetHost \<noteq> [] \<and> (targetHost = host \<or> has_prefix host (targetHost @ ''.'')))"

definition MatchHost :: "string list \<Rightarrow> RuleRouter \<Rightarrow> string \<Rightarrow> bool" where
  "MatchHost ord rr host0 =
     (let host = trim_suffix (to_lower (HostWithoutPort host0)) ''.'' in
      if rr_routes rr host \<noteq> None then True
      else if list_ex (\<lambda>rHost. has_prefix host (rHost @ ''.'')) ord then True
      else case rr_fallback rr of
             FallbackProxy p ttl \<Rightarrow> fallback_matches p host
           | NoFallback \<Rightarrow> False)"

definition request_host :: "Request \<Rightarrow> string" where
  "request_host r = to_lower (HostWithoutPort (if rq_host r = [] then u_host (rq_url r) else rq_host r))"

definition attribute_request :: "Rule \<Rightarrow> PodInfo \<Rightarrow> Request \<Rightarrow> Request" where
  "attribute_request rule pod r =
     (if rl_AttributionHeaders rule
      then let h1 = hdr_set ''X-Forwarded-Client-Pod'' (pi_Namespace pod @ ''/'' @ pi_Name pod) (rq_header r);
               h2 = (if pi_Identity pod \<noteq> [] then hdr_set ''X-Consumer-Identity'' (pi_Identity pod) h1 else h1)
           in r\<lparr>rq_header := h2\<rparr>
      else r)"

text \<open>
  The first half of the handler: resolve and check the caller.  The result is the error text of
  the 403 answer, or the caller (\<^const>\<open>None\<close> when there is no pod table).
\<close>

definition check_caller :: "RuleRouter \<Rightarrow> string \<Rightarrow> string + PodInfo option" where
  "check_caller rr clientIP =
     (case rr_podMap rr of
        None \<Rightarrow> Inr None
      | Some pm \<Rightarrow>
          (case caller pm clientIP of
             None \<Rightarrow> Inl ''Access Denied: caller not recognized as an opted-in pod''
           | Some pod \<Rightarrow>
               if \<not> pi_Bound pod then Inl ''Access Denied: pod is unbound''
               else Inr (Some pod)))"

text \<open>\<^verbatim>\<open>pm != nil && !pm.IsRuleAllowed(pod, ...)\<close>\<close>

definition policy_denies :: "RuleRouter \<Rightarrow> PodInfo option \<Rightarrow> string \<Rightarrow> string \<Rightarrow> bool" where
  "policy_denies rr pod ruleName host \<longleftrightarrow> rr_podMap rr \<noteq> None \<and> \<not> IsRuleAllowed pod ruleName host"

definition Router_ServeHTTP ::
  "'w proxy_env \<Rightarrow> string list \<Rightarrow> RuleRouter \<Rightarrow> Request \<Rightarrow> ResponseWriter \<times> (InMemoryCache \<times> 'w) \<Rightarrow>
   ResponseWriter \<times> (InMemoryCache \<times> 'w)" where
  "Router_ServeHTTP env ord rr r s =
     (let host = request_host r; deny = (\<lambda>msg. (http_error msg 403 (fst s), snd s)) in
      case check_caller rr (HostWithoutPort (rq_remote r)) of
        Inl msg \<Rightarrow> deny msg
      | Inr pod \<Rightarrow>
          (case find_rule ord (rr_routes rr) host of
             Some rule \<Rightarrow>
               if policy_denies rr pod (rl_Name rule) host
               then deny ''Access Denied: host not allowed by pod policy''
               else serve_proxy env (rl_Proxy rule) (rl_ttl rule)
                      (case pod of Some pi \<Rightarrow> attribute_request rule pi r | None \<Rightarrow> r) s
           | None \<Rightarrow>
               (case rr_fallback rr of
                  FallbackProxy p ttl \<Rightarrow>
                    if policy_denies rr pod ''fallback'' host
                    then deny ''Access Denied: host not allowed by pod policy''
                    else serve_proxy env p ttl r s
                | NoFallback \<Rightarrow> deny ''Access Denied: host not allowed by portal rules'')))"

subsection \<open>Certificates\<close>

datatype CertError =
    UnknownCaller string
  | UnboundCaller string
  | PolicyForbids string string string
  | NoRuleMatches string

record ClientHello =
  ch_ServerName :: string
  ch_Remote :: "string option"

text \<open>\<open>mint\<close> is \<^verbatim>\<open>GetCertificate\<close> of the proxy the router selects.\<close>

definition Router_GetCertificate ::
  "(HTTPProxy \<Rightarrow> ClientHello \<Rightarrow> 'c) \<Rightarrow> string list \<Rightarrow> RuleRouter \<Rightarrow> ClientHello \<Rightarrow> CertError + 'c" where
  "Router_GetCertificate mint ord rr info =
     (let host = to_lower (sni_host (ch_ServerName info));
          rule = find_rule ord (rr_routes rr) host;
          clientIP = (case ch_Remote info of Some a \<Rightarrow> HostWithoutPort a | None \<Rightarrow> []);
          selected = (case rule of
                      Some rl \<Rightarrow> Inr (mint (rl_Proxy rl) info)
                    | None \<Rightarrow>
                        (case rr_fallback rr of
                           FallbackProxy p ttl \<Rightarrow> Inr (mint p info)
                         | NoFallback \<Rightarrow> Inl (NoRuleMatches host)))
      in case rr_podMap rr of
           None \<Rightarrow> selected
         | Some pm \<Rightarrow>
             (case caller pm clientIP of
                None \<Rightarrow> Inl (UnknownCaller clientIP)
              | Some pod \<Rightarrow>
                  if \<not> pi_Bound pod then Inl (UnboundCaller clientIP)
                  else if \<not> IsRuleAllowed (Some pod) (case rule of Some rl \<Rightarrow> rl_Name rl | None \<Rightarrow> []) host
                  then Inl (PolicyForbids clientIP host (pi_Policy pod))
                  else selected))"

subsection \<open>Loading the rules\<close>

record PortalRule =
  pr_APIVersion :: string
  pr_Kind :: string
  pr_Name :: string
  pr_Host :: string
  pr_RewriteURL :: string
  pr_AuthToken :: string
  pr_AuthHeader :: string
  pr_CacheTTL :: string
  pr_AttributionHeaders :: bool

datatype load_error =
    WalkFailed string
  | ReadFailed string string
  | InvalidYAML string string
  | InvalidRewriteURL string string string
  | ProxyFailed string string
  | InvalidCacheTTL string string string

datatype dir_entry =
    WalkErr string
  | DirEntry string
  | FileEntry string "string + string"

record load_env =
  le_yaml :: "string \<Rightarrow> string + PortalRule"
  le_url :: "string \<Rightarrow> string + URL"
  le_duration :: "string \<Rightarrow> string + int"
  le_ca :: "string option"

definition rewrite_target :: "PortalRule \<Rightarrow> string" where
  "rewrite_target rule =
     (let u = (if pr_RewriteURL rule = [] then pr_Host rule else pr_RewriteURL rule)
      in if \<not> contains u ''://'' then ''https://'' @ u else u)"

definition rule_auth_header :: "PortalRule \<Rightarrow> string" where
  "rule_auth_header rule = (if pr_AuthHeader rule = [] then ''Authorization'' else pr_AuthHeader rule)"

definition rule_cache_ttl :: "load_env \<Rightarrow> PortalRule \<Rightarrow> string + int" where
  "rule_cache_ttl env rule = (if pr_CacheTTL rule = [] then Inr 0 else le_duration env (pr_CacheTTL rule))"

text \<open>One document of a rule file: an error, nothing (skipped), or a route.\<close>

definition load_part :: "load_env \<Rightarrow> string \<Rightarrow> string \<Rightarrow> load_error + (string \<times> Rule) option" where
  "load_part env path part =
     (let trimmed = trim_space part in
      if trimmed = [] then Inr None
      else case le_yaml env trimmed of
        Inl e \<Rightarrow> Inl (InvalidYAML path e)
      | Inr rule \<Rightarrow>
          if pr_Kind rule \<noteq> ''PortalRule'' then Inr None
          else if pr_Host rule = [] then Inr None
          else case le_url env (rewrite_target rule) of
            Inl e \<Rightarrow> Inl (InvalidRewriteURL (rewrite_target rule) (pr_Name rule) e)
          | Inr u \<Rightarrow>
              (case le_ca env of
                 Some e \<Rightarrow> Inl (ProxyFailed (pr_Name rule) e)
               | None \<Rightarrow>
                   (case rule_cache_ttl env rule of
                      Inl e \<Rightarrow> Inl (InvalidCacheTTL (pr_CacheTTL rule) (pr_Name rule) e)
                    | Inr ttl \<Rightarrow>
                        Inr (Some (to_lower (pr_Host rule),
                          \<lparr>rl_Proxy = \<lparr>hp_target = u, hp_token = pr_AuthToken rule,
                                        hp_authheader = rule_auth_header rule\<rparr>,
                           rl_ttl = ttl, rl_Name = pr_Name rule,
                           rl_AttributionHeaders = pr_AttributionHeaders rule\<rparr>)))))"

type_synonym load_state = "load_error list \<times> (string \<rightharpoonup> Rule)"

definition add_part :: "load_env \<Rightarrow> string \<Rightarrow> string \<Rightarrow> load_state \<Rightarrow> load_state" where
  "add_part env path part st =
     (case load_part env path part of
        Inl e \<Rightarrow> (fst st @ [e], snd st)
      | Inr None \<Rightarrow> st
      | Inr (Some (host, rule)) \<Rightarrow> (fst st, (snd st)(host \<mapsto> rule)))"

definition is_rule_file :: "string \<Rightarrow> bool" where
  "is_rule_file path \<longleftrightarrow> has_suffix (to_lower path) ''.yaml'' \<or> has_suffix (to_lower path) ''.yml''"

fun load_walk :: "load_env \<Rightarrow> dir_entry list \<Rightarrow> load_state \<Rightarrow> load_error + load_state" where
  "load_walk env [] st = Inr st"
| "load_walk env (WalkErr e # es) st = Inl (WalkFailed e)"
| "load_walk env (DirEntry p # es) st = load_walk env es st"
| "load_walk env (FileEntry p c # es) st =
     (if \<not> is_rule_file p then load_walk env es st
      else case c of
             Inl e \<Rightarrow> load_walk env es (fst st @ [ReadFailed p e], snd st)
           | Inr content \<Rightarrow> load_walk env es (fold (add_part env p) (split_on content ''---'') st))"

definition loadRules :: "load_env \<Rightarrow> dir_entry list \<Rightarrow> RuleRouter \<Rightarrow> load_error list \<times> RuleRouter" where
  "loadRules env entries rr =
     (if rr_rulesDir rr = [] then ([], rr)
      else case load_walk env entries ([], (\<lambda>_. None)) of
             Inl e \<Rightarrow> ([e], rr)
           | Inr (errs, newRoutes) \<Rightarrow>
               if errs \<noteq> [] then (errs, rr) else ([], rr\<lparr>rr_routes := newRoutes\<rparr>))"

subsection \<open>Routing lemmas\<close>

lemma find_rule_in_routes:
  "find_rule ord routes host = Some rule \<Longrightarrow> \<exists>rHost. routes rHost = Some rule \<and> (rHost = host \<or> has_prefix host (rHost @ ''.''))"
  by (auto simp: find_rule_def find_Some_iff split: option.splits)

lemma find_rule_None_iff:
  assumes "set ord = dom routes"
  shows "find_rule ord routes host = None \<longleftrightarrow>
           routes host = None \<and> (\<forall>rHost\<in>dom routes. \<not> has_prefix host (rHost @ ''.''))"
proof (cases "routes host")
  case None
  show ?thesis
  proof (cases "find (\<lambda>rHost. has_prefix host (rHost @ ''.'')) ord")
    case n: None
    then have "find_rule ord routes host = None" using None by (simp add: find_rule_def)
    moreover have "\<forall>rHost\<in>dom routes. \<not> has_prefix host (rHost @ ''.'')"
      using n assms by (auto simp: find_None_iff)
    ultimately show ?thesis using None by simp
  next
    case (Some q)
    then have q: "q \<in> dom routes" "has_prefix host (q @ ''.'')" using assms by (auto simp: find_Some_iff)
    then have "find_rule ord routes host \<noteq> None" using None Some by (auto simp: find_rule_def)
    then show ?thesis using q by blast
  qed
qed (simp add: find_rule_def)

lemma rule_transport_world:
  "snd (snd (rule_transport env ttl req (c, world))) \<in> {world, snd (pe_rt env req world)}"
  by (auto simp: rule_transport_def CachingRoundTrip_def Let_def split: prod.splits option.splits sum.splits)

lemma serve_proxy_world:
  "snd (snd (serve_proxy env p ttl r (w, (c, world)))) \<in> {world, snd (pe_rt env (outgoing p r) world)}"
proof (cases "rq_method r = ''CONNECT''")
  case False
  obtain res c' world' where t: "rule_transport env ttl (outgoing p r) (c, world) = (res, (c', world'))"
    by (metis prod.collapse)
  then have "world' \<in> {world, snd (pe_rt env (outgoing p r) world)}"
    using rule_transport_world [of env ttl "outgoing p r" c world] by simp
  then show ?thesis
    using t False by (auto simp: serve_proxy_def ServeHTTP_def proxyRequest_def split: sum.splits)
qed (simp add: serve_proxy_def ServeHTTP_def)

text \<open>What the pod table says about a caller, a rule name and a host.\<close>

definition admitted :: "RuleRouter \<Rightarrow> string \<Rightarrow> string \<Rightarrow> string \<Rightarrow> bool" where
  "admitted rr ip ruleName host \<longleftrightarrow>
     (case rr_podMap rr of
        None \<Rightarrow> True
      | Some pm \<Rightarrow> (\<exists>pod. caller pm ip = Some pod \<and> pi_Bound pod \<and> IsRuleAllowed (Some pod) ruleName host))"

text \<open>The proxy a host is routed to, with the name its policy check uses.\<close>

definition route_target :: "string list \<Rightarrow> RuleRouter \<Rightarrow> string \<Rightarrow> (string \<times> HTTPProxy) option" where
  "route_target ord rr host =
     (case find_rule ord (rr_routes rr) host of
        Some rule \<Rightarrow> Some (rl_Name rule, rl_Proxy rule)
      | None \<Rightarrow>
          (case rr_fallback rr of
             FallbackProxy p ttl \<Rightarrow> Some (''fallback'', p)
           | NoFallback \<Rightarrow> None))"

lemma check_caller_cases:
  obtains msg where "check_caller rr ip = Inl msg" and "\<And>n h. \<not> admitted rr ip n h"
  | pod where "check_caller rr ip = Inr pod" and "\<And>n h. admitted rr ip n h = (\<not> policy_denies rr pod n h)"
proof (cases "rr_podMap rr")
  case None
  then show thesis using that(2) [of None] by (simp add: check_caller_def admitted_def policy_denies_def)
next
  case (Some pm)
  show thesis
  proof (cases "caller pm ip")
    case None
    with Some show thesis using that(1) by (simp add: check_caller_def admitted_def)
  next
    case (Some pod)
    show thesis
    proof (cases "pi_Bound pod")
      case True
      with Some \<open>rr_podMap rr = Some pm\<close> show thesis
        using that(2) [of "Some pod"] by (simp add: check_caller_def admitted_def policy_denies_def)
    next
      case False
      with Some \<open>rr_podMap rr = Some pm\<close> show thesis
        using that(1) by (simp add: check_caller_def admitted_def)
    qed
  qed
qed

text \<open>The two outcomes of the handler: a 403 answer that sends nothing, or the selected proxy.\<close>

lemma Router_denies:
  assumes "\<nexists>n p. route_target ord rr (request_host r) = Some (n, p) \<and>
             admitted rr (HostWithoutPort (rq_remote r)) n (request_host r)"
  shows "\<exists>msg. Router_ServeHTTP env ord rr r s = (http_error msg 403 (fst s), snd s)"
proof (cases rule: check_caller_cases [of rr "HostWithoutPort (rq_remote r)"])
  case (1 msg)
  then show ?thesis by (auto simp: Router_ServeHTTP_def)
next
  case (2 pod)
  then show ?thesis using assms
    by (auto simp: Router_ServeHTTP_def route_target_def Let_def split: option.splits fallback.splits)
qed

lemma Router_serves:
  assumes "route_target ord rr (request_host r) = Some (n, p)"
    and "admitted rr (HostWithoutPort (rq_remote r)) n (request_host r)"
  obtains ttl r' where "Router_ServeHTTP env ord rr r s = serve_proxy env p ttl r' s"
    and "rq_method r' = rq_method r" and "rq_url r' = rq_url r" and "rq_body r' = rq_body r"
proof -
  obtain pod where c: "check_caller rr (HostWithoutPort (rq_remote r)) = Inr pod"
    and nd: "\<not> policy_denies rr pod n (request_host r)"
    using assms(2) by (cases rule: check_caller_cases [of rr "HostWithoutPort (rq_remote r)"]) auto
  have att: "rq_method (attribute_request rule q r) = rq_method r \<and> rq_url (attribute_request rule q r) = rq_url r
      \<and> rq_body (attribute_request rule q r) = rq_body r" for rule q
    by (simp add: attribute_request_def Let_def)
  show thesis
  proof (cases "find_rule ord (rr_routes rr) (request_host r)")
    case None
    then obtain ttl where "rr_fallback rr = FallbackProxy p ttl" "n = ''fallback''"
      using assms(1) by (auto simp: route_target_def split: fallback.splits)
    then show thesis using that [of ttl r] None c nd by (simp add: Router_ServeHTTP_def Let_def)
  next
    case (Some rule)
    then have "n = rl_Name rule" "p = rl_Proxy rule" using assms(1) by (auto simp: route_target_def)
    then show thesis
      using that [of "rl_ttl rule" "case pod of Some q \<Rightarrow> attribute_request rule q r | None \<Rightarrow> r"] Some c nd att
      by (simp add: Router_ServeHTTP_def Let_def split: option.splits)
  qed
qed

lemma has_prefix_snoc:
  "has_prefix (h @ [c]) (p @ [c]) \<longleftrightarrow> p = h \<or> has_prefix h (p @ [c])"
  by (auto simp: has_prefix_iff append_eq_append_conv2 append_eq_Cons_conv Cons_eq_append_conv)

lemma trim_dot_cases:
  obtains "trim_suffix H ''.'' = H" and "\<not> has_suffix H ''.''"
  | h where "H = h @ ''.''" and "trim_suffix H ''.'' = h"
  by (metis has_suffix_iff trim_suffix_append trim_suffix_def)

lemma MatchHost_served:
  assumes "iterates ord (rr_routes rr)" and "\<forall>rHost\<in>dom (rr_routes rr). \<not> has_suffix rHost ''.''"
  shows "MatchHost ord rr host \<longleftrightarrow>
     find_rule ord (rr_routes rr) (to_lower (HostWithoutPort host)) \<noteq> None \<or>
     (\<exists>p ttl. rr_fallback rr = FallbackProxy p ttl \<and>
        fallback_matches p (trim_suffix (to_lower (HostWithoutPort host)) ''.''))"
proof -
  let ?H = "to_lower (HostWithoutPort host)" and ?R = "rr_routes rr"
  have ord: "set ord = dom ?R" using assms(1) by (simp add: iterates_def)
  have m: "MatchHost ord rr host \<longleftrightarrow> find_rule ord ?R (trim_suffix ?H ''.'') \<noteq> None \<or>
      (\<exists>p ttl. rr_fallback rr = FallbackProxy p ttl \<and> fallback_matches p (trim_suffix ?H ''.''))"
    unfolding find_rule_None_iff [OF ord] MatchHost_def Let_def
    by (auto simp: list_ex_iff ord split: fallback.splits)
  have "find_rule ord ?R (trim_suffix ?H ''.'') = None \<longleftrightarrow> find_rule ord ?R ?H = None"
  proof (cases rule: trim_dot_cases [of ?H])
    case (2 h)
    have "?R ?H = None" using assms(2) 2(1) has_suffix_append [of h "''.''"] by (metis domIff)
    then show ?thesis unfolding find_rule_None_iff [OF ord] 2(2)
      using has_prefix_snoc [of h "CHR ''.''"] 2(1) by auto
  qed simp
  with m show ?thesis by simp
qed

lemma load_walk_routes:
  assumes "load_walk env es (errs, routes) = Inr (errs', routes')" and "routes' h = Some rule"
  shows "routes h = Some rule \<or>
    (\<exists>path content part. FileEntry path (Inr content) \<in> set es \<and> is_rule_file path \<and>
       part \<in> set (split_on content ''---'') \<and> load_part env path part = Inr (Some (h, rule)))"
  using assms
proof (induction es arbitrary: errs routes)
  case (Cons e es)
  have parts: "snd (fold (add_part env p) ps st) h = Some q \<Longrightarrow>
      snd st h = Some q \<or> (\<exists>part\<in>set ps. load_part env p part = Inr (Some (h, q)))" for p ps st q
  proof (induction ps arbitrary: st)
    case (Cons a ps)
    have "snd (add_part env p a st) h = Some q \<Longrightarrow>
        snd st h = Some q \<or> load_part env p a = Inr (Some (h, q))"
      by (auto simp: add_part_def split: sum.splits option.splits if_splits)
    moreover have "snd (add_part env p a st) h = Some q \<or> (\<exists>part\<in>set ps. load_part env p part = Inr (Some (h, q)))"
      using Cons.IH [of "add_part env p a st"] Cons.prems by simp
    ultimately show ?case by auto
  qed simp
  have later: "load_walk env es (e1, r1) = Inr (errs', routes') \<Longrightarrow> r1 h = Some rule \<or>
    (\<exists>path content part. FileEntry path (Inr content) \<in> set (e # es) \<and> is_rule_file path \<and>
       part \<in> set (split_on content ''---'') \<and> load_part env path part = Inr (Some (h, rule)))" for e1 r1
    using Cons.IH [of e1 r1, OF _ Cons.prems(2)] by (meson list.set_intros(2))
  show ?case
  proof (cases e)
    case (FileEntry p c)
    show ?thesis
    proof (cases "is_rule_file p")
      case True
      show ?thesis
      proof (cases c)
        case (Inr content)
        obtain errs1 routes1 where f: "fold (add_part env p) (split_on content ''---'') (errs, routes) = (errs1, routes1)"
          by fastforce
        with Cons.prems FileEntry True Inr
        have "load_walk env es (errs1, routes1) = Inr (errs', routes')" by simp
        from later [OF this] show ?thesis
          using parts [of p "split_on content ''---''" "(errs, routes)" rule] f True FileEntry Inr by auto
      qed (use Cons.prems True FileEntry later [of "errs @ [_]" routes] in simp)
    qed (use Cons.prems FileEntry later in simp)
  qed (use Cons.prems later in simp_all)
qed simp

lemma load_part_Some:
  assumes "load_part env path part = Inr (Some (h, rule))"
  shows "\<exists>pr. le_yaml env (trim_space part) = Inr pr \<and> pr_Kind pr = ''PortalRule'' \<and> pr_Host pr \<noteq> [] \<and>
     h = to_lower (pr_Host pr) \<and> rl_Name rule = pr_Name pr \<and>
     hp_token (rl_Proxy rule) = pr_AuthToken pr \<and> hp_authheader (rl_Proxy rule) = rule_auth_header pr \<and>
     le_url env (rewrite_target pr) = Inr (hp_target (rl_Proxy rule))"
  using assms by (auto simp: load_part_def Let_def split: if_splits sum.splits option.splits)

subsection \<open>Properties\<close>

text \<open>
  Claim C1. The router fails closed.  With a pod table, a request is answered with 403, the cache
  is left alone and nothing is sent upstream unless its remote address resolves to a bound pod
  whose policy allows the matched rule (or the fallback) on the requested host; without a
  matching rule and without a fallback it is answered so in any case.
\<close>

theorem router_fails_closed:
  assumes "rw_status w = None"
    and "\<nexists>n p. route_target ord rr (request_host r) = Some (n, p) \<and>
           admitted rr (HostWithoutPort (rq_remote r)) n (request_host r)"
  shows "rw_status (fst (Router_ServeHTTP env ord rr r (w, cw))) = Some 403 \<and>
         snd (Router_ServeHTTP env ord rr r (w, cw)) = cw"
  using Router_denies [OF assms(2), of env "(w, cw)"] assms(1) by auto

text \<open>
  Claim C2. Egress is confined: whatever a request through the router changes in the outside
  world is one upstream request, to the scheme and host of the target of the rule (or fallback)
  the request's host is routed to, and only for an admitted caller.
\<close>

theorem router_egress:
  assumes "Router_ServeHTTP env ord rr r (w, (c, world)) = (w', (c', world'))" and "world' \<noteq> world"
  shows "\<exists>n p out. route_target ord rr (request_host r) = Some (n, p) \<and>
           admitted rr (HostWithoutPort (rq_remote r)) n (request_host r) \<and>
           world' = snd (pe_rt env out world) \<and> rq_method out = rq_method r \<and>
           u_scheme (rq_url out) = u_scheme (hp_target p) \<and> u_host (rq_url out) = u_host (hp_target p) \<and>
           rq_host out = u_host (hp_target p)"
proof -
  have "\<exists>n p. route_target ord rr (request_host r) = Some (n, p) \<and>
           admitted rr (HostWithoutPort (rq_remote r)) n (request_host r)"
    using Router_denies [of ord rr r env "(w, (c, world))"] assms by fastforce
  then obtain n p where np: "route_target ord rr (request_host r) = Some (n, p)"
    "admitted rr (HostWithoutPort (rq_remote r)) n (request_host r)" by blast
  from Router_serves [OF np, of env "(w, (c, world))"] obtain ttl r' where
    r': "Router_ServeHTTP env ord rr r (w, (c, world)) = serve_proxy env p ttl r' (w, (c, world))"
    "rq_method r' = rq_method r" by metis
  have "world' = snd (pe_rt env (outgoing p r') world)"
    using serve_proxy_world [of env p ttl r' w c world] assms unfolding r'(1) by auto
  then show ?thesis using np r'(2)
    by (intro exI [of _ n] exI [of _ p] exI [of _ "outgoing p r'"]) (simp add: outgoing_def)
qed


text \<open>
  Claim C17. Reloading is all or nothing: when any file or document has an error the routes stay
  as they were, and when loading succeeds every route comes from a document of kind PortalRule of
  one of the rule files, under the lower-case host of that document, with its name, token,
  credential header and target.
\<close>

theorem load_all_or_nothing:
  assumes "loadRules env entries rr = (errs, rr')"
  shows "(errs \<noteq> [] \<longrightarrow> rr' = rr) \<and>
    (errs = [] \<and> rr_rulesDir rr \<noteq> [] \<and> rr_routes rr' h = Some rule \<longrightarrow>
      (\<exists>path content part pr. FileEntry path (Inr content) \<in> set entries \<and> is_rule_file path \<and>
         part \<in> set (split_on content ''---'') \<and> le_yaml env (trim_space part) = Inr pr \<and>
         pr_Kind pr = ''PortalRule'' \<and> pr_Host pr \<noteq> [] \<and> h = to_lower (pr_Host pr) \<and>
         rl_Name rule = pr_Name pr \<and> hp_token (rl_Proxy rule) = pr_AuthToken pr \<and>
         hp_authheader (rl_Proxy rule) = rule_auth_header pr \<and>
         le_url env (rewrite_target pr) = Inr (hp_target (rl_Proxy rule))))"
proof (intro conjI impI)
  assume "errs \<noteq> []"
  then show "rr' = rr"
    using assms by (auto simp: loadRules_def split: if_splits sum.splits prod.splits)
next
  assume a: "errs = [] \<and> rr_rulesDir rr \<noteq> [] \<and> rr_routes rr' h = Some rule"
  with assms obtain routes where w: "load_walk env entries ([], (\<lambda>_. None)) = Inr ([], routes)"
    and r: "routes h = Some rule"
    by (auto simp: loadRules_def split: if_splits sum.splits prod.splits)
  from load_walk_routes [OF w r] obtain path content part where p: "FileEntry path (Inr content) \<in> set entries" "is_rule_file path" "part \<in> set (split_on content ''---'')"
    "load_part env path part = Inr (Some (h, rule))" by auto
  from load_part_Some [OF p(4)] p(1-3) show "\<exists>path content part pr.
         FileEntry path (Inr content) \<in> set entries \<and> is_rule_file path \<and>
         part \<in> set (split_on content ''---'') \<and> le_yaml env (trim_space part) = Inr pr \<and>
         pr_Kind pr = ''PortalRule'' \<and> pr_Host pr \<noteq> [] \<and> h = to_lower (pr_Host pr) \<and>
         rl_Name rule = pr_Name pr \<and> hp_token (rl_Proxy rule) = pr_AuthToken pr \<and>
         hp_authheader (rl_Proxy rule) = rule_auth_header pr \<and>
         le_url env (rewrite_target pr) = Inr (hp_target (rl_Proxy rule))"
    by blast
qed


text \<open>
  TLS and HTTP disagree about the fallback: a bound pod whose policy is the word
  \<open>fallback\<close> may use the fallback for a host without a rule over HTTP, but the TLS handshake
  for the same host and caller is refused, because the certificate path checks the policy
  against an empty rule name.
\<close>

theorem fallback_policy_tls_mismatch:
  assumes "rr_podMap rr = Some pm" and "rr_fallback rr = FallbackProxy p ttl"
    and "caller pm (HostWithoutPort remote) = Some pod" and "pi_Bound pod" and "pi_Policy pod = ''fallback''"
    and "find_rule ord (rr_routes rr) host = None" and "to_lower (HostWithoutPort host) = host"
    and "to_lower host \<noteq> ''fallback''" and "host \<noteq> []"
    and "rq_host r = host" and "rq_remote r = remote"
  shows "Router_ServeHTTP env ord rr r s = serve_proxy env p ttl r s \<and>
         Router_GetCertificate mint ord rr \<lparr>ch_ServerName = host, ch_Remote = Some remote\<rparr> =
           Inl (PolicyForbids (HostWithoutPort remote) host ''fallback'')"
proof -
  have s: "split_on ''fallback'' '','' = [''fallback'']" by (rule split_on_single_id) simp
  have t: "trim_space (to_lower ''fallback'') = ''fallback''" "to_lower ''fallback'' = ''fallback''"
    "to_lower ([] :: string) = []" by code_simp+
  have h: "request_host r = host" using assms(7,9,10) by (simp add: request_host_def)
  have "IsRuleAllowed (Some pod) ''fallback'' host" "\<not> IsRuleAllowed (Some pod) [] host"
    using assms(4,5,8) s t by (simp_all add: IsRuleAllowed_def)
  then show ?thesis
    using assms h
    by (simp add: Router_ServeHTTP_def Router_GetCertificate_def check_caller_def policy_denies_def
        sni_host_def Let_def)
qed

text \<open>
  When two rules match a host by prefix and none matches it exactly, Go's random
  iteration order decides: for each of the two rules there is an order of the routes under which
  the request goes to that rule, with that rule's target and credential.
\<close>

theorem overlapping_rules_ambiguous:
  assumes "finite (dom routes)" and "routes host = None"
    and "routes a = Some rule_a" and "has_prefix host (a @ ''.'')"
    and "routes b = Some rule_b" and "has_prefix host (b @ ''.'')"
  shows "(\<exists>ord. iterates ord routes \<and> find_rule ord routes host = Some rule_a) \<and>
         (\<exists>ord. iterates ord routes \<and> find_rule ord routes host = Some rule_b)"
proof -
  have first: "\<exists>ord. iterates ord routes \<and> find_rule ord routes host = Some q"
    if "routes x = Some q" and "has_prefix host (x @ ''.'')" for x q
  proof -
    obtain ks where ks: "distinct ks" "set ks = dom routes - {x}"
      using finite_distinct_list [of "dom routes - {x}"] assms(1) by auto
    then have "iterates (x # ks) routes" using that(1) by (auto simp: iterates_def)
    moreover have "find_rule (x # ks) routes host = Some q"
      using assms(2) that by (simp add: find_rule_def)
    ultimately show ?thesis by blast
  qed
  show ?thesis using first assms(3-6) by blast
qed

subsection \<open>Witnesses\<close>

definition url_of :: "string \<Rightarrow> URL" where
  "url_of host = \<lparr>u_scheme = ''https'', u_host = host, u_path = ''/'', u_rawpath = [], u_rawquery = []\<rparr>"

definition github_proxy :: HTTPProxy where
  "github_proxy = \<lparr>hp_target = url_of ''api.github.com'', hp_token = ''tok'', hp_authheader = ''Authorization''\<rparr>"

definition github_rule :: Rule where
  "github_rule = \<lparr>rl_Proxy = github_proxy, rl_ttl = 0, rl_Name = ''github'', rl_AttributionHeaders = True\<rparr>"

definition log_env :: "(Request list) proxy_env" where
  "log_env = \<lparr>pe_ord = (\<lambda>_. []), pe_ordk = (\<lambda>_. []), pe_enc = (\<lambda>_. None), pe_dec = (\<lambda>_. None),
     pe_url = u_path, pe_rt = (\<lambda>q ws. (Inl ''refused'', q # ws)), pe_t1 = 0, pe_t2 = 0\<rparr>"

definition get_request :: "string \<Rightarrow> string \<Rightarrow> Request" where
  "get_request host remote =
     \<lparr>rq_method = ''GET'', rq_url = (url_of [])\<lparr>u_scheme := []\<rparr>, rq_host = host, rq_header = (\<lambda>_. None),
      rq_body = [], rq_remote = remote\<rparr>"

definition github_router :: "PodMap option \<Rightarrow> RuleRouter" where
  "github_router pm =
     \<lparr>rr_routes = [''github.com'' \<mapsto> github_rule], rr_fallback = NoFallback, rr_rulesDir = ''/rules'', rr_podMap = pm\<rparr>"

definition bound_pod_a :: PodMap where
  "bound_pod_a = Bind ''uid-a'' ''alice'' ''github'' (AddOrUpdatePod pod_a NewPodMap)"

lemma github_host: "request_host (get_request ''github.com'' a) = ''github.com''"
proof -
  have "to_lower (HostWithoutPort ''github.com'') = ''github.com''" by code_simp
  then show ?thesis by (simp add: request_host_def get_request_def)
qed

lemma github_target:
  "route_target [''github.com''] (github_router pm) ''github.com'' = Some (''github'', github_proxy)"
  by (simp add: route_target_def github_router_def find_rule_def github_rule_def)

theorem router_fails_closed_witness:
  "rw_status (fst (Router_ServeHTTP log_env [''github.com''] (github_router (Some NewPodMap))
      (get_request ''github.com'' ''10.0.0.5:4000'') (new_writer None, (NewInMemoryCache, [])))) = Some 403"
proof -
  have "\<not> admitted (github_router (Some NewPodMap)) ip n h" for ip n h
    by (simp add: admitted_def github_router_def caller_def GetPodByIP_def NewPodMap_def)
  then show ?thesis
    using router_fails_closed [of "new_writer None" "[''github.com'']" "github_router (Some NewPodMap)"
        "get_request ''github.com'' ''10.0.0.5:4000''" log_env "(NewInMemoryCache, [])"]
    by (simp add: new_writer_def)
qed

lemma remote_5: "HostWithoutPort ''10.0.0.5:4000'' = ''10.0.0.5''"
  by code_simp

lemma bound_pod_a_caller:
  "caller bound_pod_a ''10.0.0.5'' = Some (pod_a\<lparr>pi_Identity := ''alice'', pi_Policy := ''github'', pi_Bound := True\<rparr>)"
  by (simp add: bound_pod_a_def pm_eval)

lemma bound_pod_a_admitted: "admitted (github_router (Some bound_pod_a)) ''10.0.0.5'' ''github'' ''github.com''"
proof -
  have "split_on ''github'' '','' = [''github'']" by (rule split_on_single_id) simp
  moreover have "trim_space (to_lower ''github'') = to_lower ''github''" by code_simp
  ultimately show ?thesis
    by (simp add: admitted_def github_router_def bound_pod_a_caller IsRuleAllowed_def del: to_lower_Cons)
qed

theorem router_egress_witness:
  "\<exists>n p out. route_target [''github.com''] (github_router (Some bound_pod_a)) ''github.com'' = Some (n, p) \<and>
     snd (snd (Router_ServeHTTP log_env [''github.com''] (github_router (Some bound_pod_a))
       (get_request ''github.com'' ''10.0.0.5:4000'') (new_writer None, (NewInMemoryCache, [])))) = [out] \<and>
     rq_host out = ''api.github.com'' \<and> u_host (rq_url out) = u_host (hp_target p)"
proof -
  let ?r = "get_request ''github.com'' ''10.0.0.5:4000''" and ?rr = "github_router (Some bound_pod_a)"
  let ?s = "Router_ServeHTTP log_env [''github.com''] ?rr ?r (new_writer None, (NewInMemoryCache, []))"
  have adm: "admitted ?rr (HostWithoutPort (rq_remote ?r)) ''github'' (request_host ?r)"
    using bound_pod_a_admitted by (simp only: github_host remote_5) (simp add: get_request_def remote_5)
  obtain ttl r' where r': "?s = serve_proxy log_env github_proxy ttl r' (new_writer None, (NewInMemoryCache, []))"
    "rq_method r' = ''GET''"
    using Router_serves [of "[''github.com'']" ?rr ?r "''github''" github_proxy log_env
        "(new_writer None, (NewInMemoryCache, []))"] adm github_target [of "Some bound_pod_a"]
    by (metis github_host get_request_def Request.select_convs(1))
  have w: "snd (snd ?s) \<noteq> []"
    using r' by (auto simp: serve_proxy_def ServeHTTP_def proxyRequest_def rule_transport_def CachingRoundTrip_def
        mem_Get_def NewInMemoryCache_def log_env_def Let_def split: prod.splits if_splits)
  from router_egress [of log_env "[''github.com'']" ?rr ?r "new_writer None" NewInMemoryCache "[]" "fst ?s"
      "fst (snd ?s)" "snd (snd ?s)"] w
  show ?thesis by (auto simp: github_host github_target log_env_def github_proxy_def url_of_def)
qed


definition sample_rule :: PortalRule where
  "sample_rule = \<lparr>pr_APIVersion = ''v0'', pr_Kind = ''PortalRule'', pr_Name = ''gh'', pr_Host = ''GH'',
     pr_RewriteURL = [], pr_AuthToken = ''tok'', pr_AuthHeader = [], pr_CacheTTL = [], pr_AttributionHeaders = False\<rparr>"

definition sample_load :: load_env where
  "sample_load = \<lparr>le_yaml = (\<lambda>_. Inr sample_rule), le_url = (\<lambda>s. Inr (url_of s)), le_duration = (\<lambda>_. Inl ''bad''),
     le_ca = None\<rparr>"

theorem load_all_or_nothing_witness:
  "\<exists>rr' rule. loadRules sample_load [FileEntry ''a.yaml'' (Inr ''x'')] (NewRuleRouter ''/rules'' NoFallback) = ([], rr') \<and>
     rr_routes rr' ''gh'' = Some rule \<and> rl_Name rule = ''gh'' \<and> hp_authheader (rl_Proxy rule) = ''Authorization'' \<and>
     hp_target (rl_Proxy rule) = url_of ''https://GH''"
proof -
  have e: "split_on ''x'' ''---'' = [''x'']" "trim_space ''x'' = ''x''" "is_rule_file ''a.yaml''"
    "to_lower ''GH'' = ''gh''" "rewrite_target sample_rule = ''https://GH''" by code_simp+
  have p: "pr_Kind sample_rule = ''PortalRule''" "pr_Host sample_rule = ''GH''" "pr_CacheTTL sample_rule = []"
    by (simp_all add: sample_rule_def)
  obtain rr' rule where l: "loadRules sample_load [FileEntry ''a.yaml'' (Inr ''x'')] (NewRuleRouter ''/rules'' NoFallback) = ([], rr')"
    "rr_routes rr' ''gh'' = Some rule"
    by (simp add: loadRules_def NewRuleRouter_def e p add_part_def load_part_def sample_load_def Let_def
        rule_cache_ttl_def del: to_lower_Cons)
  have "rr_rulesDir (NewRuleRouter ''/rules'' NoFallback) \<noteq> []" by (simp add: NewRuleRouter_def)
  with load_all_or_nothing [OF l(1), of "''gh''" rule] l(2) obtain part pr where
    pr: "le_yaml sample_load (trim_space part) = Inr pr" "rl_Name rule = pr_Name pr"
    "hp_authheader (rl_Proxy rule) = rule_auth_header pr"
    "le_url sample_load (rewrite_target pr) = Inr (hp_target (rl_Proxy rule))" by blast
  then have "pr = sample_rule" by (simp add: sample_load_def)
  with pr(2-4) e(5) have "rl_Name rule = ''gh''" "hp_authheader (rl_Proxy rule) = ''Authorization''"
    "hp_target (rl_Proxy rule) = url_of ''https://GH''"
    by (simp_all add: rule_auth_header_def sample_load_def del: Inr_inject) (simp_all add: sample_rule_def)
  with l show ?thesis by blast
qed


definition fallback_router :: RuleRouter where
  "fallback_router = (github_router (Some (Bind ''uid-a'' '''' ''fallback'' (AddOrUpdatePod pod_a NewPodMap))))
     \<lparr>rr_fallback := FallbackProxy github_proxy 0\<rparr>"

theorem fallback_policy_tls_mismatch_witness:
  "Router_ServeHTTP log_env [''github.com''] fallback_router (get_request ''example.org'' ''10.0.0.5:4000'')
      (new_writer None, (NewInMemoryCache, [])) =
    serve_proxy log_env github_proxy 0 (get_request ''example.org'' ''10.0.0.5:4000'') (new_writer None, (NewInMemoryCache, [])) \<and>
   Router_GetCertificate (\<lambda>p info. ()) [''github.com''] fallback_router
      \<lparr>ch_ServerName = ''example.org'', ch_Remote = Some ''10.0.0.5:4000''\<rparr> =
    Inl (PolicyForbids ''10.0.0.5'' ''example.org'' ''fallback'')"
proof -
  have h: "to_lower (HostWithoutPort ''example.org'') = ''example.org''" "to_lower ''example.org'' \<noteq> ''fallback''"
    by code_simp+
  show ?thesis
    using fallback_policy_tls_mismatch [of fallback_router "Bind ''uid-a'' '''' ''fallback'' (AddOrUpdatePod pod_a NewPodMap)"
        github_proxy 0 "''10.0.0.5:4000''"
        "pod_a\<lparr>pi_Policy := ''fallback'', pi_Bound := True\<rparr>" "[''github.com'']" "''example.org''"
        "get_request ''example.org'' ''10.0.0.5:4000''" log_env "(new_writer None, (NewInMemoryCache, []))"
        "\<lambda>p info. ()"] h
    unfolding remote_5
    by (simp add: fallback_router_def github_router_def find_rule_def has_prefix_def get_request_def pm_eval
        del: to_lower_Cons)
qed

theorem overlapping_rules_ambiguous_witness:
  "\<exists>ord. iterates ord [''a'' \<mapsto> github_rule, ''a.b'' \<mapsto> github_rule\<lparr>rl_Name := ''other''\<rparr>] \<and>
     find_rule ord [''a'' \<mapsto> github_rule, ''a.b'' \<mapsto> github_rule\<lparr>rl_Name := ''other''\<rparr>] ''a.b.c'' = Some github_rule"
  using overlapping_rules_ambiguous [of "[''a'' \<mapsto> github_rule, ''a.b'' \<mapsto> github_rule\<lparr>rl_Name := ''other''\<rparr>]"
      "''a.b.c''" "''a''" github_rule "''a.b''" "github_rule\<lparr>rl_Name := ''other''\<rparr>"]
  by (simp add: has_prefix_def)

end
