(* ===== verification/Dns_Server.thy ===== *)
theory Dns_Server
  imports Go_Net
begin

unbundle bit_operations_syntax

text \<open>
  pkg/dns/server.go: the DNS server that answers queries for hosts with a portal rule with the
  proxy's address, and denies or forwards the others.  Packing and unpacking of messages
  (golang.org/x/net/dns/dnsmessage) are parameters.  Connections to upstream resolvers are
  described by how they behave when given the bytes the server is about to write: whether a dial
  or a write fails, and the bytes that arrive.
  Every function that uses the network also returns the list of dials it made.
\<close>

subsection \<open>Messages\<close>

record DnsHeader =
  dh_ID :: "16 word"
  dh_Response :: bool
  dh_OpCode :: nat
  dh_Authoritative :: bool
  dh_Truncated :: bool
  dh_RecursionDesired :: bool
  dh_RecursionAvailable :: bool
  dh_RCode :: nat

record Question =
  qu_Name :: string
  qu_Type :: nat
  qu_Class :: nat

record Resource =
  re_Name :: string
  re_Type :: nat
  re_Class :: nat
  re_TTL :: "32 word"
  re_Body :: bytes

record Message =
  me_Header :: DnsHeader
  me_Questions :: "Question list"
  me_Answers :: "Resource list"
  me_Authorities :: "Resource list"
  me_Additionals :: "Resource list"

abbreviation (input) TypeA :: nat where "TypeA \<equiv> 1"
abbreviation (input) TypeAAAA :: nat where "TypeAAAA \<equiv> 28"
abbreviation (input) TypeOPT :: nat where "TypeOPT \<equiv> 41"
abbreviation (input) ClassINET :: nat where "ClassINET \<equiv> 1"
abbreviation (input) RCodeSuccess :: nat where "RCodeSuccess \<equiv> 0"
abbreviation (input) RCodeServerFailure :: nat where "RCodeServerFailure \<equiv> 2"
abbreviation (input) RCodeNameError :: nat where "RCodeNameError \<equiv> 3"

definition reply_header :: "16 word \<Rightarrow> nat \<Rightarrow> DnsHeader" where
  "reply_header ident rcode =
     \<lparr>dh_ID = ident, dh_Response = True, dh_OpCode = 0, dh_Authoritative = False, dh_Truncated = False,
      dh_RecursionDesired = False, dh_RecursionAvailable = False, dh_RCode = rcode\<rparr>"

definition authoritative_header :: "DnsHeader \<Rightarrow> nat \<Rightarrow> DnsHeader" where
  "authoritative_header h rcode =
     \<lparr>dh_ID = dh_ID h, dh_Response = True, dh_OpCode = dh_OpCode h, dh_Authoritative = True, dh_Truncated = False,
      dh_RecursionDesired = dh_RecursionDesired h, dh_RecursionAvailable = True, dh_RCode = rcode\<rparr>"

definition reply_message :: "DnsHeader \<Rightarrow> Question list \<Rightarrow> Resource list \<Rightarrow> Message" where
  "reply_message h qs as =
     \<lparr>me_Header = h, me_Questions = qs, me_Answers = as, me_Authorities = [], me_Additionals = []\<rparr>"

subsection \<open>Configuration\<close>

record DnsConfig =
  dc_BindAddr :: string
  dc_ProxyIPv4 :: "bytes option"
  dc_ProxyIPv6 :: "bytes option"
  dc_Matcher :: "(string \<Rightarrow> bool) option"
  dc_DefaultAction :: string
  dc_UpstreamServers :: "string list"
  dc_ForwardTimeout :: int
  dc_TTL :: "32 word"

definition NewServer :: "DnsConfig \<Rightarrow> DnsConfig" where
  "NewServer cfg =
     cfg\<lparr>dc_BindAddr := (if dc_BindAddr cfg = [] then ''127.0.0.1:53'' else dc_BindAddr cfg),
         dc_ProxyIPv4 := (if dc_ProxyIPv4 cfg = None then parse_ip ''127.0.0.2'' else dc_ProxyIPv4 cfg),
         dc_ForwardTimeout := (if dc_ForwardTimeout cfg \<le> 0 then 3 * 10 ^ 9 else dc_ForwardTimeout cfg),
         dc_TTL := (if dc_TTL cfg = 0 then 60 else dc_TTL cfg)\<rparr>"

subsection \<open>Forwarding\<close>

record TcpConn =
  tc_writeLen :: "string option"
  tc_writeMsg :: "string option"
  tc_stream :: bytes

record UdpConn =
  uc_write :: "string option"
  uc_deadline :: "string option"
  uc_reply :: "string + bytes"

datatype contact = DialTCP string | DialUDP string

record network =
  nw_tcp :: "string \<Rightarrow> bytes \<Rightarrow> string + TcpConn"
  nw_udp :: "string \<Rightarrow> bytes \<Rightarrow> string + UdpConn"

text \<open>
  One exchange over TCP: length prefix, message, and the framed answer.  The connection carries
  what the peer has sent when the reads happen; a short stream is a read error.
\<close>

definition frame :: "bytes \<Rightarrow> bytes" where
  "frame m = put_be 2 (length m mod 65536) @ m"

definition read_frame :: "bytes \<Rightarrow> (bytes \<times> bytes) option" where
  "read_frame s =
     (if length s < 2 then None
      else let n = be_uint16 (take 2 s) in
           if length (drop 2 s) < n then None
           else Some (take n (drop 2 s), drop n (drop 2 s)))"

definition tcp_exchange :: "network \<Rightarrow> string \<Rightarrow> bytes \<Rightarrow> string + bytes" where
  "tcp_exchange net target req =
     (case nw_tcp net target (frame req) of
        Inl err \<Rightarrow> Inl err
      | Inr conn \<Rightarrow>
          (case tc_writeLen conn of
             Some err \<Rightarrow> Inl err
           | None \<Rightarrow>
               (case tc_writeMsg conn of
                  Some err \<Rightarrow> Inl err
                | None \<Rightarrow>
                    (case read_frame (tc_stream conn) of
                       None \<Rightarrow> Inl ''unexpected EOF''
                     | Some (resp, _) \<Rightarrow> Inr resp))))"

definition udp_exchange :: "network \<Rightarrow> string \<Rightarrow> bytes \<Rightarrow> string + bytes" where
  "udp_exchange net target req =
     (case nw_udp net target req of
        Inl err \<Rightarrow> Inl err
      | Inr conn \<Rightarrow>
          (case uc_write conn of
             Some err \<Rightarrow> Inl err
           | None \<Rightarrow>
               (case uc_deadline conn of
                  Some err \<Rightarrow> Inl err
                | None \<Rightarrow>
                    (case uc_reply conn of
                       Inl err \<Rightarrow> Inl err
                     | Inr b \<Rightarrow> Inr (take 4096 b)))))"

definition dial_target :: "string \<Rightarrow> string" where
  "dial_target server = (if \<not> contains server '':'' then join_host_port server ''53'' else server)"

definition is_truncated :: "bytes \<Rightarrow> bool" where
  "is_truncated b \<longleftrightarrow> length b \<ge> 4 \<and> (b ! 2) AND 2 \<noteq> 0"

text \<open>The attempt with one server, and the loop over the configured servers.\<close>

definition try_server :: "network \<Rightarrow> bytes \<Rightarrow> bool \<Rightarrow> string \<Rightarrow> (string + bytes) \<times> contact list" where
  "try_server net req clientIsTCP server =
     (let target = dial_target server in
      if clientIsTCP then (tcp_exchange net target req, [DialTCP target])
      else case udp_exchange net target req of
             Inl err \<Rightarrow> (Inl err, [DialUDP target])
           | Inr b \<Rightarrow>
               if is_truncated b then (tcp_exchange net target req, [DialUDP target, DialTCP target])
               else (Inr b, [DialUDP target]))"

fun forward_loop :: "network \<Rightarrow> bytes \<Rightarrow> bool \<Rightarrow> string list \<Rightarrow> string \<Rightarrow> (string + bytes) \<times> contact list" where
  "forward_loop net req tcp [] lastErr = (Inl (''all upstream DNS servers failed: '' @ lastErr), [])"
| "forward_loop net req tcp (server # servers) lastErr =
     (case try_server net req tcp server of
        (Inr b, cs) \<Rightarrow> (Inr b, cs)
      | (Inl err, cs) \<Rightarrow> (let (res, cs') = forward_loop net req tcp servers err in (res, cs @ cs')))"

definition forward :: "network \<Rightarrow> DnsConfig \<Rightarrow> bytes \<Rightarrow> bool \<Rightarrow> (string + bytes) \<times> contact list" where
  "forward net cfg req clientIsTCP =
     (if dc_UpstreamServers cfg = [] then (Inl ''no upstream DNS servers configured'', [])
      else forward_loop net req clientIsTCP (dc_UpstreamServers cfg) [])"

subsection \<open>Answering a query\<close>

definition ip_to16 :: "bytes \<Rightarrow> bytes option" where
  "ip_to16 ip = (if length ip = 4 then Some (v4_in_v6 ip) else if length ip = 16 then Some ip else None)"

definition address_record :: "DnsConfig \<Rightarrow> Question \<Rightarrow> nat \<Rightarrow> bytes option \<Rightarrow> Resource list" where
  "address_record cfg q ty ip =
     (case ip of
        Some b \<Rightarrow> [\<lparr>re_Name = qu_Name q, re_Type = ty, re_Class = ClassINET, re_TTL = dc_TTL cfg, re_Body = b\<rparr>]
      | None \<Rightarrow> [])"

definition address_answers :: "DnsConfig \<Rightarrow> Question \<Rightarrow> Resource list" where
  "address_answers cfg q =
     (if qu_Type q = TypeA then address_record cfg q TypeA (Option.bind (dc_ProxyIPv4 cfg) ip_to4)
      else if qu_Type q = TypeAAAA then address_record cfg q TypeAAAA (Option.bind (dc_ProxyIPv6 cfg) ip_to16)
      else [])"

definition query_name :: "Question \<Rightarrow> string" where
  "query_name q = trim_suffix (to_lower (qu_Name q)) ''.''"

definition truncate_reply ::
  "(bytes \<Rightarrow> string + Message) \<Rightarrow> (Message \<Rightarrow> string + bytes) \<Rightarrow> Message \<Rightarrow> bool \<Rightarrow> bytes \<Rightarrow> bytes" where
  "truncate_reply unpack pack msg isTCP respBytes =
     (if \<not> isTCP \<and> length respBytes > 512 \<and> \<not> list_ex (\<lambda>x. re_Type x = TypeOPT) (me_Additionals msg) then
        (case unpack respBytes of
           Inl _ \<Rightarrow> respBytes
         | Inr rm \<Rightarrow>
             (case pack (rm\<lparr>me_Header := (me_Header rm)\<lparr>dh_Truncated := True\<rparr>, me_Answers := [],
                            me_Authorities := [], me_Additionals := []\<rparr>) of
                Inl _ \<Rightarrow> respBytes
              | Inr t \<Rightarrow> t))
      else respBytes)"

definition handleQuery ::
  "(bytes \<Rightarrow> string + Message) \<Rightarrow> (Message \<Rightarrow> string + bytes) \<Rightarrow> network \<Rightarrow> DnsConfig \<Rightarrow> bytes \<Rightarrow> bool \<Rightarrow>
   (string + bytes) \<times> contact list" where
  "handleQuery unpack pack net cfg reqBytes isTCP =
     (case unpack reqBytes of
        Inl err \<Rightarrow> (Inl (''failed to unpack DNS message: '' @ err), [])
      | Inr msg \<Rightarrow>
          (case me_Questions msg of
             [] \<Rightarrow> (pack (reply_message (reply_header (dh_ID (me_Header msg)) RCodeSuccess) [] []), [])
           | q # _ \<Rightarrow>
               if (case dc_Matcher cfg of Some m \<Rightarrow> m (query_name q) | None \<Rightarrow> False) then
                 (pack (reply_message (authoritative_header (me_Header msg) RCodeSuccess) (me_Questions msg)
                          (address_answers cfg q)), [])
               else if equal_fold (dc_DefaultAction cfg) ''Allow'' then
                 (case forward net cfg reqBytes isTCP of
                    (Inl err, cs) \<Rightarrow>
                      (pack (reply_message (reply_header (dh_ID (me_Header msg)) RCodeServerFailure)
                               (me_Questions msg) []), cs)
                  | (Inr respBytes, cs) \<Rightarrow> (Inr (truncate_reply unpack pack msg isTCP respBytes), cs))
               else
                 (pack (reply_message (authoritative_header (me_Header msg) RCodeNameError) (me_Questions msg) []), [])))"

subsection \<open>Serving\<close>

text \<open>A datagram is read into a buffer of 4096 bytes; no answer is sent when handling fails.\<close>

definition serve_udp :: "(bytes \<Rightarrow> string + bytes) \<Rightarrow> bytes \<Rightarrow> bytes option" where
  "serve_udp handle dgram = (case handle (take 4096 dgram) of Inl _ \<Rightarrow> None | Inr b \<Rightarrow> Some b)"

lemma read_frame_shorter: "read_frame s = Some (m, rest) \<Longrightarrow> length rest < length s"
  by (auto simp: read_frame_def Let_def split: if_splits)

text \<open>A TCP connection: the bytes written in answer to the bytes received.\<close>

function serve_tcp :: "(bytes \<Rightarrow> string + bytes) \<Rightarrow> bytes \<Rightarrow> bytes" where
  "serve_tcp handle s =
     (case read_frame s of
        None \<Rightarrow> []
      | Some (req, rest) \<Rightarrow>
          (case handle req of
             Inl _ \<Rightarrow> []
           | Inr resp \<Rightarrow> frame resp @ serve_tcp handle rest))"
  by auto
termination by (relation "measure (\<lambda>(h, s). length s)") (auto dest: read_frame_shorter)

declare serve_tcp.simps [simp del]

subsection \<open>Starting and stopping\<close>

text \<open>
  The server's own fields, and the sockets it has open in the process; a listen call either fails
  with a text or opens a new socket.
\<close>

record Server =
  sv_started :: bool
  sv_udpConn :: "nat option"
  sv_tcpListener :: "nat option"
  sv_open :: "nat list"
  sv_next :: nat

definition stopped_server :: Server where
  "stopped_server = \<lparr>sv_started = False, sv_udpConn = None, sv_tcpListener = None, sv_open = [], sv_next = 0\<rparr>"

definition close_socket :: "nat option \<Rightarrow> Server \<Rightarrow> Server" where
  "close_socket c s = (case c of None \<Rightarrow> s | Some i \<Rightarrow> s\<lparr>sv_open := removeAll i (sv_open s)\<rparr>)"

definition Start :: "string option \<Rightarrow> string option \<Rightarrow> Server \<Rightarrow> string option \<times> Server" where
  "Start udpErr tcpErr s =
     (if sv_started s then (Some ''server already started'', s)
      else case udpErr of
        Some e \<Rightarrow> (Some (''failed to listen UDP: '' @ e), s)
      | None \<Rightarrow>
          let u = sv_next s; s1 = s\<lparr>sv_open := u # sv_open s, sv_next := Suc u\<rparr> in
          (case tcpErr of
             Some e \<Rightarrow> (Some (''failed to listen TCP: '' @ e), close_socket (Some u) s1)
           | None \<Rightarrow>
               let t = sv_next s1 in
               (None, s1\<lparr>sv_open := t # sv_open s1, sv_next := Suc t, sv_udpConn := Some u,
                        sv_tcpListener := Some t, sv_started := True\<rparr>)))"

definition Shutdown :: "Server \<Rightarrow> Server" where
  "Shutdown s =
     (if \<not> sv_started s then s
      else close_socket (sv_tcpListener s) (close_socket (sv_udpConn s) (s\<lparr>sv_started := False\<rparr>)))"

datatype server_op = StartOp "string option" "string option" | ShutdownOp

fun server_apply :: "server_op \<Rightarrow> Server \<Rightarrow> Server" where
  "server_apply (StartOp u t) s = snd (Start u t s)"
| "server_apply ShutdownOp s = Shutdown s"

definition sockets_match :: "Server \<Rightarrow> bool" where
  "sockets_match s \<longleftrightarrow>
     (\<forall>i\<in>set (sv_open s). i < sv_next s) \<and>
     (if sv_started s
      then (\<exists>u t. sv_udpConn s = Some u \<and> sv_tcpListener s = Some t \<and> sv_open s = [t, u] \<and> u \<noteq> t)
      else sv_open s = [])"

lemma sockets_match_apply [go_inv]: "sockets_match s \<Longrightarrow> sockets_match (server_apply oper s)"
  by (cases oper) (auto simp: sockets_match_def Start_def Shutdown_def close_socket_def Let_def split: option.splits)

lemma sockets_match_run: "sockets_match s \<Longrightarrow> sockets_match (fold server_apply ops s)"
  by (induction ops arbitrary: s) (auto intro: go_inv)

lemma address_record_set:
  "a \<in> set (address_record cfg q ty ip) \<Longrightarrow> re_Name a = qu_Name q \<and> Some (re_Body a) = ip"
  by (auto simp: address_record_def split: option.splits)

subsection \<open>Framing\<close>

lemma be_uint16_put_be: "n < 65536 \<Longrightarrow> be_uint16 (put_be 2 n) = n"
  by (simp add: be_uint16_def be_val_put_be)

lemma read_frame_frame: "length m < 65536 \<Longrightarrow> read_frame (frame m @ rest) = Some (m, rest)"
  by (simp add: read_frame_def frame_def Let_def be_uint16_put_be)

lemma serve_tcp_frames:
  assumes "list_all (\<lambda>m. length m < 65536) reqs" and "list_all2 (\<lambda>m r. handle m = Inr r) reqs resps"
  shows "serve_tcp handle (concat (map frame reqs) @ s) = concat (map frame resps) @ serve_tcp handle s"
  using assms(2,1)
proof (induction rule: list_all2_induct)
  case (Cons m ms r rs)
  have "serve_tcp handle (frame m @ (concat (map frame ms) @ s)) =
      frame r @ serve_tcp handle (concat (map frame ms) @ s)"
    using Cons by (subst serve_tcp.simps) (simp add: read_frame_frame)
  with Cons show ?case by simp
qed simp

subsection \<open>Forwarding lemmas\<close>

abbreviation contacts_of :: "network \<Rightarrow> bytes \<Rightarrow> bool \<Rightarrow> string list \<Rightarrow> contact list" where
  "contacts_of net req tcp servers \<equiv> concat (map (\<lambda>s. snd (try_server net req tcp s)) servers)"

lemma forward_loop_first:
  assumes "list_all (\<lambda>s. isl (fst (try_server net req tcp s))) pre"
    and "fst (try_server net req tcp s) = Inr b"
  shows "forward_loop net req tcp (pre @ s # post) e = (Inr b, contacts_of net req tcp (pre @ [s]))"
  using assms
proof (induction pre arbitrary: e)
  case Nil
  then show ?case by (cases "try_server net req tcp s") simp
next
  case (Cons x pre)
  then obtain err cs where "try_server net req tcp x = (Inl err, cs)"
    by (cases "try_server net req tcp x") (auto simp: isl_def)
  with Cons show ?case by simp
qed

lemma forward_loop_none:
  assumes "list_all (\<lambda>s. isl (fst (try_server net req tcp s))) servers"
  shows "isl (fst (forward_loop net req tcp servers e)) \<and>
         snd (forward_loop net req tcp servers e) = contacts_of net req tcp servers"
  using assms
proof (induction servers arbitrary: e)
  case (Cons x servers)
  then obtain err cs where "try_server net req tcp x = (Inl err, cs)"
    by (cases "try_server net req tcp x") (auto simp: isl_def)
  with Cons.IH [of err] Cons.prems show ?case by (simp add: case_prod_beta)
qed simp

subsection \<open>The matcher the server relies on\<close>

text \<open>
  What a \<^verbatim>\<open>RuleMatcher\<close> promises: in a configuration \<open>r\<close> in order it accepts exactly the names that
  the portal behind the proxy address serves.
\<close>

locale host_matcher =
  fixes match :: "'r \<Rightarrow> string \<Rightarrow> bool" and served :: "'r \<Rightarrow> string \<Rightarrow> bool" and ok :: "'r \<Rightarrow> bool"
  assumes match_served: "ok r \<Longrightarrow> match r h \<longleftrightarrow> served r h"
begin

text \<open>A name is answered with the proxy's address only if the portal serves it.\<close>

lemma redirect_is_served:
  assumes "ok r" and "dc_Matcher cfg = Some (match r)" and "unpack req = Inr msg"
    and "me_Questions msg = q # qs" and "\<not> served r (query_name q)" and "\<not> equal_fold (dc_DefaultAction cfg) ''Allow''"
  shows "handleQuery unpack pack net cfg req tcp =
    (pack (reply_message (authoritative_header (me_Header msg) RCodeNameError) (me_Questions msg) []), [])"
  using assms match_served [OF assms(1), of "query_name q"] by (simp add: handleQuery_def)

lemma served_is_redirected:
  assumes "ok r" and "dc_Matcher cfg = Some (match r)" and "unpack req = Inr msg"
    and "me_Questions msg = q # qs" and "served r (query_name q)"
  shows "handleQuery unpack pack net cfg req tcp =
    (pack (reply_message (authoritative_header (me_Header msg) RCodeSuccess) (me_Questions msg)
             (address_answers cfg q)), [])"
  using assms match_served [OF assms(1), of "query_name q"] by (simp add: handleQuery_def)

end

subsection \<open>Properties\<close>

text \<open>The decisions of the server about a message, as a reference.\<close>

definition dns_matched :: "DnsConfig \<Rightarrow> Message \<Rightarrow> bool" where
  "dns_matched cfg msg \<longleftrightarrow>
     (\<exists>q qs m. me_Questions msg = q # qs \<and> dc_Matcher cfg = Some m \<and> m (query_name q))"


text \<open>
  Forwarding asks the configured servers in their order and stops at the first that
  answers: its answer is the result and no later server is dialled.  Only when all fail is the
  result an error, and then all of them were tried.
\<close>

theorem forward_first_answer:
  assumes "dc_UpstreamServers cfg = pre @ s # post"
    and "list_all (\<lambda>x. isl (fst (try_server net req tcp x))) pre"
  shows "(fst (try_server net req tcp s) = Inr b \<longrightarrow>
            forward net cfg req tcp = (Inr b, contacts_of net req tcp (pre @ [s]))) \<and>
         (list_all (\<lambda>x. isl (fst (try_server net req tcp x))) (s # post) \<longrightarrow>
            isl (fst (forward net cfg req tcp)) \<and>
            snd (forward net cfg req tcp) = contacts_of net req tcp (dc_UpstreamServers cfg))"
proof (intro conjI impI)
  assume "fst (try_server net req tcp s) = Inr b"
  then show "forward net cfg req tcp = (Inr b, contacts_of net req tcp (pre @ [s]))"
    using forward_loop_first [OF assms(2)] assms(1) by (simp add: forward_def)
next
  assume "list_all (\<lambda>x. isl (fst (try_server net req tcp x))) (s # post)"
  then have "list_all (\<lambda>x. isl (fst (try_server net req tcp x))) (dc_UpstreamServers cfg)"
    using assms by simp
  from forward_loop_none [OF this]
  show "isl (fst (forward net cfg req tcp))"
    and "snd (forward net cfg req tcp) = contacts_of net req tcp (dc_UpstreamServers cfg)"
    using assms(1) by (simp_all add: forward_def)
qed

text \<open>
  Claim C20. Framing over TCP: when a client sends any number of messages on one connection, each
  with its two-byte length, and every message is handled, the server's output is the framed
  answers, one for each message, in order, and it ends there.
\<close>

theorem tcp_framing:
  assumes "list_all (\<lambda>m. length m < 65536) reqs" and "list_all2 (\<lambda>m r. handle m = Inr r) reqs resps"
  shows "serve_tcp handle (concat (map frame reqs)) = concat (map frame resps)"
proof -
  have "serve_tcp handle [] = []" by (subst serve_tcp.simps) (simp add: read_frame_def)
  with serve_tcp_frames [OF assms, of "[]"] show ?thesis by simp
qed

text \<open>
  Claim C21. Starting and stopping leaks no socket: after any sequence of starts, failing at either
  listen call or not, and shutdowns, the server has exactly its UDP and its TCP socket open if it
  is started and none otherwise.
\<close>

theorem dns_no_socket_leak:
  "sockets_match (fold server_apply ops stopped_server)"
  by (rule sockets_match_run) (simp add: sockets_match_def stopped_server_def)

subsection \<open>Witnesses\<close>

definition sample_query :: Message where
  "sample_query =
     \<lparr>me_Header = \<lparr>dh_ID = 7, dh_Response = False, dh_OpCode = 0, dh_Authoritative = False, dh_Truncated = False,
                    dh_RecursionDesired = True, dh_RecursionAvailable = False, dh_RCode = 0\<rparr>,
      me_Questions = [\<lparr>qu_Name = ''x.'', qu_Type = TypeA, qu_Class = ClassINET\<rparr>],
      me_Answers = [], me_Authorities = [], me_Additionals = []\<rparr>"

definition sample_dns :: DnsConfig where
  "sample_dns =
     \<lparr>dc_BindAddr = [], dc_ProxyIPv4 = Some [127, 0, 0, 2], dc_ProxyIPv6 = None,
      dc_Matcher = Some (\<lambda>h. h = ''y''), dc_DefaultAction = ''Deny'', dc_UpstreamServers = [''10.0.0.1'', ''10.0.0.2''],
      dc_ForwardTimeout = 0, dc_TTL = 60\<rparr>"

definition sample_net :: network where
  "sample_net = \<lparr>nw_tcp = (\<lambda>_ _. Inl ''refused''),
     nw_udp = (\<lambda>target _. if has_prefix target ''10.0.0.1'' then Inl ''refused''
                          else Inr \<lparr>uc_write = None, uc_deadline = None, uc_reply = Inr [1, 2, 0, 0]\<rparr>)\<rparr>"


lemma sample_try:
  "try_server sample_net [] False ''10.0.0.1'' = (Inl ''refused'', [DialUDP ''10.0.0.1:53''])"
  "try_server sample_net [] False ''10.0.0.2'' = (Inr [1, 2, 0, 0], [DialUDP ''10.0.0.2:53''])"
proof -
  have t: "dial_target ''10.0.0.1'' = ''10.0.0.1:53''" "dial_target ''10.0.0.2'' = ''10.0.0.2:53''" by code_simp+
  show "try_server sample_net [] False ''10.0.0.1'' = (Inl ''refused'', [DialUDP ''10.0.0.1:53''])"
    by (simp add: try_server_def t udp_exchange_def sample_net_def has_prefix_def)
  show "try_server sample_net [] False ''10.0.0.2'' = (Inr [1, 2, 0, 0], [DialUDP ''10.0.0.2:53''])"
    by (simp add: try_server_def t udp_exchange_def sample_net_def has_prefix_def is_truncated_def)
qed

theorem forward_first_answer_witness:
  "forward sample_net sample_dns [] False = (Inr [1, 2, 0, 0], [DialUDP ''10.0.0.1:53'', DialUDP ''10.0.0.2:53''])"
  using forward_first_answer [of sample_dns "[''10.0.0.1'']" "''10.0.0.2''" "[]" sample_net "[]" False "[1, 2, 0, 0]"]
  by (simp add: sample_try) (simp add: sample_dns_def)

theorem tcp_framing_witness:
  "serve_tcp (\<lambda>m. Inr (rev m)) (frame [1, 2] @ frame [3]) = frame [2, 1] @ frame [3]"
  using tcp_framing [of "[[1, 2], [3]]" "\<lambda>m. Inr (rev m)" "[[2, 1], [3]]"] by simp

end
