(* ===== verification/Portal_Run.thy ===== *)
theory Portal_Run
  imports Rule_Router Dns_Server
begin

text \<open>
  pkg/portals/server.go: how a portal is put together from its configuration and environment.
  \<^verbatim>\<open>Run\<close> is modelled up to the point where it starts serving: the result is the first error it
  returns or a plan, that is, the admin listener, the request handler, the DNS servers and the
  addresses of the HTTP and HTTPS servers.  The environment is a function from names to values
  (empty when unset).  File-system and listen failures, \<^verbatim>\<open>url.Parse\<close>, \<^verbatim>\<open>time.ParseDuration\<close>, the CA
  key pair and the discovered node address are parameters.
\<close>

subsection \<open>The admin address\<close>

datatype AdminAddrError = NotHostPort string | AllInterfaces string | InvalidHost string string | NotLoopback string string

definition validateAdminAddr :: "string \<Rightarrow> AdminAddrError option" where
  "validateAdminAddr addr =
     (if has_prefix addr ''unix:'' \<or> has_prefix addr ''/'' then None
      else case split_host_port addr of
        None \<Rightarrow> Some (NotHostPort addr)
      | Some (host, _) \<Rightarrow>
          if host = [] then Some (AllInterfaces addr)
          else if equal_fold host ''localhost'' then None
          else case parse_ip host of
                 None \<Rightarrow> Some (InvalidHost addr host)
               | Some ip \<Rightarrow> if \<not> is_loopback ip then Some (NotLoopback addr (ip_string ip)) else None)"

subsection \<open>Configuration\<close>

record RunConfig =
  rc_DefaultTargetURL :: string
  rc_DefaultAuthHeader :: string
  rc_CacheTTL :: int
  rc_RulesDir :: string
  rc_PodMap :: "PodMap option"
  rc_ServeDNS :: bool
  rc_DNSBindAddr :: string
  rc_ProxyDNSPort :: string
  rc_ProxyBindAddrV6 :: string
  rc_DefaultAction :: string

text \<open>Failures of the calls that set up the admin socket, and what the node offers.\<close>

record RunIO =
  ri_mkdir :: "string option"
  ri_listen :: "string option"
  ri_chmod :: "string option"
  ri_nodeIPv6 :: string
  ri_load :: load_env
  ri_entries :: "dir_entry list"
  ri_dnsStart :: "string \<Rightarrow> string option"

datatype RunError =
    InvalidTargetURL string
  | CreateProxyFailed string
  | InvalidCacheTTLEnv string string
  | InvalidCleanupInterval string string
  | SecurityViolation AdminAddrError
  | AdminDirFailed string
  | AdminListenFailed string string
  | AdminChmodFailed string string
  | LoadFailed "load_error list"
  | DnsStartFailed string string

definition first_nonempty :: "string list \<Rightarrow> string" where
  "first_nonempty xs = (case filter (\<lambda>x. x \<noteq> []) xs of [] \<Rightarrow> [] | x # _ \<Rightarrow> x)"

definition run_rulesDir :: "RunConfig \<Rightarrow> (string \<Rightarrow> string) \<Rightarrow> string" where
  "run_rulesDir cfg env = (if rc_RulesDir cfg = [] then env ''RULES_DIR'' else rc_RulesDir cfg)"

definition run_target :: "RunConfig \<Rightarrow> (string \<Rightarrow> string) \<Rightarrow> string" where
  "run_target cfg env =
     (let target = env ''TARGET_URL'' in
      if target = [] \<and> run_rulesDir cfg env = []
      then if rc_DefaultTargetURL cfg = [] then ''https://generativelanguage.googleapis.com''
           else rc_DefaultTargetURL cfg
      else target)"

definition run_auth_header :: "RunConfig \<Rightarrow> (string \<Rightarrow> string) \<Rightarrow> string" where
  "run_auth_header cfg env =
     (let h = env ''UPSTREAM_AUTH_HEADER'' in
      if h = [] then if rc_DefaultAuthHeader cfg \<noteq> [] then rc_DefaultAuthHeader cfg else ''Authorization''
      else h)"

definition run_cache_ttl :: "RunIO \<Rightarrow> RunConfig \<Rightarrow> (string \<Rightarrow> string) \<Rightarrow> RunError + int" where
  "run_cache_ttl io cfg env =
     (let t = env ''CACHE_TTL'' in
      if t = [] then Inr (rc_CacheTTL cfg)
      else case le_duration (ri_load io) t of
             Inl e \<Rightarrow> Inl (InvalidCacheTTLEnv t e)
           | Inr d \<Rightarrow> Inr d)"

definition run_cleanup_interval :: "RunIO \<Rightarrow> (string \<Rightarrow> string) \<Rightarrow> int \<Rightarrow> RunError option" where
  "run_cleanup_interval io env ttl =
     (let t = env ''CACHE_CLEANUP_INTERVAL'' in
      if ttl > 0 \<and> t \<noteq> []
      then (case le_duration (ri_load io) t of Inl e \<Rightarrow> Some (InvalidCleanupInterval t e) | Inr _ \<Rightarrow> None)
      else None)"

text \<open>The default proxy, before its transport is wrapped.\<close>

definition run_fallback :: "RunIO \<Rightarrow> RunConfig \<Rightarrow> (string \<Rightarrow> string) \<Rightarrow> RunError + HTTPProxy option" where
  "run_fallback io cfg env =
     (let target = run_target cfg env in
      if target = [] then Inr None
      else case le_url (ri_load io) target of
        Inl e \<Rightarrow> Inl (InvalidTargetURL e)
      | Inr u \<Rightarrow>
          (case le_ca (ri_load io) of
             Some e \<Rightarrow> Inl (CreateProxyFailed e)
           | None \<Rightarrow> Inr (Some \<lparr>hp_target = u, hp_token = env ''UPSTREAM_AUTH_TOKEN'',
                                 hp_authheader = run_auth_header cfg env\<rparr>)))"

definition run_podMap :: "RunConfig \<Rightarrow> (string \<Rightarrow> string) \<Rightarrow> PodMap option" where
  "run_podMap cfg env =
     (case rc_PodMap cfg of
        Some pm \<Rightarrow> Some pm
      | None \<Rightarrow> if env ''ENABLE_POD_MAP'' = ''true'' then Some NewPodMap else None)"

subsection \<open>The admin listener\<close>

text \<open>A Unix socket with the mode the code sets (0600), or a TCP address.\<close>

datatype admin_listener = AdminUnix string nat | AdminTCP string

definition DefaultAdminSocketPath :: string where
  "DefaultAdminSocketPath = ''/run/service-portal/portal.sock''"

definition admin_addr :: "(string \<Rightarrow> string) \<Rightarrow> string" where
  "admin_addr env = (let a = env ''ADMIN_ADDR'' in if a = [] then DefaultAdminSocketPath else a)"

definition start_admin :: "RunIO \<Rightarrow> string \<Rightarrow> RunError + admin_listener" where
  "start_admin io adminAddr =
     (case validateAdminAddr adminAddr of
        Some e \<Rightarrow> Inl (SecurityViolation e)
      | None \<Rightarrow>
          if has_prefix adminAddr ''unix://'' \<or> has_prefix adminAddr ''/'' then
            (let path = trim_prefix adminAddr ''unix://'' in
             case ri_mkdir io of
               Some e \<Rightarrow> Inl (AdminDirFailed e)
             | None \<Rightarrow>
                 (case ri_listen io of
                    Some e \<Rightarrow> Inl (AdminListenFailed path e)
                  | None \<Rightarrow>
                      (case ri_chmod io of
                         Some e \<Rightarrow> Inl (AdminChmodFailed path e)
                       | None \<Rightarrow> Inr (AdminUnix path 384))))
          else Inr (AdminTCP adminAddr))"

subsection \<open>The handler\<close>

datatype handler = RouterHandler RuleRouter | ProxyHandler HTTPProxy int | NilHandler

definition as_fallback :: "HTTPProxy option \<Rightarrow> int \<Rightarrow> fallback" where
  "as_fallback fb ttl = (case fb of None \<Rightarrow> NoFallback | Some p \<Rightarrow> FallbackProxy p ttl)"

definition run_handler ::
  "RunIO \<Rightarrow> string \<Rightarrow> HTTPProxy option \<Rightarrow> int \<Rightarrow> PodMap option \<Rightarrow> RunError + handler" where
  "run_handler io rulesDir fb ttl pm =
     (if rulesDir \<noteq> [] then
        (let rr0 = NewRuleRouter rulesDir (as_fallback fb ttl);
             rr1 = (case pm of Some m \<Rightarrow> SetPodMap m rr0 | None \<Rightarrow> rr0)
         in case loadRules (ri_load io) (ri_entries io) rr1 of
              ([], rr) \<Rightarrow> Inr (RouterHandler rr)
            | (errs, _) \<Rightarrow> Inl (LoadFailed errs))
      else Inr (case fb of Some p \<Rightarrow> ProxyHandler p ttl | None \<Rightarrow> NilHandler))"

definition serve_handler ::
  "'w proxy_env \<Rightarrow> string list \<Rightarrow> handler \<Rightarrow> Request \<Rightarrow> ResponseWriter \<times> (InMemoryCache \<times> 'w) \<Rightarrow>
   (ResponseWriter \<times> (InMemoryCache \<times> 'w)) option" where
  "serve_handler env ord h r s =
     (case h of
        RouterHandler rr \<Rightarrow> Some (Router_ServeHTTP env ord rr r s)
      | ProxyHandler p ttl \<Rightarrow> Some (serve_proxy env p ttl r s)
      | NilHandler \<Rightarrow> None)"

subsection \<open>DNS\<close>

definition run_serveDNS :: "RunConfig \<Rightarrow> (string \<Rightarrow> string) \<Rightarrow> bool" where
  "run_serveDNS cfg env =
     (let e = env ''SERVE_DNS'' in if e \<noteq> [] then e = ''true'' \<or> e = ''1'' else rc_ServeDNS cfg)"

definition run_bindHost :: "(string \<Rightarrow> string) \<Rightarrow> string" where
  "run_bindHost env = (if env ''PROXY_HOST'' = [] then env ''BIND_HOST'' else env ''PROXY_HOST'')"

definition parse_ip_str :: "string \<Rightarrow> bytes option" where
  "parse_ip_str s = (if s \<noteq> [] then parse_ip s else None)"

definition run_proxyIPv4 :: "(string \<Rightarrow> string) \<Rightarrow> bytes option" where
  "run_proxyIPv4 env =
     (let b = run_bindHost env
      in parse_ip_str (if b = [] \<or> b = ''0.0.0.0'' then env ''PROXY_HOST'' else b))"

definition run_proxyIPv6 :: "RunIO \<Rightarrow> RunConfig \<Rightarrow> (string \<Rightarrow> string) \<Rightarrow> bytes option" where
  "run_proxyIPv6 io cfg env =
     parse_ip_str (first_nonempty [rc_ProxyBindAddrV6 cfg, env ''PROXY_HOST_V6'', ri_nodeIPv6 io])"

definition run_dnsPort :: "RunConfig \<Rightarrow> (string \<Rightarrow> string) \<Rightarrow> string" where
  "run_dnsPort cfg env = first_nonempty [rc_ProxyDNSPort cfg, env ''DNS_PORT'', ''53'']"

definition run_defaultAction :: "RunConfig \<Rightarrow> (string \<Rightarrow> string) \<Rightarrow> string" where
  "run_defaultAction cfg env = first_nonempty [rc_DefaultAction cfg, env ''DEFAULT_ACTION'', ''Deny'']"

text \<open>The matcher of the handler; \<open>ord\<close> is the iteration order of its routes.\<close>

definition run_matcher :: "string list \<Rightarrow> handler \<Rightarrow> (string \<Rightarrow> bool) option" where
  "run_matcher ord h =
     (case h of
        RouterHandler rr \<Rightarrow> Some (MatchHost ord rr)
      | ProxyHandler p ttl \<Rightarrow> Some (fallback_matches p)
      | NilHandler \<Rightarrow> None)"

definition run_bindAddrs :: "RunIO \<Rightarrow> RunConfig \<Rightarrow> (string \<Rightarrow> string) \<Rightarrow> string list" where
  "run_bindAddrs io cfg env =
     (if rc_DNSBindAddr cfg \<noteq> [] then split_on (rc_DNSBindAddr cfg) '',''
      else if env ''DNS_BIND_ADDR'' \<noteq> [] then split_on (env ''DNS_BIND_ADDR'') '',''
      else let port = run_dnsPort cfg env;
               a4 = (case run_proxyIPv4 env of Some ip \<Rightarrow> [join_host_port (ip_string ip) port] | None \<Rightarrow> []);
               a6 = (case run_proxyIPv6 io cfg env of Some ip \<Rightarrow> [join_host_port (ip_string ip) port] | None \<Rightarrow> [])
           in if a4 @ a6 = [] then ['':'' @ port] else a4 @ a6)"

definition dns_config :: "RunIO \<Rightarrow> RunConfig \<Rightarrow> (string \<Rightarrow> string) \<Rightarrow> (string \<Rightarrow> bool) option \<Rightarrow> string \<Rightarrow> DnsConfig" where
  "dns_config io cfg env matcher addr =
     NewServer \<lparr>dc_BindAddr = addr, dc_ProxyIPv4 = run_proxyIPv4 env, dc_ProxyIPv6 = run_proxyIPv6 io cfg env,
       dc_Matcher = matcher, dc_DefaultAction = run_defaultAction cfg env, dc_UpstreamServers = [],
       dc_ForwardTimeout = 0, dc_TTL = 0\<rparr>"

fun start_dns :: "RunIO \<Rightarrow> (string \<Rightarrow> DnsConfig) \<Rightarrow> string list \<Rightarrow> DnsConfig list \<Rightarrow> RunError + DnsConfig list" where
  "start_dns io mk [] acc = Inr acc"
| "start_dns io mk (a # as) acc =
     (let addr = trim_space a in
      if addr = [] then start_dns io mk as acc
      else case ri_dnsStart io addr of
             Some e \<Rightarrow> Inl (DnsStartFailed addr e)
           | None \<Rightarrow> start_dns io mk as (acc @ [mk addr]))"

subsection \<open>Run\<close>

record Plan =
  pl_podMap :: "PodMap option"
  pl_admin :: "admin_listener option"
  pl_handler :: handler
  pl_dns :: "DnsConfig list"
  pl_http :: string
  pl_https :: string

definition run_admin :: "RunIO \<Rightarrow> (string \<Rightarrow> string) \<Rightarrow> PodMap option \<Rightarrow> RunError + admin_listener option" where
  "run_admin io env pm =
     (case pm of None \<Rightarrow> Inr None | Some _ \<Rightarrow> and_then (start_admin io (admin_addr env)) (\<lambda>a. Inr (Some a)))"

definition run_dns :: "RunIO \<Rightarrow> string list \<Rightarrow> RunConfig \<Rightarrow> (string \<Rightarrow> string) \<Rightarrow> handler \<Rightarrow> RunError + DnsConfig list" where
  "run_dns io ord cfg env h =
     (if run_serveDNS cfg env
      then start_dns io (dns_config io cfg env (run_matcher ord h)) (run_bindAddrs io cfg env) []
      else Inr [])"

definition Run :: "RunIO \<Rightarrow> string list \<Rightarrow> RunConfig \<Rightarrow> (string \<Rightarrow> string) \<Rightarrow> RunError + Plan" where
  "Run io ord cfg env =
     and_then (run_fallback io cfg env) (\<lambda>fb.
     and_then (run_cache_ttl io cfg env) (\<lambda>ttl.
     and_then (fail_if (run_cleanup_interval io env ttl)) (\<lambda>_.
     and_then (run_admin io env (run_podMap cfg env)) (\<lambda>adm.
     and_then (run_handler io (run_rulesDir cfg env) fb ttl (run_podMap cfg env)) (\<lambda>h.
     and_then (run_dns io ord cfg env h) (\<lambda>dns.
     Inr \<lparr>pl_podMap = run_podMap cfg env, pl_admin = adm, pl_handler = h, pl_dns = dns,
          pl_http = join_host_port (run_bindHost env) (first_nonempty [env ''PORT'', ''8080'']),
          pl_https = join_host_port (run_bindHost env) (first_nonempty [env ''HTTPS_PORT'', ''8443''])\<rparr>))))))"

subsection \<open>The router is the matcher of the DNS server\<close>

definition router_in_order :: "string list \<times> RuleRouter \<Rightarrow> bool" where
  "router_in_order r \<longleftrightarrow>
     iterates (fst r) (rr_routes (snd r)) \<and> (\<forall>rHost\<in>dom (rr_routes (snd r)). \<not> has_suffix rHost ''.'')"

definition router_serves :: "string list \<times> RuleRouter \<Rightarrow> string \<Rightarrow> bool" where
  "router_serves r host \<longleftrightarrow>
     find_rule (fst r) (rr_routes (snd r)) (to_lower (HostWithoutPort host)) \<noteq> None \<or>
     (\<exists>p ttl. rr_fallback (snd r) = FallbackProxy p ttl \<and>
        fallback_matches p (trim_suffix (to_lower (HostWithoutPort host)) ''.''))"

interpretation router: host_matcher "\<lambda>r. MatchHost (fst r) (snd r)" router_serves router_in_order
  by unfold_locales (auto simp: router_in_order_def router_serves_def MatchHost_served)

subsection \<open>Lemmas on Run\<close>

lemma Run_cases:
  assumes "Run io ord cfg env = Inr plan"
  obtains fb ttl where "run_fallback io cfg env = Inr fb" and "run_cache_ttl io cfg env = Inr ttl"
    and "run_admin io env (run_podMap cfg env) = Inr (pl_admin plan)"
    and "run_handler io (run_rulesDir cfg env) fb ttl (run_podMap cfg env) = Inr (pl_handler plan)"
    and "run_dns io ord cfg env (pl_handler plan) = Inr (pl_dns plan)"
    and "pl_podMap plan = run_podMap cfg env"
  using assms unfolding Run_def and_then_Inr by fastforce

lemma run_admin_Some:
  "run_admin io env pm = Inr (Some a) \<Longrightarrow> start_admin io (admin_addr env) = Inr a"
  "run_admin io env pm = Inr None \<Longrightarrow> pm = None"
  by (auto simp: run_admin_def and_then_Inr split: option.splits)

lemma run_target_nonempty: "run_rulesDir cfg env = [] \<Longrightarrow> run_target cfg env \<noteq> []"
  by (simp add: run_target_def Let_def)

lemma run_fallback_Some:
  "run_fallback io cfg env = Inr fb \<Longrightarrow> run_target cfg env \<noteq> [] \<Longrightarrow> \<exists>p. fb = Some p"
  by (auto simp: run_fallback_def Let_def split: sum.splits option.splits)

lemma start_dns_config:
  "start_dns io mk as acc = Inr cs \<Longrightarrow> c \<in> set cs \<Longrightarrow> c \<in> set acc \<or> (\<exists>a. c = mk a)"
  by (induction as arbitrary: acc) (fastforce simp: Let_def split: if_splits option.splits)+

lemma loadRules_podMap: "rr_podMap (snd (loadRules env es rr)) = rr_podMap rr"
  by (auto simp: loadRules_def split: sum.splits prod.splits)

lemma validateAdminAddr_ok:
  assumes "validateAdminAddr a = None" and "\<not> has_prefix a ''unix:''" and "\<not> has_prefix a ''/''"
  shows "\<exists>host port. split_host_port a = Some (host, port) \<and>
           (equal_fold host ''localhost'' \<or> (\<exists>ip. parse_ip host = Some ip \<and> is_loopback ip))"
  using assms by (auto simp: validateAdminAddr_def split: option.splits prod.splits if_splits)

lemma run_handler_router:
  assumes "run_handler io rulesDir fb ttl pm = Inr h" and "rulesDir \<noteq> []"
  shows "\<exists>rr. h = RouterHandler rr \<and> rr_podMap rr = pm"
proof -
  let ?rr1 = "case pm of Some m \<Rightarrow> SetPodMap m (NewRuleRouter rulesDir (as_fallback fb ttl))
     | None \<Rightarrow> NewRuleRouter rulesDir (as_fallback fb ttl)"
  obtain errs rr where l: "loadRules (ri_load io) (ri_entries io) ?rr1 = (errs, rr)" by fastforce
  have "rr_podMap ?rr1 = pm" by (simp add: SetPodMap_def NewRuleRouter_def split: option.splits)
  then have pm: "rr_podMap rr = pm"
    using loadRules_podMap [of "ri_load io" "ri_entries io" ?rr1] l by simp
  have "h = RouterHandler rr"
    using assms l by (cases errs) (simp_all add: run_handler_def Let_def)
  with pm show ?thesis by blast
qed

lemma run_handler_proxy: "run_handler io [] (Some p) ttl pm = Inr h \<Longrightarrow> h = ProxyHandler p ttl"
  by (simp add: run_handler_def)

lemma dns_config_forward:
  "forward net (dns_config io cfg env m a) req tcp = (Inl ''no upstream DNS servers configured'', [])"
  by (simp add: forward_def dns_config_def NewServer_def)

subsection \<open>Properties\<close>

text \<open>
  Startup with a rules directory enforces the pod table: if a portal starts with rules
  and with a pod table, its handler is the router and consults that table, so that a request
  from an address without a bound pod is answered with 403 and nothing is sent.  There is an
  admin listener exactly when there is a pod table.
\<close>

theorem run_enforces_pod_table:
  assumes "Run io ord cfg env = Inr plan" and "run_rulesDir cfg env \<noteq> []" and "pl_podMap plan = Some pm"
    and "rw_status w = None"
    and "\<nexists>pod. caller pm (HostWithoutPort (rq_remote r)) = Some pod \<and> pi_Bound pod"
  shows "pl_admin plan \<noteq> None \<and>
    (\<exists>w'. serve_handler penv ord (pl_handler plan) r (w, cw) = Some (w', cw) \<and> rw_status w' = Some 403)"
  using assms(1)
proof (cases rule: Run_cases)
  case (1 fb ttl)
  have pm: "run_podMap cfg env = Some pm" using 1 assms(3) by simp
  then obtain rr where rr: "pl_handler plan = RouterHandler rr" "rr_podMap rr = Some pm"
    using run_handler_router [OF 1(4) assms(2)] by auto
  have "\<not> admitted rr (HostWithoutPort (rq_remote r)) n h" for n h
    using rr(2) assms(5) by (auto simp: admitted_def)
  then obtain msg where "Router_ServeHTTP penv ord rr r (w, cw) = (http_error msg 403 w, cw)"
    using Router_denies [of ord rr r penv "(w, cw)"] by auto
  moreover have "pl_admin plan \<noteq> None"
    using run_admin_Some(2) [of io env "run_podMap cfg env"] 1(3) pm by auto
  ultimately show ?thesis using rr(1) assms(4) by (simp add: serve_handler_def)
qed

text \<open>
  Startup without a rules directory does not enforce the pod table, even if it is
  enabled: the handler is then the bare proxy, and a request from any address, whether or not the
  table knows it, is sent upstream with the configured credential (shown for a portal without
  cache, where every request that is not CONNECT is sent).
\<close>

theorem run_without_rules_ignores_pod_table:
  assumes "Run io ord cfg env = Inr plan" and "run_rulesDir cfg env = []" and "pl_podMap plan = Some pm"
    and "run_cache_ttl io cfg env = Inr ttl" and "ttl \<le> 0" and "rq_method r \<noteq> ''CONNECT''"
  shows "\<exists>p w' c'. pl_handler plan = ProxyHandler p ttl \<and>
    serve_handler penv ord (pl_handler plan) r (w, (c, world)) =
      Some (w', (c', snd (pe_rt penv (outgoing p r) world))) \<and>
    hp_token p = env ''UPSTREAM_AUTH_TOKEN''"
  using assms(1)
proof (cases rule: Run_cases)
  case (1 fb ttl')
  then have "ttl' = ttl" using assms(4) by simp
  obtain p where p: "fb = Some p"
    using run_fallback_Some [OF 1(1) run_target_nonempty [OF assms(2)]] by blast
  then have h: "pl_handler plan = ProxyHandler p ttl"
    using run_handler_proxy 1(4) assms(2) \<open>ttl' = ttl\<close> by simp
  have tok: "hp_token p = env ''UPSTREAM_AUTH_TOKEN''"
    using 1(1) p by (auto simp: run_fallback_def Let_def split: if_splits sum.splits option.splits)
  have "\<exists>w' c'. serve_proxy penv p ttl r (w, (c, world)) = (w', (c', snd (pe_rt penv (outgoing p r) world)))"
    using assms(5,6)
    by (auto simp: serve_proxy_def ServeHTTP_def proxyRequest_def rule_transport_def Let_def
        split: prod.splits sum.splits)
  then show ?thesis using h tok by (auto simp: serve_handler_def)
qed

text \<open>
  Claim C23. The admin API is private: it listens on a Unix socket of mode 0600, or on a TCP
  address whose host is localhost or a loopback IP; the exception is an address that begins with
  \<open>unix:\<close> without two slashes, which passes the check as a socket path but is then used as a TCP
  address.
\<close>

theorem admin_listener_private:
  assumes "Run io ord cfg env = Inr plan" and "pl_admin plan = Some l"
  shows "(\<exists>path. l = AdminUnix path 384) \<or>
    (\<exists>a. l = AdminTCP a \<and>
       ((\<exists>host port. split_host_port a = Some (host, port) \<and>
           (equal_fold host ''localhost'' \<or> (\<exists>ip. parse_ip host = Some ip \<and> is_loopback ip))) \<or>
        (has_prefix a ''unix:'' \<and> \<not> has_prefix a ''unix://'')))"
  using assms(1)
proof (cases rule: Run_cases)
  case (1 fb ttl)
  then have s: "start_admin io (admin_addr env) = Inr l" using run_admin_Some(1) assms(2) by metis
  let ?a = "admin_addr env"
  show ?thesis
  proof (cases "has_prefix ?a ''unix://'' \<or> has_prefix ?a ''/''")
    case True
    then show ?thesis using s by (auto simp: start_admin_def Let_def split: option.splits)
  next
    case False
    then have l: "l = AdminTCP ?a" and ok: "validateAdminAddr ?a = None"
      using s by (auto simp: start_admin_def split: option.splits if_splits)
    show ?thesis using validateAdminAddr_ok [OF ok] l False by blast
  qed
qed

text \<open>
  The DNS servers a portal starts have no upstream resolver: with the default action
  Allow, a query for a name without a rule is answered with SERVFAIL and is never forwarded.
\<close>

theorem run_dns_allow_fails:
  assumes "Run io ord cfg env = Inr plan" and "c \<in> set (pl_dns plan)"
    and "equal_fold (dc_DefaultAction c) ''Allow''" and "unpack req = Inr msg"
    and "me_Questions msg \<noteq> []" and "\<not> dns_matched c msg"
  shows "handleQuery unpack pack net c req tcp =
    (pack (reply_message (reply_header (dh_ID (me_Header msg)) RCodeServerFailure) (me_Questions msg) []), [])"
  using assms(1)
proof (cases rule: Run_cases)
  case (1 fb ttl)
  from 1(5) assms(2) obtain m a where c: "c = dns_config io cfg env m a"
    by (auto simp: run_dns_def dest!: start_dns_config split: if_splits)
  obtain q qs where q: "me_Questions msg = q # qs" using assms(5) by (cases "me_Questions msg") auto
  have "\<not> (case dc_Matcher c of Some m \<Rightarrow> m (query_name q) | None \<Rightarrow> False)"
    using assms(6) q by (auto simp: dns_matched_def split: option.splits)
  then show ?thesis
    using assms(3,4) q dns_config_forward [of net io cfg env m a req tcp] c by (simp add: handleQuery_def)
qed

subsection \<open>Witnesses\<close>

definition sample_io :: RunIO where
  "sample_io = \<lparr>ri_mkdir = None, ri_listen = None, ri_chmod = None, ri_nodeIPv6 = [],
     ri_load = sample_load, ri_entries = [], ri_dnsStart = (\<lambda>_. None)\<rparr>"

definition sample_cfg :: RunConfig where
  "sample_cfg = \<lparr>rc_DefaultTargetURL = [], rc_DefaultAuthHeader = [], rc_CacheTTL = 0, rc_RulesDir = [],
     rc_PodMap = None, rc_ServeDNS = True, rc_DNSBindAddr = ''127.0.0.2:53'', rc_ProxyDNSPort = [],
     rc_ProxyBindAddrV6 = [], rc_DefaultAction = ''Allow''\<rparr>"

definition sample_env :: "string \<Rightarrow> string \<Rightarrow> string" where
  "sample_env rules k =
     (if k = ''ENABLE_POD_MAP'' then ''true'' else if k = ''RULES_DIR'' then rules
      else if k = ''UPSTREAM_AUTH_TOKEN'' then ''tok'' else if k = ''ADMIN_ADDR'' then ''127.0.0.1:9000'' else [])"

lemma sample_admin: "start_admin sample_io ''127.0.0.1:9000'' = Inr (AdminTCP ''127.0.0.1:9000'')"
proof -
  have "validateAdminAddr ''127.0.0.1:9000'' = None" by code_simp
  then show ?thesis by (simp add: start_admin_def has_prefix_def)
qed

lemma sample_run:
  "\<exists>plan. Run sample_io ord sample_cfg (sample_env rules) = Inr plan \<and> pl_podMap plan = Some NewPodMap \<and>
     pl_admin plan = Some (AdminTCP ''127.0.0.1:9000'') \<and>
     pl_dns plan = [dns_config sample_io sample_cfg (sample_env rules) (run_matcher ord (pl_handler plan)) ''127.0.0.2:53'']"
proof -
  let ?e = "sample_env rules"
  have fb: "\<exists>fb. run_fallback sample_io sample_cfg ?e = Inr fb"
    by (simp add: run_fallback_def Let_def sample_io_def sample_load_def)
  have ttl: "run_cache_ttl sample_io sample_cfg ?e = Inr 0" "run_cleanup_interval sample_io ?e 0 = None"
    by (simp_all add: run_cache_ttl_def run_cleanup_interval_def sample_env_def sample_cfg_def)
  have pm: "run_podMap sample_cfg ?e = Some NewPodMap"
    by (simp add: run_podMap_def sample_cfg_def sample_env_def)
  have adm: "run_admin sample_io ?e (Some NewPodMap) = Inr (Some (AdminTCP ''127.0.0.1:9000''))"
    by (simp add: run_admin_def admin_addr_def sample_env_def sample_admin)
  have h: "\<exists>h. run_handler sample_io (run_rulesDir sample_cfg ?e) fb 0 (Some NewPodMap) = Inr h" for fb
    by (simp add: run_handler_def loadRules_def sample_io_def Let_def SetPodMap_def NewRuleRouter_def)
  have split: "split_on ''127.0.0.2:53'' '','' = [''127.0.0.2:53'']" "trim_space ''127.0.0.2:53'' = ''127.0.0.2:53''"
    by code_simp+
  have dns: "run_dns sample_io ord sample_cfg ?e h =
      Inr [dns_config sample_io sample_cfg ?e (run_matcher ord h) ''127.0.0.2:53'']" for h
  proof -
    have "run_serveDNS sample_cfg ?e" by (simp add: run_serveDNS_def sample_env_def sample_cfg_def)
    moreover have "run_bindAddrs sample_io sample_cfg ?e = [''127.0.0.2:53'']"
      unfolding run_bindAddrs_def using split by (simp add: sample_cfg_def)
    ultimately show ?thesis using split(2) by (simp add: run_dns_def) (simp add: sample_io_def)
  qed
  obtain fb' where fb': "run_fallback sample_io sample_cfg ?e = Inr fb'" using fb by blast
  obtain h' where h': "run_handler sample_io (run_rulesDir sample_cfg ?e) fb' 0 (Some NewPodMap) = Inr h'"
    using h by blast
  show ?thesis by (simp add: Run_def fail_if_def fb' h' ttl pm adm dns)
qed

theorem run_enforces_pod_table_witness:
  "\<exists>plan w'. Run sample_io [] sample_cfg (sample_env ''/rules'') = Inr plan \<and>
     serve_handler log_env [] (pl_handler plan) (get_request ''github.com'' ''10.0.0.5:4000'')
       (new_writer None, (NewInMemoryCache, [])) = Some (w', (NewInMemoryCache, [])) \<and> rw_status w' = Some 403"
proof -
  obtain plan where p: "Run sample_io [] sample_cfg (sample_env ''/rules'') = Inr plan" "pl_podMap plan = Some NewPodMap"
    using sample_run [of "[]" "''/rules''"] by blast
  have r: "run_rulesDir sample_cfg (sample_env ''/rules'') \<noteq> []"
    by (simp add: run_rulesDir_def sample_cfg_def sample_env_def)
  have n: "\<nexists>pod. caller NewPodMap ip = Some pod \<and> pi_Bound pod" for ip
    by (simp add: caller_def GetPodByIP_def NewPodMap_def)
  from run_enforces_pod_table [OF p(1) r p(2), of "new_writer None" "get_request ''github.com'' ''10.0.0.5:4000''"
      log_env "(NewInMemoryCache, [])"] n p(1)
  show ?thesis by (auto simp: new_writer_def)
qed

theorem run_without_rules_ignores_pod_table_witness:
  "\<exists>plan p w' c'. Run sample_io [] sample_cfg (sample_env []) = Inr plan \<and> pl_podMap plan = Some NewPodMap \<and>
     serve_handler log_env [] (pl_handler plan) (get_request ''github.com'' ''10.0.0.5:4000'')
       (new_writer None, (NewInMemoryCache, [])) =
     Some (w', (c', [outgoing p (get_request ''github.com'' ''10.0.0.5:4000'')])) \<and> hp_token p = ''tok''"
proof -
  let ?r = "get_request ''github.com'' ''10.0.0.5:4000''"
  obtain plan where p: "Run sample_io [] sample_cfg (sample_env []) = Inr plan" "pl_podMap plan = Some NewPodMap"
    using sample_run [of "[]" "[]"] by blast
  have r: "run_rulesDir sample_cfg (sample_env []) = []"
    by (simp add: run_rulesDir_def sample_cfg_def sample_env_def)
  have ttl: "run_cache_ttl sample_io sample_cfg (sample_env []) = Inr 0"
    by (simp add: run_cache_ttl_def sample_env_def sample_cfg_def)
  have m: "rq_method ?r \<noteq> ''CONNECT''" by (simp add: get_request_def)
  have rt: "snd (pe_rt log_env q []) = [q]" for q by (simp add: log_env_def)
  have tok: "sample_env [] ''UPSTREAM_AUTH_TOKEN'' = ''tok''" by (simp add: sample_env_def)
  from run_without_rules_ignores_pod_table [OF p(1) r p(2) ttl _ m, of log_env "new_writer None" NewInMemoryCache "[]"]
  obtain q w' c' where q: "serve_handler log_env [] (pl_handler plan) ?r (new_writer None, (NewInMemoryCache, [])) =
      Some (w', (c', [outgoing q ?r]))" "hp_token q = ''tok''"
    by (auto simp: rt tok)
  show ?thesis
    by (intro exI [of _ plan] exI [of _ q] exI [of _ w'] exI [of _ c']) (use p q in simp)
qed

theorem admin_listener_private_witness:
  "\<exists>plan host port. Run sample_io [] sample_cfg (sample_env []) = Inr plan \<and>
     pl_admin plan = Some (AdminTCP ''127.0.0.1:9000'') \<and> split_host_port ''127.0.0.1:9000'' = Some (host, port) \<and>
     (equal_fold host ''localhost'' \<or> (\<exists>ip. parse_ip host = Some ip \<and> is_loopback ip))"
proof -
  obtain plan where p: "Run sample_io [] sample_cfg (sample_env []) = Inr plan"
    "pl_admin plan = Some (AdminTCP ''127.0.0.1:9000'')"
    using sample_run [of "[]" "[]"] by blast
  from admin_listener_private [OF p] p show ?thesis by (auto simp: has_prefix_def)
qed

theorem run_dns_allow_fails_witness:
  "\<exists>plan c. Run sample_io [] sample_cfg (sample_env ''/rules'') = Inr plan \<and> c \<in> set (pl_dns plan) \<and>
     handleQuery (\<lambda>_. Inr sample_query) (\<lambda>m. Inr [word_of_nat (dh_RCode (me_Header m))]) sample_net c [] False
       = (Inr [2], [])"
proof -
  let ?e = "sample_env ''/rules''"
  obtain plan where p: "Run sample_io [] sample_cfg ?e = Inr plan"
    "pl_dns plan = [dns_config sample_io sample_cfg ?e (run_matcher [] (pl_handler plan)) ''127.0.0.2:53'']"
    using sample_run [of "[]" "''/rules''"] by blast
  let ?c = "dns_config sample_io sample_cfg ?e (run_matcher [] (pl_handler plan)) ''127.0.0.2:53''"
  have a: "dc_DefaultAction ?c = ''Allow''"
    by (simp add: dns_config_def NewServer_def run_defaultAction_def first_nonempty_def sample_cfg_def)
  have f: "equal_fold ''Allow'' ''Allow''" by code_simp
  have h: "\<exists>rr. pl_handler plan = RouterHandler rr \<and> rr_routes rr = (\<lambda>_. None) \<and> rr_fallback rr = NoFallback"
    using p(1)
  proof (cases rule: Run_cases)
    case (1 fb ttl)
    have "run_target sample_cfg ?e = []"
      by (simp add: run_target_def run_rulesDir_def sample_cfg_def sample_env_def)
    then have "fb = None" using 1(1) by (simp add: run_fallback_def)
    moreover have "run_rulesDir sample_cfg ?e = ''/rules''" "run_podMap sample_cfg ?e = Some NewPodMap"
      by (simp_all add: run_rulesDir_def run_podMap_def sample_cfg_def sample_env_def)
    ultimately have "pl_handler plan = RouterHandler \<lparr>rr_routes = (\<lambda>_. None), rr_fallback = NoFallback,
        rr_rulesDir = ''/rules'', rr_podMap = Some NewPodMap\<rparr>"
      using 1(4) by (simp add: run_handler_def loadRules_def sample_io_def NewRuleRouter_def SetPodMap_def
          as_fallback_def)
    then show ?thesis by simp
  qed
  have nm: "\<not> dns_matched ?c sample_query"
    using h by (auto simp: dns_matched_def dns_config_def NewServer_def run_matcher_def MatchHost_def)
  have "handleQuery (\<lambda>_. Inr sample_query) (\<lambda>m. Inr [word_of_nat (dh_RCode (me_Header m))]) sample_net ?c [] False
      = (Inr [2], [])"
    using run_dns_allow_fails [OF p(1), of ?c "\<lambda>_. Inr sample_query" "[]" sample_query
        "\<lambda>m. Inr [word_of_nat (dh_RCode (me_Header m))]" sample_net False] a f nm p(2)
    by (simp add: reply_message_def reply_header_def) (simp add: sample_query_def)
  with p show ?thesis by auto
qed

end
