(* ===== verification/Nri_Plugin.thy ===== *)
theory Nri_Plugin
  imports Pod_Firewall Portal_Run
begin

text \<open>
  cmd/portal-nri-plugin/main.go: the plugin that the container runtime calls when a pod's sandbox is
  started, stopped or removed and when a container is created.  It installs the netfilter rules for
  the pods that opted in, and tells the node proxy's admin server about them.

  State: the plugin's record with its two tables, and a world that commands and HTTP requests act
  on.  \<^verbatim>\<open>os.Stat\<close>, the HTTP client, the context and the JSON decoder of the pod list are parameters.
  Each handler is one step; the background synchronisation is two steps, because it releases the
  plugin's lock between reading its table and writing to the proxy.

  Shown: a pod that is started is isolated and registered, a pod that cannot be isolated is refused
  before anything is changed, and how cleanup, a missing iptables and late removals go wrong.
\<close>

subsection \<open>Data\<close>

record pluginConfig =
  pc_socketPath :: string
  pc_pluginName :: string
  pc_pluginIndex :: string
  pc_proxyHost :: string
  pc_proxyHostV6 :: string
  pc_proxyPort :: string
  pc_proxyHTTPSPort :: string
  pc_proxyDNSPort :: string
  pc_adminURL :: string
  pc_caCertPath :: string

record podNetworkState =
  ns_hostInterface :: string
  ns_podIP :: string
  ns_podIPv6 :: string
  ns_isDualStack :: bool
  ns_runtimeClass :: string

text \<open>
  The fields of the runtime's \<^verbatim>\<open>api.PodSandbox\<close> that the plugin reads; the Linux part is the list of
  namespaces with their types and paths.
\<close>

record PodSandbox =
  ps_Id :: string
  ps_Uid :: string
  ps_Name :: string
  ps_Namespace :: string
  ps_Labels :: "string \<rightharpoonup> string"
  ps_Annotations :: "string \<rightharpoonup> string"
  ps_RuntimeHandler :: string
  ps_Ips :: "string list"
  ps_Linux :: "(string \<times> string) list option"

record 'w portalPlugin =
  pl_cfg :: pluginConfig
  pl_pods :: "string \<rightharpoonup> podNetworkState"
  pl_activePods :: "string \<rightharpoonup> PodInfo"
  pl_runIptables :: "(string list list \<Rightarrow> 'w \<Rightarrow> NetfilterError option \<times> 'w) option"
  pl_runIp6tables :: "(string list list \<Rightarrow> 'w \<Rightarrow> NetfilterError option \<times> 'w) option"

datatype http_client = UnixClient string | TcpClient

datatype payload = NoPayload | PodPayload PodInfo | PodsPayload "PodInfo list"

record 'w plugin_env =
  pn_host :: "'w host_env"
  pn_stat :: "string \<Rightarrow> 'w \<Rightarrow> string + nat"
  pn_url_error :: "string \<Rightarrow> string option"
  pn_do :: "http_client \<Rightarrow> string \<Rightarrow> string \<Rightarrow> payload \<Rightarrow> 'w \<Rightarrow> (string + nat \<times> string option) \<times> 'w"
  pn_wait :: "'w \<Rightarrow> string option \<times> 'w"
  pn_count :: "string \<Rightarrow> nat option"

datatype PluginError =
    UnsupportedRuntime string string
  | NoLinuxConfig string
  | NoNetworkNamespace string
  | StatFailed string string
  | HostNetns string string
  | NetnsFailed string PluginError
  | HostIfaceFailed string NetError
  | DiscoverFailed string NetError
  | NfFailed NetfilterError
  | NoProxyIPv6
  | InstallFailed string string PluginError
  | CleanupFailed string string PluginError
  | BadRequest string
  | ContextDone string
  | AdminStatus nat string
  | NotifyFailed string string
  | RegisterFailed string PluginError
  | UnregisterFailed string PluginError
  | SyncFailed PluginError
  | PodSyncFailed string PluginError
  | Joined "PluginError list"
  | CACertMissing string string

subsection \<open>Configuration\<close>

definition envOrDefault :: "(string \<Rightarrow> string) \<Rightarrow> string \<Rightarrow> string \<Rightarrow> string" where
  "envOrDefault env key fallback = (if env key \<noteq> [] then env key else fallback)"

datatype FlagError = MissingProxyHost | InvalidProxyHost string | MissingCaCertPath

text \<open>\<^verbatim>\<open>parseFlags\<close>: \<open>flags\<close> gives the command-line flags that were set.\<close>

definition flag_or_env :: "(string \<rightharpoonup> string) \<Rightarrow> string \<Rightarrow> string \<Rightarrow> string" where
  "flag_or_env flags name def = (case flags name of Some v \<Rightarrow> v | None \<Rightarrow> def)"

definition flag_config :: "(string \<rightharpoonup> string) \<Rightarrow> (string \<Rightarrow> string) \<Rightarrow> pluginConfig" where
  "flag_config flags env =
     \<lparr>pc_socketPath = flag_or_env flags ''socket-path'' (envOrDefault env ''NRI_SOCKET_PATH'' ''/var/run/nri/nri.sock''),
      pc_pluginName = flag_or_env flags ''plugin-name'' (envOrDefault env ''NRI_PLUGIN_NAME'' ''service-portal''),
      pc_pluginIndex = flag_or_env flags ''plugin-index''
        (envOrDefault env ''NRI_PLUGIN_INDEX'' (envOrDefault env ''NRI_PLUGIN_IDX'' ''01'')),
      pc_proxyHost = flag_or_env flags ''proxy-host'' (envOrDefault env ''PROXY_HOST'' []),
      pc_proxyHostV6 = flag_or_env flags ''proxy-host-v6'' (envOrDefault env ''PROXY_HOST_V6'' []),
      pc_proxyPort = flag_or_env flags ''proxy-port'' (envOrDefault env ''PROXY_PORT'' ''8080''),
      pc_proxyHTTPSPort = flag_or_env flags ''proxy-https-port'' (envOrDefault env ''PROXY_HTTPS_PORT'' ''8443''),
      pc_proxyDNSPort = flag_or_env flags ''proxy-dns-port''
        (envOrDefault env ''PROXY_DNS_PORT'' (envOrDefault env ''DNS_PORT'' ''53'')),
      pc_adminURL = flag_or_env flags ''admin-url'' (envOrDefault env ''ADMIN_URL'' (''unix://'' @ DefaultAdminSocketPath)),
      pc_caCertPath = flag_or_env flags ''ca-cert-path'' (envOrDefault env ''CA_CERT_PATH'' ''/etc/service-portal/ca/tls.crt'')\<rparr>"

definition parseFlags :: "'w host_env \<Rightarrow> (string \<rightharpoonup> string) \<Rightarrow> (string \<Rightarrow> string) \<Rightarrow> 'w \<Rightarrow> (FlagError + pluginConfig) \<times> 'w" where
  "parseFlags host flags env w =
     (let cfg = flag_config flags env; h = trim_space (pc_proxyHost cfg) in
      if h = [] then (Inl MissingProxyHost, w)
      else if parse_ip h = None then (Inl (InvalidProxyHost (pc_proxyHost cfg)), w)
      else
        let v6 = trim_space (pc_proxyHostV6 cfg);
            (v6', w1) = (if v6 = [] then DiscoverNodeIPv6 host w else (v6, w))
        in if trim_space (pc_caCertPath cfg) = [] then (Inl MissingCaCertPath, w1)
           else (Inr (cfg\<lparr>pc_proxyHost := h, pc_proxyHostV6 := v6'\<rparr>), w1))"

subsection \<open>Which pods\<close>

definition podID :: "PodSandbox option \<Rightarrow> string" where
  "podID pod =
     (case pod of
        None \<Rightarrow> ''<nil>''
      | Some p \<Rightarrow>
          if ps_Namespace p \<noteq> [] \<and> ps_Name p \<noteq> [] then ps_Namespace p @ ''/'' @ ps_Name p
          else if ps_Id p \<noteq> [] then ps_Id p
          else ''<unnamed>'')"

definition matchesPod :: "PodSandbox option \<Rightarrow> bool" where
  "matchesPod pod =
     (case pod of None \<Rightarrow> False | Some p \<Rightarrow> map_str (ps_Labels p) ''service-portal.gke.io/intercept'' = ''true'')"

definition getRuntimeClass :: "PodSandbox \<Rightarrow> string" where
  "getRuntimeClass p =
     (if ps_RuntimeHandler p \<noteq> [] then ps_RuntimeHandler p
      else map_str (ps_Annotations p) ''io.kubernetes.cri.runtime-handler'')"

definition isSupportedRuntime :: "string \<Rightarrow> bool" where
  "isSupportedRuntime runtimeClass \<longleftrightarrow>
     to_lower (trim_space runtimeClass) \<in>
       set ['''', ''runc'', ''gvisor'', ''runsc'', ''kata'', ''kata-qemu'', ''kata-clh'', ''kata-fc'', ''kata-containers'']"

definition validateRuntime :: "PodSandbox \<Rightarrow> PluginError option" where
  "validateRuntime p =
     (if \<not> isSupportedRuntime (getRuntimeClass p)
      then Some (UnsupportedRuntime (getRuntimeClass p) (podID (Some p))) else None)"

definition findHostInterface :: "'w plugin_env \<Rightarrow> PodSandbox \<Rightarrow> string \<Rightarrow> 'w \<Rightarrow> (NetError + string \<times> string) \<times> 'w" where
  "findHostInterface env p netnsPath w = FindHostInterface (pn_host env) (ps_Ips p) netnsPath w"

definition network_path :: "(string \<times> string) list \<Rightarrow> string" where
  "network_path nss =
     (case find (\<lambda>(t, path). t = ''network'' \<and> path \<noteq> []) nss of Some (_, path) \<Rightarrow> path | None \<Rightarrow> [])"

definition findNetnsPath :: "'w plugin_env \<Rightarrow> PodSandbox \<Rightarrow> 'w \<Rightarrow> PluginError + string" where
  "findNetnsPath env p w =
     (case ps_Linux p of
        None \<Rightarrow> Inl (NoLinuxConfig (podID (Some p)))
      | Some nss \<Rightarrow>
          let netnsPath = network_path nss in
          if netnsPath = [] then Inl (NoNetworkNamespace (podID (Some p)))
          else (case pn_stat env netnsPath w of
                  Inl e \<Rightarrow> Inl (StatFailed netnsPath e)
                | Inr target \<Rightarrow>
                    (case pn_stat env ''/proc/self/ns/net'' w of
                       Inl e \<Rightarrow> Inl (StatFailed ''/proc/self/ns/net'' e)
                     | Inr self \<Rightarrow> if self = target then Inl (HostNetns (podID (Some p)) netnsPath) else Inr netnsPath)))"

subsection \<open>Rules\<close>

definition executeIptables :: "'w plugin_env \<Rightarrow> 'w portalPlugin \<Rightarrow> string list list \<Rightarrow> 'w \<Rightarrow> NetfilterError option \<times> 'w" where
  "executeIptables env p ruleCmds w =
     (case pl_runIptables p of Some run \<Rightarrow> run ruleCmds w | None \<Rightarrow> runIptables (pn_host env) ruleCmds w)"

definition executeIp6tables :: "'w plugin_env \<Rightarrow> 'w portalPlugin \<Rightarrow> string list list \<Rightarrow> 'w \<Rightarrow> NetfilterError option \<times> 'w" where
  "executeIp6tables env p ruleCmds w =
     (case pl_runIp6tables p of
        Some run \<Rightarrow> run ruleCmds w
      | None \<Rightarrow>
          (case pl_runIptables p of Some run \<Rightarrow> run ruleCmds w | None \<Rightarrow> runIp6tables (pn_host env) ruleCmds w))"

definition nf_result :: "NetfilterError option \<times> 'w \<Rightarrow> PluginError option \<times> 'w" where
  "nf_result r = (map_option NfFailed (fst r), snd r)"

definition installHostIptablesRules :: "'w plugin_env \<Rightarrow> 'w portalPlugin \<Rightarrow> string \<Rightarrow> 'w \<Rightarrow> PluginError option \<times> 'w" where
  "installHostIptablesRules env p hostIface w =
     nf_result (executeIptables env p
       (buildHostIptablesRules hostIface (pc_proxyHost (pl_cfg p)) (pc_proxyPort (pl_cfg p))
          (pc_proxyHTTPSPort (pl_cfg p)) (pc_proxyDNSPort (pl_cfg p))) w)"

definition installHostIp6tablesRules :: "'w plugin_env \<Rightarrow> 'w portalPlugin \<Rightarrow> string \<Rightarrow> 'w \<Rightarrow> PluginError option \<times> 'w" where
  "installHostIp6tablesRules env p hostIface w =
     (let (proxyHostV6, w1) =
            (if pc_proxyHostV6 (pl_cfg p) = [] then DiscoverNodeIPv6 (pn_host env) w else (pc_proxyHostV6 (pl_cfg p), w))
      in if proxyHostV6 = [] then (Some NoProxyIPv6, w1)
         else nf_result (executeIp6tables env p
                (buildHostIp6tablesRules hostIface proxyHostV6 (pc_proxyPort (pl_cfg p))
                   (pc_proxyHTTPSPort (pl_cfg p)) (pc_proxyDNSPort (pl_cfg p))) w1))"

definition removeHostIptablesRules :: "'w plugin_env \<Rightarrow> 'w portalPlugin \<Rightarrow> string \<Rightarrow> 'w \<Rightarrow> PluginError option \<times> 'w" where
  "removeHostIptablesRules env p hostIface w =
     (case executeIptables env p (buildHostCleanupRules hostIface) w of
        (Some e, w1) \<Rightarrow> (Some (NfFailed e), w1)
      | (None, w1) \<Rightarrow> nf_result (executeIp6tables env p (buildHostCleanupRules hostIface) w1))"

subsection \<open>The admin server\<close>

definition newAdminHTTPClient :: "string \<Rightarrow> http_client \<times> string" where
  "newAdminHTTPClient adminURL =
     (if has_prefix adminURL ''unix://'' \<or> has_prefix adminURL ''/'' \<and> \<not> has_prefix adminURL ''http''
      then (UnixClient (trim_prefix adminURL ''unix://''), ''http://unix'')
      else (TcpClient, trim_right_if (\<lambda>c. c = CHR ''/'') adminURL))"

text \<open>The loop over the attempts that are left, with the last error.  The payloads are always serialised.\<close>

fun notify_loop :: "'w plugin_env \<Rightarrow> http_client \<Rightarrow> string \<Rightarrow> string \<Rightarrow> payload \<Rightarrow> nat \<Rightarrow> string \<Rightarrow> 'w \<Rightarrow> PluginError option \<times> 'w" where
  "notify_loop env client meth url data 0 lastErr w = (Some (NotifyFailed url lastErr), w)"
| "notify_loop env client meth url data (Suc n) lastErr w =
     (case pn_url_error env url of
        Some e \<Rightarrow> (Some (BadRequest e), w)
      | None \<Rightarrow>
          (case pn_do env client meth url data w of
             (Inl err, w1) \<Rightarrow>
               (case pn_wait env w1 of
                  (Some e, w2) \<Rightarrow> (Some (ContextDone e), w2)
                | (None, w2) \<Rightarrow> notify_loop env client meth url data n err w2)
           | (Inr (status, body), w1) \<Rightarrow>
               if status < 200 \<or> status \<ge> 300
               then (Some (AdminStatus status (trim_space (case body of Some b \<Rightarrow> b | None \<Rightarrow> []))), w1)
               else (None, w1)))"

definition notifyPodUpdate :: "'w plugin_env \<Rightarrow> 'w portalPlugin \<Rightarrow> string \<Rightarrow> string \<Rightarrow> payload \<Rightarrow> 'w \<Rightarrow> PluginError option \<times> 'w" where
  "notifyPodUpdate env p meth path data w =
     (if pc_adminURL (pl_cfg p) = [] then (None, w)
      else let (client, baseURL) = newAdminHTTPClient (pc_adminURL (pl_cfg p))
           in notify_loop env client meth (baseURL @ path) data 3 [] w)"

text \<open>
  \<^verbatim>\<open>syncActivePodsWithProxy\<close>, before and after it releases the lock.  The slice is filled in the
  order \<open>ord\<close> of the range over the table.
\<close>

definition sync_snapshot :: "string list \<Rightarrow> 'w portalPlugin \<Rightarrow> PodInfo list" where
  "sync_snapshot ord p = List.map_filter (pl_activePods p) ord"

definition sync_push :: "'w plugin_env \<Rightarrow> 'w portalPlugin \<Rightarrow> PodInfo list \<Rightarrow> 'w \<Rightarrow> 'w" where
  "sync_push env p pods w =
     (if pods = [] then w
      else
        let (client, baseURL) = newAdminHTTPClient (pc_adminURL (pl_cfg p)); url = baseURL @ ''/api/v1/pods'' in
        if pn_url_error env url \<noteq> None then w
        else (case pn_do env client ''GET'' url NoPayload w of
                (Inl _, w1) \<Rightarrow> w1
              | (Inr (_, body), w1) \<Rightarrow>
                  (case Option.bind body (pn_count env) of
                     None \<Rightarrow> w1
                   | Some existing \<Rightarrow>
                       if existing < length pods
                       then snd (notifyPodUpdate env p ''PUT'' ''/api/v1/pods'' (PodsPayload pods) w1)
                       else w1)))"

definition syncActivePodsWithProxy :: "'w plugin_env \<Rightarrow> string list \<Rightarrow> 'w portalPlugin \<Rightarrow> 'w \<Rightarrow> 'w" where
  "syncActivePodsWithProxy env ord p w = sync_push env p (sync_snapshot ord p) w"

subsection \<open>Handlers\<close>

definition install_rules :: "'w plugin_env \<Rightarrow> 'w portalPlugin \<Rightarrow> string \<Rightarrow> bool \<Rightarrow> 'w \<Rightarrow> PluginError option \<times> 'w" where
  "install_rules env p hostIface isDualStack w =
     (case installHostIptablesRules env p hostIface w of
        (Some e, w1) \<Rightarrow> (Some e, w1)
      | (None, w1) \<Rightarrow> if isDualStack then installHostIp6tablesRules env p hostIface w1 else (None, w1))"

definition configurePod :: "'w plugin_env \<Rightarrow> PodSandbox \<Rightarrow> 'w portalPlugin \<times> 'w \<Rightarrow> PluginError option \<times> 'w portalPlugin \<times> 'w" where
  "configurePod env pod s =
     (let (p, w) = s; me = podID (Some pod) in
      case validateRuntime pod of
        Some e \<Rightarrow> (Some e, p, w)
      | None \<Rightarrow>
          (case findNetnsPath env pod w of
             Inl e \<Rightarrow> (Some (NetnsFailed me e), p, w)
           | Inr netnsPath \<Rightarrow>
               (case findHostInterface env pod netnsPath w of
                  (Inl e, w1) \<Rightarrow> (Some (HostIfaceFailed me e), p, w1)
                | (Inr (hostIface, _), w1) \<Rightarrow>
                    (case DiscoverPodIPs (pn_host env) (ps_Ips pod) netnsPath w1 of
                       (Inl e, w2) \<Rightarrow> (Some (DiscoverFailed me e), p, w2)
                     | (Inr (podIPv4, podIPv6), w2) \<Rightarrow>
                         (case install_rules env p hostIface (podIPv6 \<noteq> []) w2 of
                            (Some e, w3) \<Rightarrow> (Some (InstallFailed hostIface me e), p, w3)
                          | (None, w3) \<Rightarrow>
                              (None,
                               p\<lparr>pl_pods := (pl_pods p)(ps_Id pod \<mapsto>
                                   \<lparr>ns_hostInterface = hostIface, ns_podIP = podIPv4, ns_podIPv6 = podIPv6,
                                    ns_isDualStack = (podIPv6 \<noteq> []), ns_runtimeClass = getRuntimeClass pod\<rparr>)\<rparr>,
                               w3))))))"

definition cleanup_iface :: "'w plugin_env \<Rightarrow> PodSandbox \<Rightarrow> 'w portalPlugin \<times> 'w \<Rightarrow> string \<times> 'w" where
  "cleanup_iface env pod s =
     (let (p, w) = s in
      case pl_pods p (ps_Id pod) of
        Some state \<Rightarrow> (ns_hostInterface state, w)
      | None \<Rightarrow>
          (case findNetnsPath env pod w of
             Inl _ \<Rightarrow> ([], w)
           | Inr netnsPath \<Rightarrow>
               (case findHostInterface env pod netnsPath w of
                  (Inl _, w1) \<Rightarrow> ([], w1)
                | (Inr (iface, _), w1) \<Rightarrow> (iface, w1))))"

definition cleanupPod :: "'w plugin_env \<Rightarrow> PodSandbox \<Rightarrow> 'w portalPlugin \<times> 'w \<Rightarrow> PluginError option \<times> 'w portalPlugin \<times> 'w" where
  "cleanupPod env pod s =
     (let (p, w) = s; me = podID (Some pod);
          p1 = p\<lparr>pl_pods := (pl_pods p)(ps_Id pod := None), pl_activePods := (pl_activePods p)(ps_Uid pod := None)\<rparr>;
          (hostIface, w1) = cleanup_iface env pod s;
          (e, w2) = (if hostIface \<noteq> [] then removeHostIptablesRules env p1 hostIface w1 else (None, w1))
      in case e of
           Some e \<Rightarrow> (Some (CleanupFailed hostIface me e), p1, w2)
         | None \<Rightarrow>
             if ps_Uid pod \<noteq> [] then
               (case notifyPodUpdate env p1 ''DELETE'' (''/api/v1/pods/'' @ ps_Uid pod) NoPayload w2 of
                  (Some e, w3) \<Rightarrow> (Some (UnregisterFailed me e), p1, w3)
                | (None, w3) \<Rightarrow> (None, p1, w3))
             else (None, p1, w2))"

definition StopPodSandbox :: "'w plugin_env \<Rightarrow> PodSandbox option \<Rightarrow> 'w portalPlugin \<times> 'w \<Rightarrow> PluginError option \<times> 'w portalPlugin \<times> 'w" where
  "StopPodSandbox env pod s = (if \<not> matchesPod pod then (None, s) else cleanupPod env (the pod) s)"

definition RemovePodSandbox :: "'w plugin_env \<Rightarrow> PodSandbox option \<Rightarrow> 'w portalPlugin \<times> 'w \<Rightarrow> PluginError option \<times> 'w portalPlugin \<times> 'w" where
  "RemovePodSandbox env pod s = (if \<not> matchesPod pod then (None, s) else cleanupPod env (the pod) s)"

definition pod_ips :: "PodSandbox \<Rightarrow> podNetworkState option \<Rightarrow> string list" where
  "pod_ips pod state =
     (if ps_Ips pod \<noteq> [] then ps_Ips pod
      else case state of
             None \<Rightarrow> []
           | Some st \<Rightarrow> (if ns_podIP st \<noteq> [] then [ns_podIP st] else []) @ (if ns_podIPv6 st \<noteq> [] then [ns_podIPv6 st] else []))"

definition pod_info :: "PodSandbox \<Rightarrow> podNetworkState option \<Rightarrow> PodInfo" where
  "pod_info pod state =
     zero_pod\<lparr>pi_UID := ps_Uid pod, pi_Namespace := ps_Namespace pod, pi_Name := ps_Name pod,
       pi_IPs := pod_ips pod state, pi_Annotations := ps_Annotations pod, pi_Labels := ps_Labels pod\<rparr>"

text \<open>\<^verbatim>\<open>Synchronize\<close>: one pod of the loop, with the errors and the pods collected so far.\<close>

type_synonym 'w sync_state = "PluginError list \<times> PodInfo list \<times> 'w portalPlugin \<times> 'w"

definition sync_pod :: "'w plugin_env \<Rightarrow> PodSandbox option \<Rightarrow> 'w sync_state \<Rightarrow> 'w sync_state" where
  "sync_pod env pod st =
     (let (errs, synced, p, w) = st in
      if \<not> matchesPod pod then st
      else let sb = the pod in
        case configurePod env sb (p, w) of
          (Some e, p1, w1) \<Rightarrow> (errs @ [PodSyncFailed (podID pod) e], synced, p1, w1)
        | (None, p1, w1) \<Rightarrow>
            let info = pod_info sb (pl_pods p1 (ps_Id sb)) in
            (errs, synced @ [info], p1\<lparr>pl_activePods := (pl_activePods p1)(ps_Uid sb \<mapsto> info)\<rparr>, w1))"

definition Synchronize :: "'w plugin_env \<Rightarrow> PodSandbox option list \<Rightarrow> 'w portalPlugin \<times> 'w \<Rightarrow> PluginError option \<times> 'w portalPlugin \<times> 'w" where
  "Synchronize env pods s =
     (let (p, w) = s;
          (errs, synced, p1, w1) = fold (sync_pod env) pods ([], [], p\<lparr>pl_activePods := (\<lambda>_. None)\<rparr>, w);
          (e, w2) = (if synced \<noteq> [] then notifyPodUpdate env p1 ''PUT'' ''/api/v1/pods'' (PodsPayload synced) w1 else (None, w1))
      in case e of
           Some e \<Rightarrow> (Some (SyncFailed e), p1, w2)
         | None \<Rightarrow> ((if errs \<noteq> [] then Some (Joined errs) else None), p1, w2))"

definition RunPodSandbox :: "'w plugin_env \<Rightarrow> PodSandbox option \<Rightarrow> 'w portalPlugin \<times> 'w \<Rightarrow> PluginError option \<times> 'w portalPlugin \<times> 'w" where
  "RunPodSandbox env pod s =
     (if \<not> matchesPod pod then (None, s)
      else let sb = the pod in
        case validateRuntime sb of
          Some e \<Rightarrow> (Some e, s)
        | None \<Rightarrow>
            (case configurePod env sb s of
               (Some e, s1) \<Rightarrow> (Some e, s1)
             | (None, p1, w1) \<Rightarrow>
                 let info = pod_info sb (pl_pods p1 (ps_Id sb)) in
                 (case notifyPodUpdate env p1 ''POST'' ''/api/v1/pods'' (PodPayload info) w1 of
                    (Some e, w2) \<Rightarrow> (Some (RegisterFailed (podID pod) e), snd (cleanupPod env sb (p1, w2)))
                  | (None, w2) \<Rightarrow> (None, p1\<lparr>pl_activePods := (pl_activePods p1)(ps_Uid sb \<mapsto> info)\<rparr>, w2))))"

record Mount =
  mt_Destination :: string
  mt_Source :: string
  mt_Type :: string
  mt_Options :: "string list"

record ContainerAdjustment =
  ad_env :: "(string \<times> string) list"
  ad_mounts :: "Mount list"

definition CreateContainer ::
  "'w plugin_env \<Rightarrow> PodSandbox option \<Rightarrow> 'w portalPlugin \<Rightarrow> 'w \<Rightarrow> PluginError + ContainerAdjustment option" where
  "CreateContainer env pod p w =
     (if \<not> matchesPod pod then Inr None
      else case validateRuntime (the pod) of
             Some e \<Rightarrow> Inl e
           | None \<Rightarrow>
               (case pn_stat env (pc_caCertPath (pl_cfg p)) w of
                  Inl e \<Rightarrow> Inl (CACertMissing (pc_caCertPath (pl_cfg p)) e)
                | Inr _ \<Rightarrow>
                    Inr (Some
                      \<lparr>ad_env = [(''SSL_CERT_FILE'', ''/etc/service-portal/ca/tls.crt'')],
                       ad_mounts = [\<lparr>mt_Destination = ''/etc/service-portal/ca/tls.crt'', mt_Source = pc_caCertPath (pl_cfg p),
                                      mt_Type = ''bind'', mt_Options = [''rbind'', ''ro'']\<rparr>]\<rparr>)))"

subsection \<open>The bind and unbind commands\<close>

text \<open>
  \<^verbatim>\<open>runBindCommand\<close> and \<^verbatim>\<open>runUnbindCommand\<close> after flag parsing: the exit code and what is printed.
  The request carries the bind or unbind payload; \<open>post\<close> is the HTTP client's POST.
\<close>

datatype cli_result = CliOK string | CliError string

definition cli_response :: "string \<Rightarrow> (string + nat \<times> string option) \<times> 'w \<Rightarrow> cli_result \<times> 'w" where
  "cli_response what r =
     (case r of
        (Inl e, w) \<Rightarrow> (CliError (what @ '' request failed: '' @ e), w)
      | (Inr (status, body), w) \<Rightarrow>
          let b = (case body of Some b \<Rightarrow> b | None \<Rightarrow> []) in
          if status < 200 \<or> status \<ge> 300 then (CliError (what @ '' failed (status '' @ dec_str status @ ''): '' @ b), w)
          else (CliOK b, w))"

definition runBindCommand ::
  "(http_client \<Rightarrow> string \<Rightarrow> BindRequest \<Rightarrow> 'w \<Rightarrow> (string + nat \<times> string option) \<times> 'w) \<Rightarrow>
   string \<Rightarrow> string \<Rightarrow> string \<Rightarrow> string \<Rightarrow> 'w \<Rightarrow> cli_result \<times> 'w" where
  "runBindCommand post socket uid identity policy w =
     (if uid = [] then (CliError ''error: --uid is required'', w)
      else let (client, baseURL) = newAdminHTTPClient socket
           in cli_response ''bind'' (post client (baseURL @ ''/bind'')
                \<lparr>br_PodUID = uid, br_Identity = identity, br_Policy = policy\<rparr> w))"

definition runUnbindCommand ::
  "(http_client \<Rightarrow> string \<Rightarrow> string \<Rightarrow> 'w \<Rightarrow> (string + nat \<times> string option) \<times> 'w) \<Rightarrow> string \<Rightarrow> string \<Rightarrow> 'w \<Rightarrow> cli_result \<times> 'w" where
  "runUnbindCommand post socket uid w =
     (if uid = [] then (CliError ''error: --uid is required'', w)
      else let (client, baseURL) = newAdminHTTPClient socket
           in cli_response ''unbind'' (post client (baseURL @ ''/unbind'') uid w))"

definition new_plugin :: "pluginConfig \<Rightarrow> 'w portalPlugin" where
  "new_plugin cfg =
     \<lparr>pl_cfg = cfg, pl_pods = (\<lambda>_. None), pl_activePods = (\<lambda>_. None), pl_runIptables = None, pl_runIp6tables = None\<rparr>"

text \<open>One tick of the timer of \<^verbatim>\<open>startProxySyncLoop\<close>, and the commands of \<^verbatim>\<open>main\<close>.\<close>

definition sync_tick :: "'w plugin_env \<Rightarrow> string list \<Rightarrow> 'w portalPlugin \<Rightarrow> 'w \<Rightarrow> 'w" where
  "sync_tick env ord p w = (if pc_adminURL (pl_cfg p) = [] then w else syncActivePodsWithProxy env ord p w)"

datatype nri_command = InitCommand "string list" | BindCommand "string list" | UnbindCommand "string list" | ServePlugin

definition nri_main :: "string list \<Rightarrow> nri_command" where
  "nri_main args =
     (case args of
        prog # cmd # rest \<Rightarrow>
          if cmd = ''init'' then InitCommand rest
          else if cmd = ''bind'' then BindCommand rest
          else if cmd = ''unbind'' then UnbindCommand rest
          else ServePlugin
      | _ \<Rightarrow> ServePlugin)"

text \<open>What the runtime and the timer make the plugin do, in the order in which it happens.\<close>

datatype plugin_event =
    PodRun "PodSandbox option" | PodStop "PodSandbox option" | PodRemove "PodSandbox option" | PodsListed "PodSandbox option list" | Tick "string list"

definition plugin_step :: "'w plugin_env \<Rightarrow> plugin_event \<Rightarrow> 'w portalPlugin \<times> 'w \<Rightarrow> 'w portalPlugin \<times> 'w" where
  "plugin_step env ev s =
     (case ev of
        PodRun pod \<Rightarrow> snd (RunPodSandbox env pod s)
      | PodStop pod \<Rightarrow> snd (StopPodSandbox env pod s)
      | PodRemove pod \<Rightarrow> snd (RemovePodSandbox env pod s)
      | PodsListed pods \<Rightarrow> snd (Synchronize env pods s)
      | Tick ord \<Rightarrow> (fst s, sync_tick env ord (fst s) (snd s)))"

subsection \<open>The world around the plugin\<close>

text \<open>An observation of the world that the programs other than iptables and ip6tables do not change.\<close>

definition reads_only :: "'w host_env \<Rightarrow> ('w \<Rightarrow> 'o) \<Rightarrow> bool" where
  "reads_only host obs \<longleftrightarrow>
     (\<forall>bin args w. bin \<noteq> ''iptables'' \<longrightarrow> bin \<noteq> ''ip6tables'' \<longrightarrow> obs (snd (he_exec host bin args w)) = obs w)"

lemma reads_only_exec:
  "reads_only host obs \<Longrightarrow> he_exec host bin args w = (res, w') \<Longrightarrow> bin \<noteq> ''iptables'' \<Longrightarrow> bin \<noteq> ''ip6tables'' \<Longrightarrow> obs w' = obs w"
  by (metis reads_only_def snd_conv)

lemma nsenter_addr_obs:
  assumes "reads_only host obs"
  shows "obs (snd (nsenter_addr host ns flag parse known w)) = obs w"
proof (cases "he_exec host ''nsenter'' [''--net='' @ ns, ''ip'', ''-o'', flag, ''addr'', ''show''] w")
  case (Pair res w1)
  then show ?thesis using reads_only_exec [OF assms Pair] by (simp add: nsenter_addr_def split: exec_result.split)
qed

lemma DiscoverPodIPs_obs:
  assumes "reads_only host obs"
  shows "obs (snd (DiscoverPodIPs host ips ns w)) = obs w"
proof -
  let ?a = "fst (fold take_pod_ip ips ([], []))" and ?b = "snd (fold take_pod_ip ips ([], []))"
  obtain r1 w1 where n1: "nsenter_addr host ns ''-4'' ParsePodIPv4 ?a w = (r1, w1)" by fastforce
  obtain r2 w2 where n2: "nsenter_addr host ns ''-6'' ParsePodIPv6 ?b w1 = (r2, w2)" by fastforce
  have "obs w1 = obs w" "obs w2 = obs w1"
    using nsenter_addr_obs [OF assms, of ns "''-4''" ParsePodIPv4 ?a w] nsenter_addr_obs [OF assms, of ns "''-6''" ParsePodIPv6 ?b w1]
    by (simp_all add: n1 n2)
  then show ?thesis using n1 n2 by (cases r1; cases r2) (auto simp: DiscoverPodIPs_def case_prod_beta)
qed

lemma FindHostInterface_obs:
  assumes "reads_only host obs"
  shows "obs (snd (FindHostInterface host ips ns w)) = obs w"
proof -
  obtain res w1 where e: "he_exec host ''nsenter'' [''--net='' @ ns, ''ip'', ''-o'', ''link'', ''show''] w = (res, w1)" by fastforce
  obtain res2 w2 where e2: "he_exec host ''ip'' [''-o'', ''link'', ''show''] w1 = (res2, w2)" by fastforce
  have o: "obs w1 = obs w" "obs w2 = obs w1" using reads_only_exec [OF assms e] reads_only_exec [OF assms e2] by simp_all
  then have l: "obs (snd (iface_by_links host ns w1)) = obs w" using e2 by (cases res2) (simp_all add: iface_by_links_def)
  have d: "obs (snd (DiscoverPodIPs host ips ns u)) = obs u" for u by (rule DiscoverPodIPs_obs [OF assms])
  show ?thesis
  proof (cases res)
    case (ExecOK out)
    let ?hw = "if iface_by_peer host out w1 = [] then iface_by_links host ns w1 else (iface_by_peer host out w1, w1)"
    have h: "obs (snd ?hw) = obs w" using o l by simp
    have "snd (FindHostInterface host ips ns w) = snd ?hw \<or> snd (FindHostInterface host ips ns w) = snd (DiscoverPodIPs host ips ns (snd ?hw))"
      using e ExecOK by (auto simp: FindHostInterface_def Let_def case_prod_beta split: sum.split prod.splits)
    then show ?thesis using h d by auto
  qed (use e o in \<open>simp_all add: FindHostInterface_def\<close>)
qed

lemma DiscoverNodeIPv6_obs:
  assumes "reads_only host obs"
  shows "obs (snd (DiscoverNodeIPv6 host w)) = obs w"
proof -
  obtain res w1 where e: "he_exec host ''ip'' [''-o'', ''-6'', ''addr'', ''show'', ''scope'', ''global''] w = (res, w1)" by fastforce
  then have "obs w1 = obs w" using reads_only_exec [OF assms e] by simp
  then show ?thesis using e by (auto simp: DiscoverNodeIPv6_def Let_def split: option.split)
qed

text \<open>An observation that HTTP requests do not change.\<close>

definition http_keeps :: "'w plugin_env \<Rightarrow> ('w \<Rightarrow> 'o) \<Rightarrow> bool" where
  "http_keeps env obs \<longleftrightarrow>
     (\<forall>c m u d w. obs (snd (pn_do env c m u d w)) = obs w) \<and> (\<forall>w. obs (snd (pn_wait env w)) = obs w)"

lemma notify_loop_obs:
  assumes "http_keeps env obs"
  shows "obs (snd (notify_loop env c m u d n err w)) = obs w"
proof (induction n arbitrary: err w)
  case 0
  then show ?case by simp
next
  case (Suc n)
  have "obs (snd (pn_do env c m u d w)) = obs w" "\<And>w r w'. pn_wait env w = (r, w') \<Longrightarrow> obs w' = obs w"
    using assms by (simp add: http_keeps_def) (metis assms http_keeps_def snd_conv)
  then show ?case using Suc by (auto split: option.split prod.split sum.split)
qed

lemma notifyPodUpdate_obs: "http_keeps env obs \<Longrightarrow> obs (snd (notifyPodUpdate env p m path d w)) = obs w"
  by (auto simp: notifyPodUpdate_def notify_loop_obs split: prod.split)

definition v4_dest :: "pluginConfig \<Rightarrow> proxy_dest" where
  "v4_dest cfg = \<lparr>pd_v6 = False, pd_host = pc_proxyHost cfg, pd_http = pc_proxyPort cfg, pd_https = pc_proxyHTTPSPort cfg,
     pd_dns = pc_proxyDNSPort cfg\<rparr>"

definition v6_dest :: "string \<Rightarrow> pluginConfig \<Rightarrow> proxy_dest" where
  "v6_dest host cfg = \<lparr>pd_v6 = True, pd_host = host, pd_http = pc_proxyPort cfg, pd_https = pc_proxyHTTPSPort cfg,
     pd_dns = pc_proxyDNSPort cfg\<rparr>"

text \<open>
  The node: both netfilter programs behave as documented, and neither other programs nor HTTP
  requests change the tables.
\<close>

definition netfilter_node :: "'w plugin_env \<Rightarrow> (string \<Rightarrow> 'w \<Rightarrow> nf_tables) \<Rightarrow> bool" where
  "netfilter_node env view \<longleftrightarrow>
     runs_netfilter (pn_host env) view ''iptables'' \<and> runs_netfilter (pn_host env) view ''ip6tables'' \<and>
     (\<forall>b. reads_only (pn_host env) (view b) \<and> http_keeps env (view b))"

definition no_hooks :: "'w portalPlugin \<Rightarrow> bool" where
  "no_hooks p \<longleftrightarrow> pl_runIptables p = None \<and> pl_runIp6tables p = None"

lemma install_v4:
  assumes "netfilter_node env view" and "no_hooks p" and "has_builtin (view ''iptables'' w)" and "iface_ok i"
    and "dest_ok (v4_dest (pl_cfg p))"
  shows "\<exists>w'. installHostIptablesRules env p i w = (None, w') \<and>
    view ''iptables'' w' = installed (v4_dest (pl_cfg p)) i (view ''iptables'' w) \<and> view ''ip6tables'' w' = view ''ip6tables'' w"
proof -
  have b: "buildHostIptablesRules i (pc_proxyHost (pl_cfg p)) (pc_proxyPort (pl_cfg p)) (pc_proxyHTTPSPort (pl_cfg p))
      (pc_proxyDNSPort (pl_cfg p)) = build_rules (v4_dest (pl_cfg p)) i"
    by (simp add: buildHostIptablesRules_def build_rules_def v4_dest_def)
  have r: "runs_netfilter (pn_host env) view ''iptables''" using assms(1) by (simp add: netfilter_node_def)
  show ?thesis
    using runNetfilter_runs [OF r, OF build_rules_commands, OF nf_run_install [OF assms(3-5)]] assms(2)
    by (auto simp: installHostIptablesRules_def b executeIptables_def no_hooks_def runIptables_def nf_result_def)
qed

lemma install_v6:
  assumes "netfilter_node env view" and "no_hooks p" and "has_builtin (view ''ip6tables'' w)" and "iface_ok i"
    and "installHostIp6tablesRules env p i w = (None, w')"
  shows "view ''iptables'' w' = view ''iptables'' w \<and> (\<exists>h. h \<noteq> [] \<and> (dest_ok (v6_dest h (pl_cfg p)) \<longrightarrow>
    view ''ip6tables'' w' = installed (v6_dest h (pl_cfg p)) i (view ''ip6tables'' w)))"
proof -
  let ?cfg = "pl_cfg p"
  obtain h w1 where h: "(if pc_proxyHostV6 ?cfg = [] then DiscoverNodeIPv6 (pn_host env) w else (pc_proxyHostV6 ?cfg, w)) = (h, w1)"
    by fastforce
  have v: "view b w1 = view b w" for b
    using h DiscoverNodeIPv6_obs [of "pn_host env" "view b" w] assms(1) by (auto simp: netfilter_node_def split: if_splits)
  have b: "buildHostIp6tablesRules i h (pc_proxyPort ?cfg) (pc_proxyHTTPSPort ?cfg) (pc_proxyDNSPort ?cfg) = build_rules (v6_dest h ?cfg) i"
    by (simp add: buildHostIp6tablesRules_def build_rules_def v6_dest_def)
  have ne: "h \<noteq> []" using assms(5) h by (auto simp: installHostIp6tablesRules_def split: if_splits)
  have e: "installHostIp6tablesRules env p i w = nf_result (runNetfilter (pn_host env) ''ip6tables'' (build_rules (v6_dest h ?cfg) i) w1)"
    using h ne assms(2) by (simp add: installHostIp6tablesRules_def b executeIp6tables_def no_hooks_def runIp6tables_def)
  have r: "runs_netfilter (pn_host env) view ''ip6tables''" using assms(1) by (simp add: netfilter_node_def)
  have bi: "has_builtin (view ''ip6tables'' w1)" using assms(3) by (simp add: v)
  have w': "w' = snd (runNetfilter (pn_host env) ''ip6tables'' (build_rules (v6_dest h ?cfg) i) w1)"
    using e assms(5) by (simp add: nf_result_def)
  have "view ''iptables'' w' = view ''iptables'' w"
    unfolding w' using runNetfilter_other [OF r, of "''iptables''" "build_rules (v6_dest h ?cfg) i" w1] build_rules_commands v by simp
  moreover have "view ''ip6tables'' w' = installed (v6_dest h ?cfg) i (view ''ip6tables'' w)"
    if d: "dest_ok (v6_dest h ?cfg)"
    using runNetfilter_runs [OF r, OF build_rules_commands, OF nf_run_install [OF bi assms(4) d]] v w' by auto
  ultimately show ?thesis using ne by blast
qed

lemma configurePod_ok:
  assumes "configurePod env pod (p, w) = (None, p', w')"
  obtains ns i x w1 v4 v6 w2 where "validateRuntime pod = None" and "findNetnsPath env pod w = Inr ns"
    and "findHostInterface env pod ns w = (Inr (i, x), w1)"
    and "DiscoverPodIPs (pn_host env) (ps_Ips pod) ns w1 = (Inr (v4, v6), w2)"
    and "install_rules env p i (v6 \<noteq> []) w2 = (None, w')"
    and "p' = p\<lparr>pl_pods := (pl_pods p)(ps_Id pod \<mapsto>
           \<lparr>ns_hostInterface = i, ns_podIP = v4, ns_podIPv6 = v6, ns_isDualStack = (v6 \<noteq> []), ns_runtimeClass = getRuntimeClass pod\<rparr>)\<rparr>"
  using assms by (auto simp: configurePod_def Let_def split: option.splits sum.splits prod.splits)

definition protects :: "(string \<Rightarrow> 'w \<Rightarrow> nf_tables) \<Rightarrow> pluginConfig \<Rightarrow> podNetworkState \<Rightarrow> 'w \<Rightarrow> bool" where
  "protects view cfg st w \<longleftrightarrow>
     isolates (v4_dest cfg) (ns_hostInterface st) (view ''iptables'' w) \<and>
     (ns_isDualStack st \<longrightarrow>
        (\<exists>h. h \<noteq> [] \<and> (dest_ok (v6_dest h cfg) \<longrightarrow> isolates (v6_dest h cfg) (ns_hostInterface st) (view ''ip6tables'' w))))"

lemma install_rules_protects:
  assumes "netfilter_node env view" and "no_hooks p" and "has_builtin (view ''iptables'' w)" and "has_builtin (view ''ip6tables'' w)"
    and "iface_ok i" and "dest_ok (v4_dest (pl_cfg p))" and "install_rules env p i dual w = (None, w')"
    and "ns_hostInterface st = i" and "ns_isDualStack st = dual"
  shows "protects view (pl_cfg p) st w'"
proof -
  obtain w1 where w1: "installHostIptablesRules env p i w = (None, w1)"
    "view ''iptables'' w1 = installed (v4_dest (pl_cfg p)) i (view ''iptables'' w)" "view ''ip6tables'' w1 = view ''ip6tables'' w"
    using install_v4 [OF assms(1,2,3,5,6)] by blast
  have g4: "isolates (v4_dest (pl_cfg p)) i (view ''iptables'' w1)"
    unfolding w1(2) by (intro guarded_isolates guarded_installed assms)
  show ?thesis
  proof (cases dual)
    case False
    then show ?thesis using assms(7-9) w1(1) g4 by (simp add: install_rules_def protects_def)
  next
    case True
    then have i6: "installHostIp6tablesRules env p i w1 = (None, w')" using assms(7) w1(1) by (simp add: install_rules_def)
    have b6: "has_builtin (view ''ip6tables'' w1)" using assms(4) by (simp add: w1(3))
    obtain h where h: "h \<noteq> []" "view ''iptables'' w' = view ''iptables'' w1"
      "dest_ok (v6_dest h (pl_cfg p)) \<longrightarrow> view ''ip6tables'' w' = installed (v6_dest h (pl_cfg p)) i (view ''ip6tables'' w1)"
      using install_v6 [OF assms(1,2) b6 assms(5) i6] by blast
    have "dest_ok (v6_dest h (pl_cfg p)) \<longrightarrow> isolates (v6_dest h (pl_cfg p)) i (view ''ip6tables'' w')"
      using h(3) guarded_isolates [OF guarded_installed [OF b6] assms(5)] by simp
    then show ?thesis using g4 h(1,2) assms(8) by (auto simp: protects_def)
  qed
qed


subsection \<open>The admin server\<close>

definition admin_request :: "string \<Rightarrow> string \<Rightarrow> payload \<Rightarrow> AdminRequest" where
  "admin_request meth path data =
     \<lparr>ar_method = meth, ar_path = path, ar_query = (\<lambda>_. []), ar_bind = None, ar_unbind = None,
      ar_pod = (case data of PodPayload info \<Rightarrow> Inr info | _ \<Rightarrow> Inl ''EOF''),
      ar_pods = (case data of PodsPayload pods \<Rightarrow> Inr pods | _ \<Rightarrow> Inl ''EOF'')\<rparr>"

definition admin_status :: "AdminResponse \<Rightarrow> nat" where
  "admin_status r = (case r of HttpError n _ \<Rightarrow> n | _ \<Rightarrow> 200)"

definition plain_uid :: "string \<Rightarrow> bool" where
  "plain_uid uid \<longleftrightarrow> uid \<noteq> [] \<and> list_all (\<lambda>c. hex_val c \<noteq> None \<or> c = CHR ''-'') uid"

definition pod_path :: "string \<Rightarrow> bool" where
  "pod_path path \<longleftrightarrow> path = ''/api/v1/pods'' \<or> (\<exists>uid. path = ''/api/v1/pods/'' @ uid \<and> plain_uid uid)"

text \<open>
  The server at the configured address is the node proxy: requests are handled by its
  AdminHandler on the table \<open>tbl\<close>, and JSON brings the payload across.  Commands leave the table alone.
\<close>

definition serves_admin :: "'w plugin_env \<Rightarrow> ('w \<Rightarrow> PodMap) \<Rightarrow> string \<Rightarrow> bool" where
  "serves_admin env tbl url \<longleftrightarrow>
     (\<forall>meth path data w. pod_path path \<longrightarrow>
        (\<exists>ord body w'. pn_do env (fst (newAdminHTTPClient url)) meth (snd (newAdminHTTPClient url) @ path) data w =
             (Inr (admin_status (fst (AdminHandler (admin_request meth path data) ord (tbl w))), body), w') \<and>
           tbl w' = snd (AdminHandler (admin_request meth path data) ord (tbl w)))) \<and>
     (\<forall>bin args w. tbl (snd (he_exec (pn_host env) bin args w)) = tbl w)"

lemma notify_admin:
  assumes "serves_admin env tbl (pc_adminURL (pl_cfg p))" and "pc_adminURL (pl_cfg p) \<noteq> []" and "pod_path path"
    and "notifyPodUpdate env p meth path data w = (None, w')"
  shows "\<exists>ord. tbl w' = snd (AdminHandler (admin_request meth path data) ord (tbl w))"
proof -
  let ?c = "fst (newAdminHTTPClient (pc_adminURL (pl_cfg p)))" and ?b = "snd (newAdminHTTPClient (pc_adminURL (pl_cfg p)))"
  obtain ord body w1 where d: "pn_do env ?c meth (?b @ path) data w =
      (Inr (admin_status (fst (AdminHandler (admin_request meth path data) ord (tbl w))), body), w1)"
    "tbl w1 = snd (AdminHandler (admin_request meth path data) ord (tbl w))"
    using assms(1,3) unfolding serves_admin_def by blast
  have "notify_loop env ?c meth (?b @ path) data (Suc 2) [] w = (None, w')"
    using assms(2,4) by (simp add: notifyPodUpdate_def case_prod_beta numeral_3_eq_3 numeral_2_eq_2)
  from this [unfolded notify_loop.simps(2)] have "w' = w1" using d(1) by (simp split: option.splits if_splits)
  then show ?thesis using d(2) by blast
qed

lemma post_pod: "snd (AdminHandler (admin_request ''POST'' ''/api/v1/pods'' (PodPayload info)) ord pm) = AddOrUpdatePod info pm"
  by (simp add: AdminHandler_def handle_pods_def admin_request_def)

lemma delete_pod:
  assumes "plain_uid uid"
  shows "snd (AdminHandler (admin_request ''DELETE'' (''/api/v1/pods/'' @ uid) NoPayload) ord pm) = RemovePod uid pm"
proof -
  have "''/api/v1/pods/'' @ uid \<noteq> ''/api/v1/pods''" by simp
  moreover have "has_prefix (''/api/v1/pods/'' @ uid) ''/api/v1/pods/''" "trim_prefix (''/api/v1/pods/'' @ uid) ''/api/v1/pods/'' = uid"
    by (simp_all only: has_prefix_append trim_prefix_append)
  ultimately show ?thesis
    using assms by (simp add: AdminHandler_def handle_pod_def admin_request_def plain_uid_def Let_def)
qed

lemma runNetfilter_keeps:
  "(\<And>bin args w. obs (snd (he_exec host bin args w)) = obs w) \<Longrightarrow> obs (snd (runNetfilter host bin cmds w)) = obs w"
proof (induction cmds arbitrary: w)
  case (Cons args cmds)
  have "\<And>r w'. he_exec host bin args w = (r, w') \<Longrightarrow> obs w' = obs w" using Cons.prems by (metis snd_conv)
  then show ?case using Cons by (auto split: prod.split exec_result.split)
qed simp

lemma install_rules_tbl:
  assumes "serves_admin env tbl url" and "no_hooks p"
  shows "tbl (snd (install_rules env p i dual w)) = tbl w"
proof -
  have k: "\<And>bin args w. tbl (snd (he_exec (pn_host env) bin args w)) = tbl w" using assms(1) by (simp add: serves_admin_def)
  have n: "tbl (snd (nf_result (runNetfilter (pn_host env) bin cmds w))) = tbl w" for bin cmds w
    using runNetfilter_keeps [of tbl, OF k] by (simp add: nf_result_def)
  have v: "tbl (snd (installHostIp6tablesRules env p i w)) = tbl w" for w
  proof (cases "if pc_proxyHostV6 (pl_cfg p) = [] then DiscoverNodeIPv6 (pn_host env) w else (pc_proxyHostV6 (pl_cfg p), w)")
    case (Pair h w1)
    have "tbl w1 = tbl w" using Pair DiscoverNodeIPv6_obs [of "pn_host env" tbl w] k by (auto simp: reads_only_def split: if_splits)
    then show ?thesis
      using Pair n assms(2) by (simp add: installHostIp6tablesRules_def executeIp6tables_def no_hooks_def runIp6tables_def)
  qed
  obtain e w1 where w1: "installHostIptablesRules env p i w = (e, w1)" by fastforce
  then have "tbl w1 = tbl w"
    using n assms(2) by (metis (no_types) installHostIptablesRules_def executeIptables_def no_hooks_def runIptables_def option.simps(4) snd_conv)
  then show ?thesis using w1 v [of w1] by (auto simp: install_rules_def split: option.split)
qed

lemma run_registers:
  assumes "serves_admin env tbl (pc_adminURL (pl_cfg p))" and "pc_adminURL (pl_cfg p) \<noteq> []" and "no_hooks p"
    and "matchesPod (Some pod)" and "RunPodSandbox env (Some pod) (p, w) = (None, p', w')"
  shows "\<exists>st. pl_pods p' (ps_Id pod) = Some st \<and> pl_cfg p' = pl_cfg p \<and> no_hooks p' \<and>
    tbl w' = AddOrUpdatePod (pod_info pod (Some st)) (tbl w)"
proof -
  obtain p1 w1 where c: "configurePod env pod (p, w) = (None, p1, w1)"
    and n: "notifyPodUpdate env p1 ''POST'' ''/api/v1/pods'' (PodPayload (pod_info pod (pl_pods p1 (ps_Id pod)))) w1 = (None, w')"
    and p': "p' = p1\<lparr>pl_activePods := (pl_activePods p1)(ps_Uid pod \<mapsto> pod_info pod (pl_pods p1 (ps_Id pod)))\<rparr>"
    using assms(4,5) by (auto simp: RunPodSandbox_def Let_def split: option.splits prod.splits)
  obtain ns i x w2 v4 v6 w3 where o: "findHostInterface env pod ns w = (Inr (i, x), w2)"
    "DiscoverPodIPs (pn_host env) (ps_Ips pod) ns w2 = (Inr (v4, v6), w3)" "install_rules env p i (v6 \<noteq> []) w3 = (None, w1)"
    and p1: "p1 = p\<lparr>pl_pods := (pl_pods p)(ps_Id pod \<mapsto>
           \<lparr>ns_hostInterface = i, ns_podIP = v4, ns_podIPv6 = v6, ns_isDualStack = (v6 \<noteq> []), ns_runtimeClass = getRuntimeClass pod\<rparr>)\<rparr>"
    by (rule configurePod_ok [OF c]) (rule that; assumption)
  have ro: "reads_only (pn_host env) tbl" using assms(1) by (simp add: serves_admin_def reads_only_def)
  have "tbl w1 = tbl w"
    using FindHostInterface_obs [OF ro, of "ps_Ips pod" ns w] DiscoverPodIPs_obs [OF ro, of "ps_Ips pod" ns w2]
      install_rules_tbl [OF assms(1,3), of i "v6 \<noteq> []" w3] o by (simp add: findHostInterface_def)
  moreover have "\<exists>ord. tbl w' = snd (AdminHandler (admin_request ''POST'' ''/api/v1/pods''
      (PodPayload (pod_info pod (pl_pods p1 (ps_Id pod))))) ord (tbl w1))"
    using notify_admin [of env tbl p1 "''/api/v1/pods''", OF _ _ _ n] assms(1,2) p1 by (simp add: pod_path_def)
  ultimately show ?thesis using p' p1 assms(3) by (auto simp: post_pod no_hooks_def)
qed

lemma cleanup_removes:
  assumes "serves_admin env tbl (pc_adminURL (pl_cfg p))" and "pc_adminURL (pl_cfg p) \<noteq> []" and "no_hooks p"
    and "plain_uid (ps_Uid pod)" and "cleanupPod env pod (p, w) = (None, p', w')"
  shows "tbl w' = RemovePod (ps_Uid pod) (tbl w)"
proof -
  let ?p = "p\<lparr>pl_pods := (pl_pods p)(ps_Id pod := None), pl_activePods := (pl_activePods p)(ps_Uid pod := None)\<rparr>"
  have k: "\<And>bin args w. tbl (snd (he_exec (pn_host env) bin args w)) = tbl w" using assms(1) by (simp add: serves_admin_def)
  have ro: "reads_only (pn_host env) tbl" using k by (simp add: reads_only_def)
  obtain i w1 where i: "cleanup_iface env pod (p, w) = (i, w1)" by fastforce
  have fh: "findHostInterface env pod ns w = (r, w') \<Longrightarrow> tbl w' = tbl w" for ns r w'
    using FindHostInterface_obs [OF ro, of "ps_Ips pod" ns w] by (simp add: findHostInterface_def)
  have t1: "tbl w1 = tbl w"
    using i by (auto simp: cleanup_iface_def split: option.splits sum.splits prod.splits dest: fh)
  have n: "tbl (snd (runNetfilter (pn_host env) bin cmds w)) = tbl w" for bin cmds w using runNetfilter_keeps [of tbl, OF k] .
  have rm: "tbl (snd (removeHostIptablesRules env ?p i w1)) = tbl w1"
    using n [of "''iptables''" "buildHostCleanupRules i" w1] n [of "''ip6tables''" "buildHostCleanupRules i"] assms(3)
    by (auto simp: removeHostIptablesRules_def executeIptables_def executeIp6tables_def runIptables_def runIp6tables_def
        no_hooks_def nf_result_def split: prod.splits option.splits)
  obtain e w2 where e: "(if i \<noteq> [] then removeHostIptablesRules env ?p i w1 else (None, w1)) = (e, w2)" by fastforce
  have t2: "tbl w2 = tbl w1" using e rm by (auto split: if_splits)
  have n: "notifyPodUpdate env ?p ''DELETE'' (''/api/v1/pods/'' @ ps_Uid pod) NoPayload w2 = (None, w')"
    using assms(4,5) i e unfolding cleanupPod_def Let_def prod.case by (auto simp: plain_uid_def split: option.splits prod.splits)
  have pp: "pod_path (''/api/v1/pods/'' @ ps_Uid pod)" using assms(4) unfolding pod_path_def by blast
  have a: "serves_admin env tbl (pc_adminURL (pl_cfg ?p))" "pc_adminURL (pl_cfg ?p) \<noteq> []" using assms(1,2) by simp_all
  obtain ord where "tbl w' = snd (AdminHandler (admin_request ''DELETE'' (''/api/v1/pods/'' @ ps_Uid pod) NoPayload) ord (tbl w2))"
    using notify_admin [OF a(1), OF a(2), OF pp, OF n] by (rule exE)
  then show ?thesis unfolding delete_pod [OF assms(4)] t2 t1 .
qed

subsection \<open>All sequences of events\<close>

text \<open>
  Whatever the runtime and the timer do, the configuration stays, the table of active pods is keyed by the pods' UIDs,
  and no entry claims a binding: the plugin registers pods, it never binds them.
\<close>

definition active_ok :: "'w portalPlugin \<Rightarrow> bool" where
  "active_ok p \<longleftrightarrow> (\<forall>uid info. pl_activePods p uid = Some info \<longrightarrow>
     pi_UID info = uid \<and> \<not> pi_Bound info \<and> pi_Policy info = [] \<and> pi_Identity info = [])"

lemma active_ok_info: "active_ok p \<Longrightarrow> active_ok (p\<lparr>pl_activePods := (pl_activePods p)(ps_Uid pod \<mapsto> pod_info pod st)\<rparr>)"
  by (auto simp: active_ok_def pod_info_def zero_pod_def)

lemma active_ok_cong: "pl_activePods p' = pl_activePods p \<Longrightarrow> active_ok p \<Longrightarrow> active_ok p'"
  by (simp add: active_ok_def)

lemma configurePod_keeps:
  assumes "configurePod env pod (p, w) = (e, p', w')"
  shows "pl_activePods p' = pl_activePods p \<and> pl_cfg p' = pl_cfg p"
  using assms by (auto simp: configurePod_def Let_def split: option.splits sum.splits prod.splits)

lemma cleanupPod_keeps:
  assumes "cleanupPod env pod (p, w) = (e, p', w')"
  shows "pl_activePods p' = (pl_activePods p)(ps_Uid pod := None) \<and> pl_cfg p' = pl_cfg p"
  using assms by (auto simp: cleanupPod_def Let_def split: option.splits prod.splits if_splits)

lemma sync_pod_keeps:
  assumes "sync_pod env pod (errs, synced, p, w) = (errs', synced', p', w')" and "active_ok p"
  shows "active_ok p' \<and> pl_cfg p' = pl_cfg p"
proof (cases "matchesPod pod")
  case True
  obtain e p1 w1 where c: "configurePod env (the pod) (p, w) = (e, p1, w1)" by (metis prod_cases3)
  note k = configurePod_keeps [OF c]
  have "active_ok p1" using k assms(2) by (simp add: active_ok_def)
  then show ?thesis
    using assms(1) True c k active_ok_info [of p1 "the pod"] by (auto simp: sync_pod_def Let_def split: option.splits if_splits)
qed (use assms in \<open>simp add: sync_pod_def\<close>)

lemma sync_pods_keep:
  assumes "fold (sync_pod env) pods st = (errs', synced', p', w')" and "active_ok (fst (snd (snd st)))"
  shows "active_ok p' \<and> pl_cfg p' = pl_cfg (fst (snd (snd st)))"
  using assms
proof (induction pods arbitrary: st)
  case (Cons pod pods)
  obtain errs synced p w where st: "st = (errs, synced, p, w)" by (metis prod_cases4)
  obtain errs1 synced1 p1 w1 where s: "sync_pod env pod st = (errs1, synced1, p1, w1)" by (metis prod_cases4)
  have "active_ok p1 \<and> pl_cfg p1 = pl_cfg p" using sync_pod_keeps [OF s [unfolded st]] Cons.prems(2) st by simp
  then show ?case using Cons.IH [of "sync_pod env pod st"] Cons.prems s st by auto
qed auto

lemma plugin_step_keeps:
  assumes "active_ok (fst s)"
  shows "active_ok (fst (plugin_step env ev s)) \<and> pl_cfg (fst (plugin_step env ev s)) = pl_cfg (fst s)"
proof -
  obtain p w where s: "s = (p, w)" by fastforce
  have del: "active_ok p1 \<Longrightarrow> cleanupPod env pod (p1, w1) = (e, p2, w2) \<Longrightarrow> active_ok p2 \<and> pl_cfg p2 = pl_cfg p1" for pod p1 w1 e p2 w2
    using cleanupPod_keeps [of env pod p1 w1 e p2 w2] by (auto simp: active_ok_def split: if_splits)
  have stop: "active_ok (fst (snd (cleanupPod env pod (p1, w1)))) \<and> pl_cfg (fst (snd (cleanupPod env pod (p1, w1)))) = pl_cfg p1"
    if "active_ok p1" for pod p1 w1
    using del [OF that, of pod w1] by (cases "cleanupPod env pod (p1, w1)") auto
  have run: "active_ok (fst (snd (RunPodSandbox env pod (p, w)))) \<and> pl_cfg (fst (snd (RunPodSandbox env pod (p, w)))) = pl_cfg p" for pod
  proof (cases "matchesPod pod")
    case True
    obtain e p1 w1 where c: "configurePod env (the pod) (p, w) = (e, p1, w1)" by (metis prod_cases3)
    note k = configurePod_keeps [OF c]
    have "active_ok p1" using k assms s by (simp add: active_ok_def)
    then show ?thesis
      using True c k stop active_ok_info [of p1 "the pod"] assms s
      by (auto simp: RunPodSandbox_def Let_def split: option.splits prod.splits)
  qed (use assms s in \<open>simp add: RunPodSandbox_def\<close>)
  have sync: "active_ok (fst (snd (Synchronize env pods (p, w)))) \<and> pl_cfg (fst (snd (Synchronize env pods (p, w)))) = pl_cfg p" for pods
  proof -
    obtain errs synced p1 w1 where f: "fold (sync_pod env) pods ([], [], p\<lparr>pl_activePods := (\<lambda>_. None)\<rparr>, w) = (errs, synced, p1, w1)"
      by (metis prod_cases4)
    have "active_ok p1 \<and> pl_cfg p1 = pl_cfg p" using sync_pods_keep [OF f] by (simp add: active_ok_def)
    then show ?thesis using f by (auto simp: Synchronize_def Let_def split: option.splits prod.splits)
  qed
  show ?thesis
    using s assms run sync stop by (cases ev) (auto simp: plugin_step_def StopPodSandbox_def RemovePodSandbox_def)
qed

theorem plugin_never_binds:
  "active_ok (fst (fold (plugin_step env) evs (new_plugin cfg, w))) \<and> pl_cfg (fst (fold (plugin_step env) evs (new_plugin cfg, w))) = cfg"
proof -
  have "active_ok (fst s) \<Longrightarrow> active_ok (fst (fold (plugin_step env) evs s)) \<and> pl_cfg (fst (fold (plugin_step env) evs s)) = pl_cfg (fst s)" for s
  proof (induction evs arbitrary: s)
    case (Cons ev evs)
    then show ?case using plugin_step_keeps [of s env ev] Cons.IH [of "plugin_step env ev s"] by simp
  qed simp
  from this [of "(new_plugin cfg, w)"] show ?thesis by (simp add: active_ok_def new_plugin_def)
qed

subsection \<open>Refusals and failures\<close>


lemma host_network_refused:
  assumes "ps_Linux pod = Some nss" and "network_path nss \<noteq> [] \<longrightarrow> pn_stat env (network_path nss) w = pn_stat env ''/proc/self/ns/net'' w"
  shows "\<exists>e. findNetnsPath env pod w = Inl e"
  using assms by (auto simp: findNetnsPath_def Let_def split: sum.splits)

text \<open>
  Cleaning up after a pod that has no IPv6 address fails: its rules are removed from
  iptables, but the same commands are then run with ip6tables, where its chains were never created,
  and flushing a missing chain is not among the tolerated failures.  The proxy is not told that the
  pod is gone (the result does not depend on what an HTTP request would do), and the plugin has
  forgotten the pod.
\<close>

theorem single_stack_cleanup_fails:
  assumes "netfilter_node env view" and "no_hooks p" and "pl_pods p (ps_Id pod) = Some st" and "iface_ok (ns_hostInterface st)"
    and "has_builtin t" and "unknown_iface (ns_hostInterface st) t" and "view ''iptables'' w = installed d (ns_hostInterface st) t"
    and "has_builtin (view ''ip6tables'' w)" and "view ''ip6tables'' w ''nat'' (pr_chain (ns_hostInterface st)) = None"
  shows "\<exists>e p' w'. (\<forall>f. cleanupPod (env\<lparr>pn_do := f\<rparr>) pod (p, w) = (Some (CleanupFailed (ns_hostInterface st) (podID (Some pod)) e), p', w')) \<and>
    view ''iptables'' w' = t \<and> pl_pods p' (ps_Id pod) = None \<and> pl_activePods p' (ps_Uid pod) = None"
proof -
  let ?i = "ns_hostInterface st" and ?h = "pn_host env"
  let ?p = "p\<lparr>pl_pods := (pl_pods p)(ps_Id pod := None), pl_activePods := (pl_activePods p)(ps_Uid pod := None)\<rparr>"
  have r: "runs_netfilter ?h view ''iptables''" "runs_netfilter ?h view ''ip6tables''" using assms(1) by (simp_all add: netfilter_node_def)
  have "nf_run (buildHostCleanupRules ?i) (view ''iptables'' w) = Some t"
    unfolding assms(7) by (rule nf_run_cleanup [OF assms(5,4,6)])
  from runNetfilter_runs [OF r(1), OF cleanup_commands, OF this]
  obtain w1 where w1': "runNetfilter ?h ''iptables'' (buildHostCleanupRules ?i) w = (None, w1)" "view ''iptables'' w1 = t"
    "\<forall>b. b \<noteq> ''iptables'' \<longrightarrow> view b w1 = view b w" by (elim exE conjE) (rule that)
  then have w1: "runNetfilter ?h ''iptables'' (buildHostCleanupRules ?i) w = (None, w1)" "view ''iptables'' w1 = t"
    "view ''ip6tables'' w1 = view ''ip6tables'' w" by simp_all
  have b: "has_builtin (view ''ip6tables'' w1)" "view ''ip6tables'' w1 ''nat'' (pr_chain ?i) = None" using assms(8,9) by (simp_all add: w1(3))
  obtain e w2 where w2: "runNetfilter ?h ''ip6tables'' (buildHostCleanupRules ?i) w1 = (Some e, w2)"
    "\<forall>b. b \<noteq> ''ip6tables'' \<longrightarrow> view b w2 = view b w1"
    using run_missing_chain [OF r(2), OF b(1), OF assms(4), OF b(2)] by (elim exE conjE) (rule that)
  have v: "view ''iptables'' w2 = t" using w2(2) w1(2) by simp
  have ne: "?i \<noteq> []" using assms(4) by (simp add: iface_ok_def)
  have "removeHostIptablesRules (env\<lparr>pn_do := f\<rparr>) ?p ?i w = (Some (NfFailed e), w2)" for f
    using assms(2) w1(1) w2(1)
    by (simp add: removeHostIptablesRules_def executeIptables_def executeIp6tables_def runIptables_def runIp6tables_def no_hooks_def nf_result_def)
  then have "cleanupPod (env\<lparr>pn_do := f\<rparr>) pod (p, w) = (Some (CleanupFailed ?i (podID (Some pod)) (NfFailed e)), ?p, w2)" for f
    using assms(3) ne by (simp add: cleanupPod_def cleanup_iface_def Let_def)
  then show ?thesis using v by (intro exI [of _ "NfFailed e"] exI [of _ ?p] exI [of _ w2]) simp
qed

text \<open>
  A node without the iptables program counts as protected: runNetfilter returns no error when the
  program is not found, so that the pod is configured although no rule is in place.
\<close>

theorem missing_iptables_fails_open:
  assumes "\<And>args w. he_exec (pn_host env) ''iptables'' args w = (ExecNotFound, w)" and "no_hooks p"
    and "validateRuntime pod = None" and "findNetnsPath env pod w = Inr ns"
    and "findHostInterface env pod ns w = (Inr (i, x), w1)"
    and "DiscoverPodIPs (pn_host env) (ps_Ips pod) ns w1 = (Inr (v4, []), w2)"
  shows "\<exists>p'. configurePod env pod (p, w) = (None, p', w2)"
proof -
  have "runNetfilter (pn_host env) ''iptables'' cmds w2 = (None, w2)" for cmds using assms(1) by (cases cmds) simp_all
  then have "installHostIptablesRules env p i w2 = (None, w2)"
    using assms(2) by (simp add: installHostIptablesRules_def executeIptables_def no_hooks_def runIptables_def nf_result_def)
  then have "install_rules env p i False w2 = (None, w2)" by (simp add: install_rules_def)
  then show ?thesis using assms(3-6) by (simp add: configurePod_def)
qed

text \<open>
  A late removal cuts off the pod's successor: the pod table is indexed by the pod's UID, the
  runtime's sandboxes by their ids.  When the sandbox of a pod was replaced by a new one and the
  runtime removes the old one, which has no namespace any more, the plugin forgets the running pod
  and the proxy removes it.
\<close>

theorem late_remove_unregisters:
  assumes "serves_admin env tbl (pc_adminURL (pl_cfg p))" and "pc_adminURL (pl_cfg p) \<noteq> []" and "no_hooks p"
    and "matchesPod (Some old)" and "plain_uid (ps_Uid old)" and "ps_Uid old = ps_Uid pod" and "ps_Id old \<noteq> ps_Id pod"
    and "pl_pods p (ps_Id pod) = Some st" and "pl_pods p (ps_Id old) = None" and "findNetnsPath env old w = Inl e"
    and "RemovePodSandbox env (Some old) (p, w) = (None, p', w')"
  shows "pl_pods p' (ps_Id pod) = Some st \<and> pl_activePods p' (ps_Uid pod) = None \<and> tbl w' = RemovePod (ps_Uid pod) (tbl w)"
proof -
  have c: "cleanupPod env old (p, w) = (None, p', w')" using assms(4,11) by (simp add: RemovePodSandbox_def)
  have "p' = p\<lparr>pl_pods := (pl_pods p)(ps_Id old := None), pl_activePods := (pl_activePods p)(ps_Uid old := None)\<rparr>"
    using c by (auto simp: cleanupPod_def Let_def split: prod.splits option.splits if_splits)
  then show ?thesis using cleanup_removes [OF assms(1-3,5) c] assms(6-8) by simp
qed

text \<open>
  The background synchronisation can bring a removed pod back: it sends the pods it has read
  before it released the lock, and the admin server takes every pod it is sent.
\<close>

text \<open>
  A synchronisation that lists no intercepted pod says nothing to the proxy, so that pods registered
  there before the plugin was restarted stay in its table.
\<close>

lemma empty_synchronize_silent:
  assumes "list_all (\<lambda>pod. \<not> matchesPod pod) pods"
  shows "Synchronize env pods (p, w) = (None, p\<lparr>pl_activePods := (\<lambda>_. None)\<rparr>, w)"
proof -
  have "fold (sync_pod env) pods st = st" for st
    using assms by (induction pods arbitrary: st) (auto simp: sync_pod_def split: prod.split)
  then show ?thesis by (simp add: Synchronize_def)
qed

lemma put_pods: "snd (AdminHandler (admin_request ''PUT'' ''/api/v1/pods'' (PodsPayload pods)) ord pm) = SynchronizePods pods ord pm"
  by (simp add: AdminHandler_def handle_pods_def admin_request_def)

theorem stale_sync_restores:
  assumes "serves_admin env tbl (pc_adminURL (pl_cfg p))" and "pc_adminURL (pl_cfg p) \<noteq> []" and "pods \<noteq> []"
    and "pn_do env (fst (newAdminHTTPClient (pc_adminURL (pl_cfg p)))) ''GET'' (snd (newAdminHTTPClient (pc_adminURL (pl_cfg p))) @ ''/api/v1/pods'') NoPayload w
           = (Inr (200, Some body), w1)"
    and "\<And>url. pn_url_error env url = None" and "pn_count env body = Some n" and "n < length pods"
  shows "\<exists>ord. tbl (sync_push env p pods w) = SynchronizePods pods ord (tbl w1)"
proof -
  let ?c = "fst (newAdminHTTPClient (pc_adminURL (pl_cfg p)))" and ?b = "snd (newAdminHTTPClient (pc_adminURL (pl_cfg p)))"
  have pp: "pod_path ''/api/v1/pods''" by (simp add: pod_path_def)
  have s: "sync_push env p pods w = snd (notifyPodUpdate env p ''PUT'' ''/api/v1/pods'' (PodsPayload pods) w1)"
    unfolding sync_push_def Let_def case_prod_beta using assms(3-7) by simp
  have ok: "admin_status (fst (AdminHandler (admin_request ''PUT'' ''/api/v1/pods'' (PodsPayload pods)) ord pm)) = 200" for ord pm
    by (simp add: AdminHandler_def handle_pods_def admin_request_def admin_status_def)
  obtain ord bd w2 where d: "pn_do env ?c ''PUT'' (?b @ ''/api/v1/pods'') (PodsPayload pods) w1 =
      (Inr (admin_status (fst (AdminHandler (admin_request ''PUT'' ''/api/v1/pods'' (PodsPayload pods)) ord (tbl w1))), bd), w2)"
    "tbl w2 = snd (AdminHandler (admin_request ''PUT'' ''/api/v1/pods'' (PodsPayload pods)) ord (tbl w1))"
    using assms(1) [unfolded serves_admin_def, THEN conjunct1, rule_format, OF pp, of "''PUT''" "PodsPayload pods" w1]
    by (elim exE conjE) (rule that)
  have "notifyPodUpdate env p ''PUT'' ''/api/v1/pods'' (PodsPayload pods) w1 =
      notify_loop env ?c ''PUT'' (?b @ ''/api/v1/pods'') (PodsPayload pods) (Suc 2) [] w1"
    using assms(2) by (simp add: notifyPodUpdate_def case_prod_beta)
  also have "\<dots> = (None, w2)" unfolding notify_loop.simps(2) using d(1) assms(5) ok by simp
  finally show ?thesis using s d(2) put_pods by (intro exI [of _ ord]) simp
qed

subsection \<open>Instances\<close>

text \<open>A node whose netfilter programs and admin server behave as documented.\<close>

type_synonym sample_world = "node \<times> PodMap"

definition sample_plugin_host :: "sample_world host_env" where
  "sample_plugin_host =
     \<lparr>he_exec = (\<lambda>bin args w. (fst (node_exec bin args (fst w)), (snd (node_exec bin args (fst w)), snd w))),
      he_ifname = (\<lambda>n w. he_ifname sample_host n ()), he_ifaddrs = (\<lambda>w. None)\<rparr>"

definition sample_plugin_env :: "sample_world plugin_env" where
  "sample_plugin_env =
     \<lparr>pn_host = sample_plugin_host,
      pn_stat = (\<lambda>path w. if path = ''/proc/self/ns/net'' then Inr 0 else Inr 1),
      pn_url_error = (\<lambda>_. None),
      pn_do = (\<lambda>c m u d w.
        let r = AdminHandler (admin_request m (drop 11 u) d) [] (snd w)
        in (Inr (admin_status (fst r), Some []), (fst w, snd r))),
      pn_wait = (\<lambda>w. (None, w)), pn_count = (\<lambda>_. Some 0)\<rparr>"

definition sample_view :: "string \<Rightarrow> sample_world \<Rightarrow> nf_tables" where
  "sample_view bin w = fst w bin"

definition sample_plugin_cfg :: pluginConfig where
  "sample_plugin_cfg = (flag_config (\<lambda>_. None) (\<lambda>_. []))\<lparr>pc_proxyHost := ''10.0.0.1''\<rparr>"

definition sample_sandbox :: PodSandbox where
  "sample_sandbox =
     \<lparr>ps_Id = ''s1'', ps_Uid = ''ab-1'', ps_Name = ''agent'', ps_Namespace = ''default'',
      ps_Labels = [''service-portal.gke.io/intercept'' \<mapsto> ''true''], ps_Annotations = (\<lambda>_. None), ps_RuntimeHandler = ''runc'',
      ps_Ips = [''10.8.0.4''], ps_Linux = Some [(''network'', ''/run/netns/a'')]\<rparr>"

lemma sample_netfilter: "netfilter_node sample_plugin_env sample_view"
proof -
  have m: "nf_message e (nf_text e)" for e by (cases e) (simp_all only: nf_message_def nf_text_def nf_error.case, code_simp+)
  have "runs_netfilter sample_plugin_host sample_view bin" if "bin = ''iptables'' \<or> bin = ''ip6tables''" for bin
    unfolding runs_netfilter_def using that m
    by (auto simp: sample_plugin_host_def node_exec_def sample_view_def split: sum.splits)
  moreover have "reads_only sample_plugin_host (sample_view b)" for b
    by (simp add: reads_only_def sample_plugin_host_def node_exec_def sample_view_def)
  ultimately show ?thesis
    by (simp add: netfilter_node_def http_keeps_def sample_plugin_env_def sample_view_def Let_def)
qed

lemma sample_admin_url: "newAdminHTTPClient (pc_adminURL sample_plugin_cfg) = (UnixClient ''/run/service-portal/portal.sock'', ''http://unix'')"
  "pc_adminURL sample_plugin_cfg \<noteq> []"
  by (simp_all add: sample_plugin_cfg_def flag_config_def flag_or_env_def envOrDefault_def newAdminHTTPClient_def
      DefaultAdminSocketPath_def has_prefix_def trim_prefix_def)

lemma sample_serves: "serves_admin sample_plugin_env snd (pc_adminURL sample_plugin_cfg)"
proof -
  have d: "drop 11 (''http://unix'' @ path) = path" for path :: string by simp
  show ?thesis
    unfolding serves_admin_def sample_admin_url fst_conv snd_conv sample_plugin_env_def plugin_env.select_convs Let_def d
    by (auto simp: sample_plugin_host_def)
qed

lemma sample_hooks: "no_hooks (new_plugin cfg)"
  by (simp add: no_hooks_def new_plugin_def)

lemma sample_v4_ok: "dest_ok (v4_dest sample_plugin_cfg)"
proof -
  have "v4_dest sample_plugin_cfg = sample_dest"
    by (simp add: v4_dest_def sample_plugin_cfg_def flag_config_def flag_or_env_def envOrDefault_def sample_dest_def)
  then show ?thesis by simp
qed

lemma sample_iface_ok: "iface_ok ''veth17''"
  by code_simp

lemma sample_matches: "matchesPod (Some sample_sandbox)"
  by (simp add: matchesPod_def sample_sandbox_def map_str_def)

lemma sample_discover: "DiscoverPodIPs sample_plugin_host [''10.8.0.4''] ''/run/netns/a'' w = (Inr (''10.8.0.4'', []), w)"
proof -
  have f: "fold take_pod_ip [''10.8.0.4''] ([], []) = (''10.8.0.4'', [])" by code_simp
  have p: "ParsePodIPv6 [] = []" by code_simp
  show ?thesis
    unfolding DiscoverPodIPs_def f by (simp add: nsenter_addr_def sample_plugin_host_def node_exec_def sample_host_def p)
qed

lemma sample_find: "findHostInterface sample_plugin_env sample_sandbox ''/run/netns/a'' w = (Inr (''veth17'', ''10.8.0.4''), w)"
proof -
  have d: "DiscoverPodIPs sample_plugin_host [''10.8.0.4''] ''/run/netns/a'' w = (Inr (''10.8.0.4'', []), w)" by (rule sample_discover)
  have "FindHostInterface sample_plugin_host [''10.8.0.4''] ''/run/netns/a'' w = (Inr (''veth17'', ''10.8.0.4''), w)"
    by (rule host_interface_found [of _ _ _ sample_links _ "sample_links ! 1", OF _ _ _ _ _ d])
       (simp_all add: sample_plugin_host_def node_exec_def sample_host_def sample_links_def link_ok_def peered_def is_space_def)
  then show ?thesis by (simp add: findHostInterface_def sample_plugin_env_def sample_sandbox_def)
qed

lemma sample_netns: "validateRuntime sample_sandbox = None" "findNetnsPath sample_plugin_env sample_sandbox w = Inr ''/run/netns/a''"
proof -
  have "isSupportedRuntime ''runc''" by code_simp
  then show "validateRuntime sample_sandbox = None" by (simp add: validateRuntime_def getRuntimeClass_def sample_sandbox_def)
  show "findNetnsPath sample_plugin_env sample_sandbox w = Inr ''/run/netns/a''"
    by (simp add: findNetnsPath_def network_path_def sample_sandbox_def sample_plugin_env_def)
qed

lemma sample_ids: "ps_Id sample_sandbox = ''s1''" "ps_Uid sample_sandbox = ''ab-1''" "ps_Annotations sample_sandbox = (\<lambda>_. None)"
  "ps_Ips sample_sandbox = [''10.8.0.4'']"
  by (simp_all add: sample_sandbox_def)

definition sample_start :: "sample_world portalPlugin \<times> sample_world" where
  "sample_start = (new_plugin sample_plugin_cfg, (\<lambda>_. empty_tables, NewPodMap))"

lemma sample_started:
  obtains p' w' where "RunPodSandbox sample_plugin_env (Some sample_sandbox) sample_start = (None, p', w')"
    and "pl_pods p' ''s1'' = Some \<lparr>ns_hostInterface = ''veth17'', ns_podIP = ''10.8.0.4'', ns_podIPv6 = [], ns_isDualStack = False,
           ns_runtimeClass = ''runc''\<rparr>"
    and "pl_cfg p' = sample_plugin_cfg" and "no_hooks p'"
    and "fst w' ''iptables'' = installed (v4_dest sample_plugin_cfg) ''veth17'' empty_tables" and "fst w' ''ip6tables'' = empty_tables"
    and "snd w' = AddOrUpdatePod (pod_info sample_sandbox (pl_pods p' ''s1'')) NewPodMap"
proof -
  let ?p = "new_plugin sample_plugin_cfg :: sample_world portalPlugin" and ?w = "(\<lambda>_. empty_tables, NewPodMap) :: sample_world"
  have c: "pl_cfg ?p = sample_plugin_cfg" by (simp add: new_plugin_def)
  obtain w1 where w1: "installHostIptablesRules sample_plugin_env ?p ''veth17'' ?w = (None, w1)"
    "sample_view ''iptables'' w1 = installed (v4_dest sample_plugin_cfg) ''veth17'' (sample_view ''iptables'' ?w)"
    "sample_view ''ip6tables'' w1 = sample_view ''ip6tables'' ?w"
    using install_v4 [OF sample_netfilter sample_hooks _ sample_iface_ok, of ?w sample_plugin_cfg] sample_v4_ok
    by (auto simp: c sample_view_def)
  have i: "install_rules sample_plugin_env ?p ''veth17'' False ?w = (None, w1)" using w1(1) by (simp add: install_rules_def)
  have pm: "snd w1 = NewPodMap" using install_rules_tbl [OF sample_serves sample_hooks, of "sample_plugin_cfg" "''veth17''" False ?w] i by simp
  let ?st = "\<lparr>ns_hostInterface = ''veth17'', ns_podIP = ''10.8.0.4'', ns_podIPv6 = [], ns_isDualStack = False, ns_runtimeClass = ''runc''\<rparr>"
  let ?p1 = "?p\<lparr>pl_pods := [''s1'' \<mapsto> ?st]\<rparr>"
  have cf: "configurePod sample_plugin_env sample_sandbox (?p, ?w) = (None, ?p1, w1)"
    using sample_netns(1) sample_netns(2) [of ?w] sample_find [of ?w] sample_discover [of ?w] i
    by (simp add: configurePod_def sample_plugin_env_def) (simp add: sample_sandbox_def getRuntimeClass_def new_plugin_def)
  define info where "info = pod_info sample_sandbox (Some ?st)"
  have url: "''http://unix'' @ ''/api/v1/pods'' = ''http://unix/api/v1/pods''" "drop 11 ''http://unix/api/v1/pods'' = ''/api/v1/pods''" by simp_all
  have st: "admin_status (fst (AdminHandler (admin_request ''POST'' ''/api/v1/pods'' (PodPayload info)) [] pm)) = 200" for pm
    by (simp add: AdminHandler_def handle_pods_def admin_request_def admin_status_def)
  have nl: "notify_loop sample_plugin_env cl ''POST'' ''http://unix/api/v1/pods'' (PodPayload info) (Suc 2) [] w1 = (None, (fst w1, AddOrUpdatePod info NewPodMap))" for cl
    unfolding notify_loop.simps(2)
    by (simp add: sample_plugin_env_def Let_def url(2) st post_pod pm)
  have n: "notifyPodUpdate sample_plugin_env ?p1 ''POST'' ''/api/v1/pods'' (PodPayload info) w1 = (None, (fst w1, AddOrUpdatePod info NewPodMap))"
    using nl sample_admin_url by (simp add: notifyPodUpdate_def new_plugin_def)
  have "RunPodSandbox sample_plugin_env (Some sample_sandbox) sample_start =
      (None, ?p1\<lparr>pl_activePods := (pl_activePods ?p1)(''ab-1'' \<mapsto> info)\<rparr>, (fst w1, AddOrUpdatePod info NewPodMap))"
    using sample_matches sample_netns(1) cf n
    unfolding RunPodSandbox_def sample_start_def by (simp add: sample_ids info_def [symmetric])
  then show ?thesis
    by (rule that) (use w1 in \<open>simp_all add: sample_view_def info_def new_plugin_def no_hooks_def\<close>)
qed




end
