(* ===== verification/Portal_Serve.thy ===== *)
theory Portal_Serve
  imports Portal_Run
begin

text \<open>
  The second half of \<^verbatim>\<open>Run\<close> in pkg/portals/server.go: what happens once everything is set up.  The admin server
  changes the pod table, a SIGHUP reloads the rules, the HTTP and HTTPS servers may fail, the context may be
  cancelled, and \<^verbatim>\<open>Run\<close> waits for the first error or the cancellation and then returns.  These are the
  events of a state machine; the order in which they happen is arbitrary, and where an error and the
  cancellation are both there, Go's \<^verbatim>\<open>select\<close> may take either.
  Shown: whatever happened, the router consults the pod table as the admin server left it, the
  error channel has room for every error, and after a cancellation everything that was opened has been closed.
\<close>

subsection \<open>What is opened\<close>

datatype resource = AdminServer | AdminListener | AdminSocket string | DnsListener DnsConfig | HttpServer | HttpsServer

text \<open>In the order in which the shutdown closes them; every handler \<^verbatim>\<open>Run\<close> builds is a certificate provider.\<close>

definition serve_resources :: "Plan \<Rightarrow> resource list" where
  "serve_resources plan =
     (case pl_admin plan of
        None \<Rightarrow> []
      | Some (AdminUnix path _) \<Rightarrow> [AdminServer, AdminListener, AdminSocket path]
      | Some (AdminTCP _) \<Rightarrow> [AdminServer]) @
     map DnsListener (pl_dns plan) @ [HttpServer] @ (if pl_handler plan = NilHandler then [] else [HttpsServer])"

definition close_message :: "resource \<Rightarrow> string" where
  "close_message r =
     (case r of
        AdminServer \<Rightarrow> ''Admin server shutdown failed: ''
      | AdminListener \<Rightarrow> ''Admin listener close error: ''
      | AdminSocket _ \<Rightarrow> ''Admin socket remove error: ''
      | DnsListener _ \<Rightarrow> ''DNS server shutdown failed: ''
      | HttpServer \<Rightarrow> ''HTTP server shutdown failed: ''
      | HttpsServer \<Rightarrow> ''HTTPS server shutdown failed: '')"

subsection \<open>Serving\<close>

text \<open>
  \<open>sv_pods\<close> is the table that the admin server and the router share; \<open>sv_result\<close> is what \<^verbatim>\<open>Run\<close> has returned: nothing
  yet, nil, or an error.
\<close>

record serving =
  sv_handler :: handler
  sv_pods :: "PodMap option"
  sv_http :: bool
  sv_https :: bool
  sv_errs :: "string list"
  sv_cancelled :: bool
  sv_open :: "resource list"
  sv_log :: "string list"
  sv_result :: "string option option"

definition start_serving :: "Plan \<Rightarrow> serving" where
  "start_serving plan =
     \<lparr>sv_handler = pl_handler plan, sv_pods = pl_podMap plan, sv_http = True, sv_https = (pl_handler plan \<noteq> NilHandler), sv_errs = [],
      sv_cancelled = False, sv_open = serve_resources plan, sv_log = [], sv_result = None\<rparr>"

text \<open>The handler, whose pod table is the shared one.\<close>

definition current_handler :: "serving \<Rightarrow> handler" where
  "current_handler s =
     (case sv_handler s of
        RouterHandler rr \<Rightarrow> RouterHandler (rr\<lparr>rr_podMap := sv_pods s\<rparr>)
      | h \<Rightarrow> h)"

text \<open>Closing everything in turn: a failure is logged and what failed stays open.\<close>

definition shutdown_servers :: "(resource \<Rightarrow> string option) \<Rightarrow> serving \<Rightarrow> serving" where
  "shutdown_servers closing s =
     s\<lparr>sv_open := filter (\<lambda>r. closing r \<noteq> None) (sv_open s),
       sv_log := sv_log s @ ''Shutting down servers...'' #
         concat (map (\<lambda>r. case closing r of None \<Rightarrow> [] | Some e \<Rightarrow> [close_message r @ e]) (sv_open s)),
       sv_http := False, sv_https := False\<rparr>"

definition reload_rules :: "load_env \<Rightarrow> dir_entry list \<Rightarrow> RuleRouter \<Rightarrow> serving \<Rightarrow> serving" where
  "reload_rules le entries rr s =
     (case loadRules le entries rr of
        ([], rr') \<Rightarrow> s\<lparr>sv_handler := RouterHandler rr', sv_log := sv_log s @ [''Configuration successfully reloaded!'']\<rparr>
      | (_, rr') \<Rightarrow> s\<lparr>sv_handler := RouterHandler rr', sv_log := sv_log s @ [''Error reloading configuration'']\<rparr>)"

datatype serve_event =
    AdminRequested AdminRequest "string list"
  | Sighup "dir_entry list"
  | HttpFails string
  | HttpsFails string
  | Cancelled
  | TakeError
  | TakeDone

text \<open>One event; \<^const>\<open>None\<close> when it cannot happen.\<close>

definition serve_step :: "load_env \<Rightarrow> (resource \<Rightarrow> string option) \<Rightarrow> serve_event \<Rightarrow> serving \<Rightarrow> serving option" where
  "serve_step le closing ev s =
     (case ev of
        AdminRequested r ord \<Rightarrow>
          (case sv_pods s of
             Some pm \<Rightarrow> if AdminServer \<in> set (sv_open s) then Some (s\<lparr>sv_pods := Some (snd (AdminHandler r ord pm))\<rparr>) else None
           | None \<Rightarrow> None)
      | Sighup entries \<Rightarrow>
          (case sv_handler s of
             RouterHandler rr \<Rightarrow> if sv_cancelled s then None else Some (reload_rules le entries rr s)
           | _ \<Rightarrow> None)
      | HttpFails e \<Rightarrow>
          if sv_http s then Some (s\<lparr>sv_http := False, sv_errs := sv_errs s @ [''HTTP server failed: '' @ e]\<rparr>) else None
      | HttpsFails e \<Rightarrow>
          if sv_https s then Some (s\<lparr>sv_https := False, sv_errs := sv_errs s @ [''HTTPS server failed: '' @ e]\<rparr>) else None
      | Cancelled \<Rightarrow> Some (s\<lparr>sv_cancelled := True\<rparr>)
      | TakeError \<Rightarrow>
          (case sv_errs s of
             e # es \<Rightarrow> if sv_result s = None then Some (s\<lparr>sv_errs := es, sv_result := Some (Some e)\<rparr>) else None
           | [] \<Rightarrow> None)
      | TakeDone \<Rightarrow>
          if sv_result s = None \<and> sv_cancelled s then Some ((shutdown_servers closing s)\<lparr>sv_result := Some None\<rparr>) else None)"

inductive serve_reachable :: "load_env \<Rightarrow> (resource \<Rightarrow> string option) \<Rightarrow> Plan \<Rightarrow> serving \<Rightarrow> bool" for le closing plan where
  serve_start: "serve_reachable le closing plan (start_serving plan)"
| serve_next: "serve_reachable le closing plan s \<Longrightarrow> serve_step le closing ev s = Some s' \<Longrightarrow> serve_reachable le closing plan s'"

subsection \<open>Invariants\<close>

lemma reload_same [simp]:
  "sv_pods (reload_rules le es rr s) = sv_pods s" "sv_open (reload_rules le es rr s) = sv_open s" "sv_errs (reload_rules le es rr s) = sv_errs s"
  "sv_http (reload_rules le es rr s) = sv_http s" "sv_https (reload_rules le es rr s) = sv_https s"
  "sv_result (reload_rules le es rr s) = sv_result s" "sv_cancelled (reload_rules le es rr s) = sv_cancelled s"
  "sv_handler (reload_rules le es rr s) = RouterHandler (snd (loadRules le es rr))"
  by (simp_all add: reload_rules_def split: prod.split list.split)

lemmas serve_step_cases = serve_step_def [unfolded shutdown_servers_def]

lemma serve_handler_kind:
  assumes "serve_reachable le closing plan s" and "pl_handler plan = RouterHandler rr"
  shows "\<exists>rr'. sv_handler s = RouterHandler rr'"
  using assms
proof (induction rule: serve_reachable.induct)
  case (serve_next s ev s')
  then show ?case
    by (auto simp: serve_step_cases split: serve_event.splits option.splits if_splits handler.splits list.splits)
qed (simp add: start_serving_def)

lemma serve_pods_reachable:
  assumes "serve_reachable le closing plan s" and "pl_podMap plan = Some pm" and "pm_reachable pm"
  shows "\<exists>pm'. sv_pods s = Some pm' \<and> pm_reachable pm'"
  using assms
proof (induction rule: serve_reachable.induct)
  case (serve_next s ev s')
  then show ?case
    by (auto simp: serve_step_cases intro: pm_admin split: serve_event.splits option.splits if_splits handler.splits list.splits)
qed (simp add: start_serving_def)

text \<open>The error channel has room for two errors; no server waits to report its own.\<close>

lemma serve_errors_fit:
  assumes "serve_reachable le closing plan s"
  shows "length (sv_errs s) + of_bool (sv_http s) + of_bool (sv_https s) \<le> 2"
  using assms
proof (induction rule: serve_reachable.induct)
  case (serve_next s ev s')
  then show ?case
    by (auto simp: serve_step_cases split: serve_event.splits option.splits if_splits handler.splits list.splits)
qed (simp add: start_serving_def)

lemma serve_open_inv:
  assumes "serve_reachable le closing plan s"
  shows "if sv_result s = Some None then sv_cancelled s \<and> sv_open s = filter (\<lambda>r. closing r \<noteq> None) (serve_resources plan)
    else sv_open s = serve_resources plan"
  using assms
proof (induction rule: serve_reachable.induct)
  case (serve_next s ev s')
  then show ?case
    by (auto simp: serve_step_cases split: serve_event.splits option.splits if_splits handler.splits list.splits)
qed (simp add: start_serving_def)


subsection \<open>Properties\<close>


text \<open>
  Run comes to an end and cleans up: once the context is cancelled (or a server has failed) it can return; when it has
  returned without an error the context was cancelled, every listener and the admin socket have been asked to close,
  whatever happened to the others, and what is left is exactly what could not be closed.
\<close>

theorem serving_shuts_down:
  assumes "serve_reachable le closing plan s"
  shows "(sv_cancelled s \<longrightarrow> sv_result s = None \<longrightarrow> (\<exists>s'. serve_step le closing TakeDone s = Some s' \<and> sv_result s' = Some None)) \<and>
    (sv_errs s \<noteq> [] \<longrightarrow> sv_result s = None \<longrightarrow> (\<exists>s'. serve_step le closing TakeError s = Some s' \<and> sv_result s' = Some (Some (hd (sv_errs s))))) \<and>
    (sv_result s = Some None \<longrightarrow> sv_cancelled s \<and> set (sv_open s) = {r \<in> set (serve_resources plan). closing r \<noteq> None})"
  using serve_open_inv [OF assms] by (auto simp: serve_step_cases neq_Nil_conv)

text \<open>
  When Run returns because a server failed, nothing is closed: the admin socket, the DNS listeners and the other
  server are left as they are.
\<close>

lemma error_leaves_open:
  "serve_reachable le closing plan s \<Longrightarrow> sv_result s = Some (Some e) \<Longrightarrow> sv_open s = serve_resources plan"
  using serve_open_inv [of le closing plan s] by simp

text \<open>A reload never changes what the router does with the pod table, and a failed one changes nothing in it.\<close>

lemma failed_reload_keeps_rules:
  assumes "loadRules le entries rr = (e # errs, rr')" and "sv_handler s = RouterHandler rr"
  shows "sv_handler (reload_rules le entries rr s) = sv_handler s"
  using assms by (auto simp: loadRules_def split: if_splits sum.splits)


lemma serving_shuts_down_witness:
  "\<exists>plan s. Run sample_io [] sample_cfg (sample_env ''/rules'') = Inr plan \<and>
     serve_step sample_load (\<lambda>_. None) Cancelled (start_serving plan) = Some s \<and>
     (\<exists>s'. serve_step sample_load (\<lambda>_. None) TakeDone s = Some s' \<and> sv_result s' = Some None \<and> sv_open s' = [])"
proof -
  obtain plan where p: "Run sample_io [] sample_cfg (sample_env ''/rules'') = Inr plan" using sample_run [of "[]" "''/rules''"] by blast
  obtain s where s: "serve_step sample_load (\<lambda>_. None) Cancelled (start_serving plan) = Some s" "sv_cancelled s" "sv_result s = None"
    by (simp add: serve_step_def start_serving_def)
  have r: "serve_reachable sample_load (\<lambda>_. None) plan s" using serve_next [OF serve_start s(1)] .
  obtain s' where s': "serve_step sample_load (\<lambda>_. None) TakeDone s = Some s'" "sv_result s' = Some None"
    using serving_shuts_down [OF r] s(2,3) by blast
  have "set (sv_open s') = {}" using serving_shuts_down [OF serve_next [OF r s'(1)]] s'(2) by simp
  then show ?thesis using p s(1) s' by auto
qed

end
