(* ===== verification/Provider_Portals.thy ===== *)
theory Provider_Portals
  imports Portal_Run
begin

text \<open>
  The portals of single providers (gemini-portal, anthropic-portal, github-portal), which run the portal server
  with a configuration of their own and a transport that logs requests and responses, and the two
  commands of the general portal (\<^verbatim>\<open>all-in-one-portal\<close>, \<^verbatim>\<open>service-portal\<close>).  A transport returns what it
  wrote to the log beside its result.  The decoders of message bodies (JSON, protocol buffers, gzip)
  and what \<^verbatim>\<open>fmt\<close> prints for their values are parameters; each gives the text that the log line ends
  with.
\<close>

subsection \<open>What the transports use\<close>

record provider_env =
  pv_url :: "URL \<Rightarrow> string"
  pv_status :: "Response \<Rightarrow> string"
  pv_read_error :: "Body \<Rightarrow> string"
  pv_close :: "Body \<Rightarrow> string option"
  pv_messages :: "bytes \<Rightarrow> (string \<times> (string \<times> string) list) option"
  pv_gzip :: "bytes \<Rightarrow> string + (string + bytes) \<times> string option"
  pv_content :: "bytes \<Rightarrow> (string \<times> string) list option"
  pv_contents :: "bytes \<Rightarrow> (bytes list \<times> string list) option"
  pv_content_pb :: "bytes \<Rightarrow> string + string \<times> string"
  pv_grpc_request :: "bytes \<Rightarrow> string + (string \<times> string) list"
  pv_candidates :: "bytes \<Rightarrow> (string \<times> string) option list option"
  pv_grpc_response :: "bytes \<Rightarrow> string + (string \<times> string) option list"

type_synonym 'w logged = "string list \<times> (string + Response) \<times> 'w"

text \<open>\<^verbatim>\<open>%v\<close> of a list of strings.\<close>

definition fmt_values :: "string list \<Rightarrow> string" where
  "fmt_values vs = ''['' @ join_with '' '' vs @ '']''"

text \<open>The loop over a header map, visiting the keys in the order \<open>ord\<close>.\<close>

definition log_headers :: "(string \<Rightarrow> bool) \<Rightarrow> string list \<Rightarrow> header \<Rightarrow> string list" where
  "log_headers redacts ord h =
     concat (map (\<lambda>k. case h k of
         None \<Rightarrow> []
       | Some v \<Rightarrow> [''Header '' @ k @ '': '' @ (if redacts k then ''[REDACTED]'' else fmt_values v)]) ord)"

definition log_head :: "provider_env \<Rightarrow> string \<Rightarrow> (string \<Rightarrow> bool) \<Rightarrow> string list \<Rightarrow> Request \<Rightarrow> string list" where
  "log_head env portal redacts ord req =
     [''--- '' @ portal @ '' Portal: Request Intercepted ---'', ''URL: '' @ pv_url env (rq_url req), ''Method: '' @ rq_method req]
     @ log_headers redacts ord (rq_header req)"

definition log_answer :: "provider_env \<Rightarrow> string \<Rightarrow> string list \<Rightarrow> Response \<Rightarrow> string list" where
  "log_answer env portal ord resp =
     [''--- '' @ portal @ '' Portal: Response Intercepted ---'', ''Status: '' @ pv_status env resp]
     @ log_headers (\<lambda>_. False) ord (rs_header resp)"

definition log_close :: "provider_env \<Rightarrow> string \<Rightarrow> Body \<Rightarrow> string list" where
  "log_close env what b = (case pv_close env b of None \<Rightarrow> [] | Some e \<Rightarrow> [''Error closing '' @ what @ '' body: '' @ e])"

text \<open>
  Buffering the body of the request: a body that is not there stays away (the bytes are empty then), one that
  cannot be read ends the round trip before anything is sent.
\<close>

definition buffer_request :: "provider_env \<Rightarrow> (bytes \<Rightarrow> string list) \<Rightarrow> Body option \<Rightarrow> string list \<times> (string + bytes)" where
  "buffer_request env log_body body =
     (case body of
        None \<Rightarrow> ([], Inr [])
      | Some b \<Rightarrow>
          (case read_all b of
             None \<Rightarrow> ([''Error reading request body: '' @ pv_read_error env b],
                      Inl (''reading request body for logging: '' @ pv_read_error env b))
           | Some bs \<Rightarrow> (log_close env ''request'' b @ log_body bs, Inr bs)))"

definition buffer_response :: "provider_env \<Rightarrow> (bytes \<Rightarrow> string list) \<Rightarrow> Response \<Rightarrow> string list \<times> (string + Response)" where
  "buffer_response env log_body resp =
     (let b = rs_body resp in
      case read_all b of
        None \<Rightarrow> ((''Error reading response body: '' @ pv_read_error env b) # log_close env ''response'' b,
                 Inl (''reading response body for logging: '' @ pv_read_error env b))
      | Some bs \<Rightarrow> (log_close env ''response'' b @ log_body bs, Inr (resp\<lparr>rs_body := body_of bs\<rparr>)))"

text \<open>Sending a request, and what is logged and done with its answer.\<close>

definition send_logged ::
  "'w transport \<Rightarrow> string list \<Rightarrow> (Response \<Rightarrow> string list \<times> (string + Response)) \<Rightarrow> Request \<Rightarrow> 'w \<Rightarrow> 'w logged" where
  "send_logged underlying log answer req w =
     (case underlying req w of
        (Inl e, w1) \<Rightarrow> (log @ [''Error sending request: '' @ e], Inl e, w1)
      | (Inr resp, w1) \<Rightarrow> (log @ fst (answer resp), snd (answer resp), w1))"

subsection \<open>The Gemini portal\<close>

definition gemini_redacts :: "string \<Rightarrow> bool" where
  "gemini_redacts k \<longleftrightarrow> to_lower k = ''x-goog-api-key'' \<or> to_lower k = ''authorization''"

definition log_message :: "string \<Rightarrow> string \<times> string \<Rightarrow> string" where
  "log_message what m = ''Parsed '' @ what @ '' ['' @ fst m @ '']: '' @ snd m"

definition log_bytes :: "string \<Rightarrow> bytes \<Rightarrow> string" where
  "log_bytes what bs = what @ '' Body ('' @ dec_str (length bs) @ '' bytes)''"

definition logRequestBody :: "provider_env \<Rightarrow> Request \<Rightarrow> bytes \<Rightarrow> string list" where
  "logRequestBody env req bs =
     (let contentType = hdr_get (rq_header req) ''Content-Type'' in
      if has_prefix contentType ''application/json'' then
        (case pv_contents env bs of
           Some (contents, parts) \<Rightarrow>
             if contents \<noteq> [] then
               (case parts of [] \<Rightarrow> [] | t # _ \<Rightarrow> [''Parsed Request System Prompt: '' @ t]) @
               map (\<lambda>c. case pv_content_pb env c of
                     Inl e \<Rightarrow> ''Failed to unmarshal content: '' @ e
                   | Inr m \<Rightarrow> log_message ''Request Message'' m) contents
             else [''Request Body: '' @ of_bytes bs]
         | None \<Rightarrow> [''Request Body: '' @ of_bytes bs])
      else if has_prefix contentType ''application/grpc'' then
        (if length bs \<ge> 5 then
           (case pv_grpc_request env (drop 5 bs) of
              Inr ms \<Rightarrow> map (log_message ''GRPC Request Message'') ms
            | Inl e \<Rightarrow> [''Failed to unmarshal GRPC GenerateContentRequest: '' @ e])
         else [])
      else [log_bytes ''Request'' bs])"

definition logResponseBody :: "provider_env \<Rightarrow> Response \<Rightarrow> bytes \<Rightarrow> string list" where
  "logResponseBody env resp bs =
     (let contentType = hdr_get (rs_header resp) ''Content-Type'' in
      if has_prefix contentType ''application/json'' then
        (case pv_candidates env bs of
           Some cs \<Rightarrow>
             if cs \<noteq> [] then concat (map (\<lambda>c. case c of None \<Rightarrow> [] | Some m \<Rightarrow> [log_message ''Response Content'' m]) cs)
             else [''Response Body: '' @ of_bytes bs]
         | None \<Rightarrow> [''Response Body: '' @ of_bytes bs])
      else if has_prefix contentType ''application/grpc'' then
        (if length bs \<ge> 5 then
           (case pv_grpc_response env (drop 5 bs) of
              Inr cs \<Rightarrow> concat (map (\<lambda>c. case c of None \<Rightarrow> [] | Some m \<Rightarrow> [log_message ''GRPC Response Content'' m]) cs)
            | Inl e \<Rightarrow> [''Failed to unmarshal GRPC GenerateContentResponse: '' @ e])
         else [])
      else [log_bytes ''Response'' bs])"

definition gemini_answer :: "provider_env \<Rightarrow> string list \<Rightarrow> Response \<Rightarrow> string list \<times> (string + Response)" where
  "gemini_answer env ord resp =
     (let (l, r) =
        (if has_prefix (hdr_get (rs_header resp) ''Content-Type'') ''application/grpc''
         then ([''Bypassing body logging for gRPC streaming response.''], Inr resp)
         else buffer_response env (logResponseBody env resp) resp)
      in (log_answer env ''Gemini'' ord resp @ l, r))"

text \<open>The field \<^verbatim>\<open>Underlying\<close> may be nil, for Go's default transport.\<close>

definition gemini_RoundTrip ::
  "provider_env \<Rightarrow> 'w transport \<Rightarrow> 'w transport option \<Rightarrow> string list \<Rightarrow> string list \<Rightarrow> Request \<Rightarrow> Body option \<Rightarrow> 'w \<Rightarrow> 'w logged" where
  "gemini_RoundTrip env defaultTransport field ordq ordr req body w =
     (let head = log_head env ''Gemini'' gemini_redacts ordq req;
          underlying = (case field of None \<Rightarrow> defaultTransport | Some u \<Rightarrow> u)
      in
      case buffer_request env (logRequestBody env req) body of
        (l, Inl e) \<Rightarrow> (head @ l, Inl e, w)
      | (l, Inr bs) \<Rightarrow> send_logged underlying (head @ l) (gemini_answer env ordr) (req\<lparr>rq_body := bs\<rparr>) w)"


subsection \<open>The Anthropic portal\<close>

definition anthropic_redacts :: "string \<Rightarrow> bool" where
  "anthropic_redacts k \<longleftrightarrow> k = ''X-Api-Key'' \<or> k = ''Authorization''"

definition anthropic_log_request :: "provider_env \<Rightarrow> bytes \<Rightarrow> string list" where
  "anthropic_log_request env bs =
     (case pv_messages env bs of
        Some (system, ms) \<Rightarrow>
          if ms \<noteq> [] then (''Parsed Request System Prompt: '' @ system) # map (log_message ''Request Message'') ms
          else [''Request Body: '' @ of_bytes bs]
      | None \<Rightarrow> [''Request Body: '' @ of_bytes bs])"

definition uncompressed :: "provider_env \<Rightarrow> Response \<Rightarrow> bytes \<Rightarrow> string list \<times> bytes" where
  "uncompressed env resp bs =
     (if equal_fold (hdr_get (rs_header resp) ''Content-Encoding'') ''gzip'' then
        (case pv_gzip env bs of
           Inl e \<Rightarrow> ([''Error creating gzip reader: '' @ e], bs)
         | Inr (r, closed) \<Rightarrow>
             let c = (case closed of None \<Rightarrow> [] | Some e \<Rightarrow> [''Error closing gzip reader: '' @ e]) in
             case r of
               Inl e \<Rightarrow> ((''Error reading gzip body: '' @ e) # c, bs)
             | Inr b \<Rightarrow> (c, b))
      else ([], bs))"

definition anthropic_log_response :: "provider_env \<Rightarrow> Response \<Rightarrow> bytes \<Rightarrow> string list" where
  "anthropic_log_response env resp bs =
     (let (l, ub) = uncompressed env resp bs in
      l @ (case pv_content env ub of
             Some cs \<Rightarrow>
               if cs \<noteq> [] then concat (map (\<lambda>(ty, t). if ty = ''text'' then [''Parsed Response Content [text]: '' @ t] else []) cs)
               else [''Response Body: '' @ of_bytes ub]
           | None \<Rightarrow> [''Response Body: '' @ of_bytes ub]))"

definition anthropic_answer :: "provider_env \<Rightarrow> string list \<Rightarrow> Response \<Rightarrow> string list \<times> (string + Response)" where
  "anthropic_answer env ord resp =
     (let (l, r) = buffer_response env (anthropic_log_response env resp) resp in (log_answer env ''Anthropic'' ord resp @ l, r))"

definition anthropic_RoundTrip ::
  "provider_env \<Rightarrow> 'w transport \<Rightarrow> string list \<Rightarrow> string list \<Rightarrow> Request \<Rightarrow> Body option \<Rightarrow> 'w \<Rightarrow> 'w logged" where
  "anthropic_RoundTrip env underlying ordq ordr req body w =
     (let head = log_head env ''Anthropic'' anthropic_redacts ordq req in
      case buffer_request env (anthropic_log_request env) body of
        (l, Inl e) \<Rightarrow> (head @ l, Inl e, w)
      | (l, Inr bs) \<Rightarrow> send_logged underlying (head @ l) (anthropic_answer env ordr) (req\<lparr>rq_body := bs\<rparr>) w)"

subsection \<open>The GitHub portal\<close>

definition github_redacts :: "string \<Rightarrow> bool" where
  "github_redacts k \<longleftrightarrow> k = ''Authorization''"

definition github_answer :: "provider_env \<Rightarrow> string list \<Rightarrow> Response \<Rightarrow> string list \<times> (string + Response)" where
  "github_answer env ord resp = (log_answer env ''GitHub'' ord resp, Inr resp)"

definition github_RoundTrip ::
  "provider_env \<Rightarrow> 'w transport \<Rightarrow> string list \<Rightarrow> string list \<Rightarrow> Request \<Rightarrow> 'w \<Rightarrow> 'w logged" where
  "github_RoundTrip env underlying ordq ordr req w =
     send_logged underlying (log_head env ''GitHub'' github_redacts ordq req) (github_answer env ordr) req w"

subsection \<open>Configurations\<close>

definition empty_config :: RunConfig where
  "empty_config =
     \<lparr>rc_DefaultTargetURL = [], rc_DefaultAuthHeader = [], rc_CacheTTL = 0, rc_RulesDir = [], rc_PodMap = None,
      rc_ServeDNS = False, rc_DNSBindAddr = [], rc_ProxyDNSPort = [], rc_ProxyBindAddrV6 = [], rc_DefaultAction = []\<rparr>"

definition gemini_config :: RunConfig where
  "gemini_config =
     empty_config\<lparr>rc_DefaultTargetURL := ''https://generativelanguage.googleapis.com'', rc_DefaultAuthHeader := ''x-goog-api-key''\<rparr>"

definition anthropic_config :: RunConfig where
  "anthropic_config =
     empty_config\<lparr>rc_DefaultTargetURL := ''https://api.anthropic.com'', rc_DefaultAuthHeader := ''x-api-key''\<rparr>"

definition github_config :: "(string \<Rightarrow> string) \<Rightarrow> RunConfig" where
  "github_config env =
     (let targetURL = env ''TARGET_URL'' in
      empty_config\<lparr>rc_DefaultTargetURL := (if targetURL = [] then ''https://api.github.com/'' else targetURL),
        rc_DefaultAuthHeader := ''Authorization''\<rparr>)"

text \<open>The flags of the general portals, with what they were set to or their defaults.\<close>

record portal_flags =
  pf_rulesDir :: string
  pf_serveDNS :: bool
  pf_dnsBindAddr :: string
  pf_dnsPort :: string

definition all_in_one_config :: "portal_flags \<Rightarrow> (string \<Rightarrow> string) \<Rightarrow> RunConfig" where
  "all_in_one_config flags env =
     (let e = env ''SERVE_DNS'';
          serveDNS = (if e \<noteq> [] then e = ''true'' \<or> e = ''1'' else pf_serveDNS flags);
          config = empty_config\<lparr>rc_ServeDNS := serveDNS, rc_DNSBindAddr := pf_dnsBindAddr flags, rc_ProxyDNSPort := pf_dnsPort flags\<rparr>
      in if pf_rulesDir flags \<noteq> [] then config\<lparr>rc_RulesDir := pf_rulesDir flags\<rparr> else config)"

definition service_portal_config :: "string \<Rightarrow> RunConfig" where
  "service_portal_config rulesDir =
     (if rulesDir \<noteq> [] then empty_config\<lparr>rc_RulesDir := rulesDir\<rparr> else empty_config)"

text \<open>
  The provider portals, and what \<^verbatim>\<open>SetupProxy\<close> makes of the transport of the default proxy, which by then may be
  the caching one: the GitHub portal wraps it, the other two replace it by a logging transport over
  Go's default transport.  The state carries the log beside the cache and the world; request bodies
  handed over by the proxy are always there.
\<close>

datatype provider = Gemini | Anthropic | GitHub

definition provider_config :: "provider \<Rightarrow> (string \<Rightarrow> string) \<Rightarrow> RunConfig" where
  "provider_config pv env = (case pv of Gemini \<Rightarrow> gemini_config | Anthropic \<Rightarrow> anthropic_config | GitHub \<Rightarrow> github_config env)"

definition provider_redacts :: "provider \<Rightarrow> string \<Rightarrow> bool" where
  "provider_redacts pv = (case pv of Gemini \<Rightarrow> gemini_redacts | Anthropic \<Rightarrow> anthropic_redacts | GitHub \<Rightarrow> github_redacts)"

definition provider_RoundTrip ::
  "provider \<Rightarrow> provider_env \<Rightarrow> 'w transport \<Rightarrow> string list \<Rightarrow> string list \<Rightarrow> Request \<Rightarrow> 'w \<Rightarrow> 'w logged" where
  "provider_RoundTrip pv env underlying ordq ordr req w =
     (case pv of
        Gemini \<Rightarrow> gemini_RoundTrip env underlying None ordq ordr req (Some (body_of (rq_body req))) w
      | Anthropic \<Rightarrow> anthropic_RoundTrip env underlying ordq ordr req (Some (body_of (rq_body req))) w
      | GitHub \<Rightarrow> github_RoundTrip env underlying ordq ordr req w)"

definition beside_cache :: "'w transport \<Rightarrow> ('c \<times> 'w) transport" where
  "beside_cache rt req s = (case rt req (snd s) of (r, w) \<Rightarrow> (r, (fst s, w)))"

definition setup_underlying :: "provider \<Rightarrow> 'w transport \<Rightarrow> ('c \<times> 'w) transport \<Rightarrow> ('c \<times> 'w) transport" where
  "setup_underlying pv defaultTransport current =
     (case pv of GitHub \<Rightarrow> current | _ \<Rightarrow> beside_cache defaultTransport)"

definition with_log :: "(Request \<Rightarrow> 'w \<Rightarrow> 'w logged) \<Rightarrow> (string list \<times> 'w) transport" where
  "with_log rt req s = (case rt req (snd s) of (l, r, w) \<Rightarrow> (r, (fst s @ l, w)))"


subsection \<open>Requests that differ in hidden headers\<close>

definition hides :: "(string \<Rightarrow> bool) \<Rightarrow> header \<Rightarrow> header \<Rightarrow> bool" where
  "hides R h h' \<longleftrightarrow> (\<forall>k. if R k then (h k = None) = (h' k = None) else h k = h' k)"

definition same_but :: "(string \<Rightarrow> bool) \<Rightarrow> Request \<Rightarrow> Request \<Rightarrow> bool" where
  "same_but R q q' \<longleftrightarrow>
     rq_method q = rq_method q' \<and> rq_url q = rq_url q' \<and> rq_body q = rq_body q' \<and> hides R (rq_header q) (rq_header q')"

lemma log_headers_hides:
  assumes "hides R h h'"
  shows "log_headers R ord h = log_headers R ord h'"
proof -
  have "(case h k of None \<Rightarrow> [] | Some v \<Rightarrow> [f k (if R k then x else g v)]) =
      (case h' k of None \<Rightarrow> [] | Some v \<Rightarrow> [f k (if R k then x else g v)])" for k x and f :: "string \<Rightarrow> string \<Rightarrow> string" and g
    using assms [unfolded hides_def, rule_format, of k] by (cases "R k") (auto split: option.split)
  from this [of "\<lambda>k s. ''Header '' @ k @ '': '' @ s"] show ?thesis by (simp only: log_headers_def)
qed

lemma hdr_get_hides: "hides R h h' \<Longrightarrow> \<not> R (canonical_key k) \<Longrightarrow> hdr_get h k = hdr_get h' k"
  by (simp add: hides_def hdr_get_def hdr_values_def)

lemma hides_del: "hides R h h' \<Longrightarrow> hides R (hdr_del k h) (hdr_del k h')"
  by (auto simp: hides_def hdr_del_def)

lemma hides_del_all: "hides R h h' \<Longrightarrow> hides R (fold hdr_del ks h) (fold hdr_del ks h')"
  by (induction ks arbitrary: h h') (auto intro: hides_del)

lemma hides_set: "R (canonical_key k) \<Longrightarrow> hides R (hdr_set k v h) (hdr_set k v' h)"
  by (auto simp: hides_def hdr_set_def)

lemma connection_key: "canonical_key ''Connection'' = ''Connection''"
  by code_simp

lemma hides_removeHop:
  assumes "hides R h h'" and "\<not> R ''Connection''"
  shows "hides R (removeHopByHopHeaders h) (removeHopByHopHeaders h')"
proof -
  have "hdr_get h ''Connection'' = hdr_get h' ''Connection''"
    using hdr_get_hides [OF assms(1), of "''Connection''"] assms(2) by (simp add: connection_key)
  then show ?thesis
    using assms(1) by (simp add: removeHopByHopHeaders_def Let_def hides_del_all)
qed

lemma outgoing_hides:
  assumes "R (canonical_key (hp_authheader p))" and "\<not> R ''Connection''" and "hp_token p \<noteq> []" and "t \<noteq> []"
  shows "same_but R (outgoing p r) (outgoing (p\<lparr>hp_token := t\<rparr>) r)"
proof -
  have "hides R (set_auth p h) (set_auth (p\<lparr>hp_token := t\<rparr>) h)" for h
    unfolding set_auth_def using assms(3,4) hides_set [of R "hp_authheader p"] assms(1) by (auto simp del: append_Cons)
  then show ?thesis
    using assms(2) by (simp add: same_but_def outgoing_def hides_del hides_removeHop)
qed

lemma relay_body_unbounded:
  "rw_left w = None \<Longrightarrow> rw_status w = Some st \<Longrightarrow> relay_body cs w = (False, w\<lparr>rw_body := rw_body w @ concat cs\<rparr>)"
  by (induction cs arbitrary: w) (simp_all add: rw_write_def Let_def)

lemma relay_response_body:
  assumes "rw_left w = None" and "concat (bd_chunks b) = concat (bd_chunks (rs_body resp))"
  shows "relay_response ord ordk (resp\<lparr>rs_body := b\<rparr>) w = relay_response ord ordk resp w"
proof -
  have "relay_body (bd_chunks b) (write_header c v) = relay_body (bd_chunks (rs_body resp)) (write_header c v)" if "rw_left v = None" for c v
  proof -
    obtain st where "rw_status (write_header c v) = Some st" by (cases "rw_status v") auto
    then show ?thesis using that assms(2) by (simp add: relay_body_unbounded)
  qed
  then have "relay_body (bd_chunks b) (write_header c (w\<lparr>rw_header := x\<rparr>)) =
      relay_body (bd_chunks (rs_body resp)) (write_header c (w\<lparr>rw_header := x\<rparr>))" for c x
    using assms(1) by simp
  then show ?thesis by (simp add: relay_response_def Let_def split: prod.split)
qed

subsection \<open>What a proxy relies on\<close>

text \<open>
  The interface of a transport that logs: it does not look at hidden headers, except that they are there, its
  log aside; it fails where the transport below fails; and a complete answer reaches the caller with
  the same body.
\<close>

locale logging =
  fixes redacts :: "string \<Rightarrow> bool"
    and trip :: "'w transport \<Rightarrow> Request \<Rightarrow> 'w \<Rightarrow> 'w logged"
  assumes connection_shown: "\<not> redacts ''Connection''"
    and oblivious: "same_but redacts q q' \<Longrightarrow> rt q w = rt q' w \<Longrightarrow> trip rt q w = trip rt q' w"
    and fails: "rt q w = (Inl e, w1) \<Longrightarrow> snd (trip rt q w) = (Inl e, w1)"
    and answers: "rt q w = (Inr resp, w1) \<Longrightarrow> bd_complete (rs_body resp) \<Longrightarrow>
      \<exists>b. snd (trip rt q w) = (Inr (resp\<lparr>rs_body := b\<rparr>), w1) \<and> concat (bd_chunks b) = concat (bd_chunks (rs_body resp))"
begin

lemma hides_token:
  assumes "redacts (canonical_key (hp_authheader p))" and "hp_token p \<noteq> []" and "t \<noteq> []"
    and "rt (outgoing p r) w = rt (outgoing (p\<lparr>hp_token := t\<rparr>) r) w"
  shows "trip rt (outgoing p r) w = trip rt (outgoing (p\<lparr>hp_token := t\<rparr>) r) w"
  using outgoing_hides [of redacts p t r, OF assms(1) connection_shown assms(2,3)] assms(4) by (rule oblivious)

lemma transparent:
  assumes "rw_left wr = None" and "\<And>resp w1. rt (outgoing p r) w = (Inr resp, w1) \<Longrightarrow> bd_complete (rs_body resp)"
  shows "fst (ServeHTTP (with_log (trip rt)) ord ordk p r (wr, l, w)) = fst (ServeHTTP rt ord ordk p r (wr, w)) \<and>
    snd (snd (ServeHTTP (with_log (trip rt)) ord ordk p r (wr, l, w))) = snd (ServeHTTP rt ord ordk p r (wr, w))"
proof (cases "rt (outgoing p r) w")
  case (Pair a w1)
  obtain l1 a1 w2 where t: "trip rt (outgoing p r) w = (l1, a1, w2)" by (metis prod_cases3)
  show ?thesis
  proof (cases a)
    case (Inl e)
    then show ?thesis using Pair t fails [of rt "outgoing p r" w e w1] by (auto simp: ServeHTTP_def proxyRequest_def with_log_def)
  next
    case (Inr resp)
    with Pair assms(2) obtain b where "a1 = Inr (resp\<lparr>rs_body := b\<rparr>)" "w2 = w1" "concat (bd_chunks b) = concat (bd_chunks (rs_body resp))"
      using answers [of rt "outgoing p r" w resp w1] t by auto
    then show ?thesis
      using Pair Inr t relay_response_body [OF assms(1)] by (simp add: ServeHTTP_def proxyRequest_def with_log_def)
  qed
qed

end


lemma read_all_body_of [simp]: "read_all (body_of b) = Some b"
  by (simp add: read_all_def body_of_def)

lemma buffer_body_of: "buffer_request env f (Some (body_of b)) = (log_close env ''request'' (body_of b) @ f b, Inr b)"
  by (simp add: buffer_request_def)

lemma log_head_same: "same_but R q q' \<Longrightarrow> log_head env portal R ord q = log_head env portal R ord q'"
  using log_headers_hides [of R] by (simp add: log_head_def same_but_def)

lemma content_type_shown: "canonical_key ''Content-Type'' = ''Content-Type''" "\<not> gemini_redacts ''Content-Type''"
proof -
  have "to_lower ''Content-Type'' = ''content-type''" by code_simp
  then show "\<not> gemini_redacts ''Content-Type''" by (simp add: gemini_redacts_def del: to_lower_Cons)
qed code_simp

lemma logRequestBody_same:
  assumes "same_but gemini_redacts q q'"
  shows "logRequestBody env q = logRequestBody env q'"
proof -
  have "hdr_get (rq_header q) ''Content-Type'' = hdr_get (rq_header q') ''Content-Type''"
    using assms hdr_get_hides [of gemini_redacts "rq_header q" "rq_header q'" "''Content-Type''"] content_type_shown
    by (simp add: same_but_def)
  then show ?thesis by (simp add: logRequestBody_def fun_eq_iff)
qed

text \<open>The round trips of the three portals, as sending with a prepared log and a treatment of the answer.\<close>

definition provider_log :: "provider \<Rightarrow> provider_env \<Rightarrow> string list \<Rightarrow> Request \<Rightarrow> string list" where
  "provider_log pv env ord q =
     (case pv of
        Gemini \<Rightarrow> log_head env ''Gemini'' gemini_redacts ord q @ log_close env ''request'' (body_of (rq_body q)) @ logRequestBody env q (rq_body q)
      | Anthropic \<Rightarrow> log_head env ''Anthropic'' anthropic_redacts ord q @ log_close env ''request'' (body_of (rq_body q)) @ anthropic_log_request env (rq_body q)
      | GitHub \<Rightarrow> log_head env ''GitHub'' github_redacts ord q)"

definition provider_answer :: "provider \<Rightarrow> provider_env \<Rightarrow> string list \<Rightarrow> Response \<Rightarrow> string list \<times> (string + Response)" where
  "provider_answer pv = (case pv of Gemini \<Rightarrow> gemini_answer | Anthropic \<Rightarrow> anthropic_answer | GitHub \<Rightarrow> github_answer)"

lemma provider_RoundTrip_send:
  "provider_RoundTrip pv env rt ordq ordr q w = send_logged rt (provider_log pv env ordq q) (provider_answer pv env ordr) q w"
proof -
  have "q\<lparr>rq_body := rq_body q\<rparr> = q" by simp
  then show ?thesis
    by (cases pv) (simp_all add: provider_RoundTrip_def provider_log_def provider_answer_def gemini_RoundTrip_def
        anthropic_RoundTrip_def github_RoundTrip_def buffer_body_of)
qed

lemma provider_log_same: "same_but (provider_redacts pv) q q' \<Longrightarrow> provider_log pv env ord q = provider_log pv env ord q'"
  using log_head_same [of "provider_redacts pv" q q' env _ ord] logRequestBody_same [of q q' env]
  by (cases pv) (simp_all add: provider_log_def provider_redacts_def, simp_all add: same_but_def)

lemma provider_answer_complete:
  assumes "bd_complete (rs_body resp)"
  shows "\<exists>b. snd (provider_answer pv env ord resp) = Inr (resp\<lparr>rs_body := b\<rparr>) \<and> concat (bd_chunks b) = concat (bd_chunks (rs_body resp))"
proof -
  have b: "snd (buffer_response env f resp) = Inr (resp\<lparr>rs_body := body_of (concat (bd_chunks (rs_body resp)))\<rparr>)" for f
    using assms by (simp add: buffer_response_def read_all_def Let_def)
  have s: "resp\<lparr>rs_body := rs_body resp\<rparr> = resp" by simp
  have "snd (gemini_answer env ord resp) = Inr resp \<or> snd (gemini_answer env ord resp) = snd (buffer_response env (logResponseBody env resp) resp)"
    by (simp add: gemini_answer_def split: prod.split)
  moreover have "snd (anthropic_answer env ord resp) = snd (buffer_response env (anthropic_log_response env resp) resp)"
    by (simp add: anthropic_answer_def split: prod.split)
  ultimately show ?thesis
    using b s by (cases pv) (auto simp: provider_answer_def github_answer_def body_of_def intro: exI [of _ "rs_body resp"])
qed

lemma connection_not_redacted: "\<not> provider_redacts pv ''Connection''"
proof -
  have "to_lower ''Connection'' = ''connection''" by code_simp
  then show ?thesis
    by (cases pv) (simp_all add: provider_redacts_def gemini_redacts_def anthropic_redacts_def github_redacts_def del: to_lower_Cons)
qed

interpretation provider: logging "provider_redacts pv" "\<lambda>rt. provider_RoundTrip pv env rt ordq ordr" for pv env ordq ordr
proof
  show "\<not> provider_redacts pv ''Connection''" by (rule connection_not_redacted)
  show "provider_RoundTrip pv env rt ordq ordr q w = provider_RoundTrip pv env rt ordq ordr q' w"
    if "same_but (provider_redacts pv) q q'" "rt q w = rt q' w" for q q' rt and w :: 'a
    using that provider_log_same [OF that(1)] by (simp add: provider_RoundTrip_send send_logged_def)
  show "snd (provider_RoundTrip pv env rt ordq ordr q w) = (Inl e, w1)" if "rt q w = (Inl e, w1)" for rt q e and w w1 :: 'a
    using that by (simp add: provider_RoundTrip_send send_logged_def)
  show "\<exists>b. snd (provider_RoundTrip pv env rt ordq ordr q w) = (Inr (resp\<lparr>rs_body := b\<rparr>), w1) \<and>
      concat (bd_chunks b) = concat (bd_chunks (rs_body resp))"
    if "rt q w = (Inr resp, w1)" "bd_complete (rs_body resp)" for rt q resp and w w1 :: 'a
    using that provider_answer_complete [OF that(2), of pv env ordr] by (auto simp: provider_RoundTrip_send send_logged_def)
qed


subsection \<open>Properties\<close>

lemma provider_auth_header:
  assumes "run_fallback io (provider_config pv env) env = Inr (Some p)" and "env ''UPSTREAM_AUTH_HEADER'' = []"
  shows "provider_redacts pv (canonical_key (hp_authheader p))"
proof -
  have h: "hp_authheader p = run_auth_header (provider_config pv env) env"
    using assms(1) by (auto simp: run_fallback_def Let_def split: if_splits sum.splits option.splits)
  have k: "canonical_key ''x-goog-api-key'' = ''X-Goog-Api-Key''" "to_lower ''X-Goog-Api-Key'' = ''x-goog-api-key''"
    "canonical_key ''x-api-key'' = ''X-Api-Key''" "canonical_key ''Authorization'' = ''Authorization''"
    by (code_simp, code_simp, code_simp, code_simp)
  show ?thesis
  proof (cases pv)
    case Gemini
    then have "hp_authheader p = ''x-goog-api-key''"
      using h assms(2) by (simp add: run_auth_header_def provider_config_def gemini_config_def)
    then show ?thesis by (simp only: Gemini provider_redacts_def provider.case gemini_redacts_def k simp_thms)
  next
    case Anthropic
    then have "hp_authheader p = ''x-api-key''"
      using h assms(2) by (simp add: run_auth_header_def provider_config_def anthropic_config_def)
    then show ?thesis by (simp only: Anthropic provider_redacts_def provider.case anthropic_redacts_def k simp_thms)
  next
    case GitHub
    then have "hp_authheader p = ''Authorization''"
      using h assms(2) by (simp add: run_auth_header_def provider_config_def github_config_def Let_def)
    then show ?thesis by (simp only: GitHub provider_redacts_def provider.case github_redacts_def k)
  qed
qed



text \<open>
  An answer that breaks off half-way becomes an error in the portals that buffer it, where the plain proxy would
  relay its beginning as if it were complete.
\<close>

lemma broken_answer_refused:
  assumes "rt q w = (Inr resp, w1)" and "\<not> bd_complete (rs_body resp)"
  shows "\<exists>e. snd (provider_RoundTrip Anthropic env rt ordq ordr q w) = (Inl e, w1)"
  using assms by (simp add: provider_RoundTrip_send send_logged_def provider_answer_def anthropic_answer_def buffer_response_def read_all_def Let_def)

text \<open>
  The Gemini and Anthropic portals replace the transport of the proxy instead of wrapping it: whatever caching
  transport Run had installed is never asked, and the cache stays as it is.
\<close>

lemma provider_ignores_cache:
  assumes "pv \<noteq> GitHub"
  shows "provider_RoundTrip pv env (setup_underlying pv dt ct) ordq ordr q s = provider_RoundTrip pv env (beside_cache dt) ordq ordr q s \<and>
    fst (snd (snd (provider_RoundTrip pv env (setup_underlying pv dt ct) ordq ordr q s))) = fst s"
proof -
  have u: "setup_underlying pv dt ct = beside_cache dt" using assms by (cases pv) (simp_all add: setup_underlying_def)
  show ?thesis unfolding u by (auto simp: provider_RoundTrip_send send_logged_def beside_cache_def split: prod.split sum.split)
qed

text \<open>
  With another auth header than the portal expects, the credential itself is written to the log: every header
  that the portal does not redact is.
\<close>

lemma other_header_logged:
  assumes "rq_header q k = Some [tok]" and "\<not> provider_redacts pv k" and "k \<in> set ordq"
  shows "''Header '' @ k @ '': ['' @ tok @ '']'' \<in> set (fst (provider_RoundTrip pv env rt ordq ordr q w))"
proof -
  have "''Header '' @ k @ '': ['' @ tok @ '']'' \<in> set (log_headers (provider_redacts pv) ordq (rq_header q))"
    using assms by (auto simp: log_headers_def fmt_values_def intro!: bexI [of _ k])
  then have "''Header '' @ k @ '': ['' @ tok @ '']'' \<in> set (provider_log pv env ordq q)"
    by (cases pv) (simp_all add: provider_log_def log_head_def provider_redacts_def)
  then show ?thesis by (auto simp: provider_RoundTrip_send send_logged_def split: prod.split sum.split)
qed


subsection \<open>Examples\<close>

definition sample_provider_env :: provider_env where
  "sample_provider_env =
     \<lparr>pv_url = u_path, pv_status = (\<lambda>_. ''200 OK''), pv_read_error = (\<lambda>_. ''unexpected EOF''), pv_close = (\<lambda>_. None),
      pv_messages = (\<lambda>_. None), pv_gzip = (\<lambda>_. Inl ''bad header''), pv_content = (\<lambda>_. None), pv_contents = (\<lambda>_. None),
      pv_content_pb = (\<lambda>_. Inl ''bad message''), pv_grpc_request = (\<lambda>_. Inl ''bad message''), pv_candidates = (\<lambda>_. None),
      pv_grpc_response = (\<lambda>_. Inl ''bad message'')\<rparr>"

definition sample_answer :: Response where
  "sample_answer = \<lparr>rs_status = 200, rs_header = (\<lambda>_. None), rs_body = \<lparr>bd_chunks = [to_bytes ''o'', to_bytes ''k''], bd_complete = True\<rparr>, rs_trailer = (\<lambda>_. None)\<rparr>"

definition sample_upstream :: "nat transport" where
  "sample_upstream q n = (Inr sample_answer, Suc n)"

definition sample_github :: HTTPProxy where
  "sample_github = \<lparr>hp_target = url_of ''https://api.github.com/'', hp_token = ''tok'', hp_authheader = ''Authorization''\<rparr>"

lemma sample_github_run: "run_fallback sample_io (provider_config GitHub (sample_env [])) (sample_env []) = Inr (Some sample_github)"
  by (simp add: run_fallback_def run_target_def run_rulesDir_def run_auth_header_def provider_config_def github_config_def empty_config_def
      sample_env_def sample_io_def sample_load_def sample_github_def Let_def)



end
