(* ===== verification/Node_Init.thy ===== *)
theory Node_Init
  imports Http_Proxy
begin

text \<open>
  Preparing a node: \<^verbatim>\<open>initNode\<close> of the NRI plugin (\<^verbatim>\<open>cmd/portal-nri-plugin/init.go\<close>), which creates the socket
  directory and, once, the CA of the node, and \<^verbatim>\<open>generateCA\<close> of \<^verbatim>\<open>cmd/init-service-portals/main.go\<close>.  The
  file system is a map from clean paths to files with mode and owner; every call may fail for
  reasons of the node, and then leaves whatever it leaves.  Key generation, signing and encoding
  are parameters.
\<close>

unbundle bit_operations_syntax

subsection \<open>Files\<close>

type_synonym mode = "16 word"

definition octal :: "nat \<Rightarrow> nat \<Rightarrow> nat \<Rightarrow> mode" where
  "octal u g ot = word_of_nat (64 * u + 8 * g + ot)"

record fnode =
  fl_dir :: bool
  fl_data :: bytes
  fl_mode :: mode
  fl_uid :: int
  fl_gid :: int

type_synonym fs = "string \<rightharpoonup> fnode"

datatype OsError = NotExist | NotDir | IsDir | OsFailure string

datatype os_call = CallMkdirAll string | CallChmod string | CallChown string | CallStat string | CallWriteFile string

text \<open>
  \<open>no_fails\<close> says when a call fails for another reason than the ones computed below (permissions, a full
  disk, a missing parent), and what it leaves behind; \<open>no_umask\<close>, \<open>no_uid\<close> and \<open>no_gid\<close> are those of the process.
\<close>

record node_os =
  no_fails :: "os_call \<Rightarrow> fs \<Rightarrow> (string \<times> fs) option"
  no_umask :: mode
  no_uid :: int
  no_gid :: int

type_synonym os_result = "OsError option \<times> fs"

definition os_try :: "node_os \<Rightarrow> os_call \<Rightarrow> (fs \<Rightarrow> os_result) \<Rightarrow> fs \<Rightarrow> os_result" where
  "os_try os c m fs = (case no_fails os c fs of Some (e, fs') \<Rightarrow> (Some (OsFailure e), fs') | None \<Rightarrow> m fs)"

definition parent_dirs :: "string \<Rightarrow> string list" where
  "parent_dirs path = map (\<lambda>n. take n path) (filter (\<lambda>n. path ! n = CHR ''/'') [1..<length path])"

fun mkdirs :: "node_os \<Rightarrow> mode \<Rightarrow> string list \<Rightarrow> fs \<Rightarrow> os_result" where
  "mkdirs os perm [] fs = (None, fs)"
| "mkdirs os perm (p # ps) fs =
     (case fs p of
        Some f \<Rightarrow> if fl_dir f then mkdirs os perm ps fs else (Some NotDir, fs)
      | None \<Rightarrow> mkdirs os perm ps
          (fs(p \<mapsto> \<lparr>fl_dir = True, fl_data = [], fl_mode = perm AND NOT (no_umask os), fl_uid = no_uid os, fl_gid = no_gid os\<rparr>)))"

definition MkdirAll :: "node_os \<Rightarrow> string \<Rightarrow> mode \<Rightarrow> fs \<Rightarrow> os_result" where
  "MkdirAll os path perm = os_try os (CallMkdirAll path) (mkdirs os perm (parent_dirs path @ [path]))"

definition Chmod :: "node_os \<Rightarrow> string \<Rightarrow> mode \<Rightarrow> fs \<Rightarrow> os_result" where
  "Chmod os path perm = os_try os (CallChmod path) (\<lambda>fs.
     case fs path of None \<Rightarrow> (Some NotExist, fs) | Some f \<Rightarrow> (None, fs(path \<mapsto> f\<lparr>fl_mode := perm\<rparr>)))"

text \<open>An id of -1 leaves the owner or the group as it is.\<close>

definition Chown :: "node_os \<Rightarrow> string \<Rightarrow> int \<Rightarrow> int \<Rightarrow> fs \<Rightarrow> os_result" where
  "Chown os path uid gid = os_try os (CallChown path) (\<lambda>fs.
     case fs path of
       None \<Rightarrow> (Some NotExist, fs)
     | Some f \<Rightarrow> (None, fs(path \<mapsto> f\<lparr>fl_uid := (if uid = -1 then fl_uid f else uid), fl_gid := (if gid = -1 then fl_gid f else gid)\<rparr>)))"

definition Stat :: "node_os \<Rightarrow> string \<Rightarrow> fs \<Rightarrow> OsError option" where
  "Stat os path fs = fst (os_try os (CallStat path) (\<lambda>fs. (if fs path = None then Some NotExist else None, fs)) fs)"

text \<open>\<^verbatim>\<open>os.WriteFile\<close>: the permissions count only for a file that is created.\<close>

definition WriteFile :: "node_os \<Rightarrow> string \<Rightarrow> bytes \<Rightarrow> mode \<Rightarrow> fs \<Rightarrow> os_result" where
  "WriteFile os path bs perm = os_try os (CallWriteFile path) (\<lambda>fs.
     case fs path of
       None \<Rightarrow> (None, fs(path \<mapsto> \<lparr>fl_dir = False, fl_data = bs, fl_mode = perm AND NOT (no_umask os), fl_uid = no_uid os, fl_gid = no_gid os\<rparr>))
     | Some f \<Rightarrow> if fl_dir f then (Some IsDir, fs) else (None, fs(path \<mapsto> f\<lparr>fl_data := bs\<rparr>)))"

subsection \<open>The certificate of the node\<close>

datatype KeyUsage = CertSign | CRLSign | DigitalSignature

record CATemplate =
  ca_SerialNumber :: nat
  ca_Organization :: "string list"
  ca_CommonName :: string
  ca_NotBefore :: time
  ca_NotAfter :: time
  ca_KeyUsage :: "KeyUsage list"
  ca_BasicConstraintsValid :: bool
  ca_IsCA :: bool

record 'k ca_env =
  ce_key :: "string + 'k"
  ce_serial :: "string + nat"
  ce_now :: time
  ce_later :: time
  ce_create :: "CATemplate \<Rightarrow> 'k \<Rightarrow> string + bytes"
  ce_marshal :: "'k \<Rightarrow> string + bytes"
  ce_pem :: "string \<Rightarrow> bytes \<Rightarrow> bytes"

datatype InitError =
    KeyFailed string
  | SerialFailed string
  | CertFailed string
  | MarshalFailed string
  | FileFailed string string OsError

definition ca_template :: "nat \<Rightarrow> time \<Rightarrow> time \<Rightarrow> CATemplate" where
  "ca_template serial now later =
     \<lparr>ca_SerialNumber = serial, ca_Organization = [''Service Portal Dynamic CA''], ca_CommonName = ''Service Portal Root CA'',
      ca_NotBefore = now - 24 * hour, ca_NotAfter = later + 10 * 365 * 24 * hour,
      ca_KeyUsage = [CertSign, CRLSign, DigitalSignature], ca_BasicConstraintsValid = True, ca_IsCA = True\<rparr>"

definition generateNodeCACertKey :: "'k ca_env \<Rightarrow> InitError + bytes \<times> bytes" where
  "generateNodeCACertKey ce =
     and_then (fail_with KeyFailed (ce_key ce)) (\<lambda>priv.
     and_then (fail_with SerialFailed (ce_serial ce)) (\<lambda>serial.
     and_then (fail_with CertFailed (ce_create ce (ca_template serial (ce_now ce) (ce_later ce)) priv)) (\<lambda>der.
     and_then (fail_with MarshalFailed (ce_marshal ce priv)) (\<lambda>keyBytes.
     Inr (ce_pem ce ''CERTIFICATE'' der, ce_pem ce ''PRIVATE KEY'' keyBytes)))))"

subsection \<open>Preparing the node\<close>

record nodeInitConfig =
  ni_caDir :: string
  ni_socketDir :: string
  ni_proxyUID :: int
  ni_proxyGID :: int

text \<open>A step changes the file system and may end the program; \<open>what\<close> is the message of its error.\<close>

type_synonym step = "fs \<Rightarrow> InitError option \<times> fs"

definition and_next :: "step \<Rightarrow> step \<Rightarrow> step" where
  "and_next a b fs = (case a fs of (None, fs1) \<Rightarrow> b fs1 | (Some e, fs1) \<Rightarrow> (Some e, fs1))"

definition skip_step :: step where
  "skip_step fs = (None, fs)"

definition must :: "string \<Rightarrow> string \<Rightarrow> (fs \<Rightarrow> os_result) \<Rightarrow> step" where
  "must what path m fs = (case m fs of (None, fs1) \<Rightarrow> (None, fs1) | (Some e, fs1) \<Rightarrow> (Some (FileFailed what path e), fs1))"

definition must_if_exists :: "string \<Rightarrow> string \<Rightarrow> (fs \<Rightarrow> os_result) \<Rightarrow> step" where
  "must_if_exists what path m fs =
     (case m fs of
        (None, fs1) \<Rightarrow> (None, fs1)
      | (Some e, fs1) \<Rightarrow> if e = NotExist then (None, fs1) else (Some (FileFailed what path e), fs1))"

definition init_socket_dir :: "node_os \<Rightarrow> nodeInitConfig \<Rightarrow> step" where
  "init_socket_dir os cfg =
     (let dir = path_clean (ni_socketDir cfg) in
      and_next (must ''failed to create socket dir'' dir (MkdirAll os dir (octal 7 5 0)))
      (and_next (must ''failed to chmod socket dir'' dir (Chmod os dir (octal 7 5 0)))
      (if ni_proxyUID cfg \<ge> 0 \<and> ni_proxyGID cfg \<ge> 0
       then must ''failed to chown socket dir'' dir (Chown os dir (ni_proxyUID cfg) (ni_proxyGID cfg))
       else skip_step)))"


text \<open>\<^verbatim>\<open>os.IsNotExist\<close> on the two results of \<^verbatim>\<open>os.Stat\<close>: one missing file is enough for a new pair.\<close>

definition init_ca_files :: "node_os \<Rightarrow> 'k ca_env \<Rightarrow> string \<Rightarrow> step" where
  "init_ca_files os ce caDir =
     (let dir = path_clean caDir; certPath = path_join caDir ''tls.crt''; keyPath = path_join caDir ''tls.key'' in
      and_next (must ''failed to create ca dir'' dir (MkdirAll os dir (octal 7 5 5)))
      (\<lambda>fs. case generateNodeCACertKey ce of
          Inl e \<Rightarrow> (Some e, fs)
        | Inr (certPEM, keyPEM) \<Rightarrow>
            and_next (must ''failed to write CA cert'' certPath (WriteFile os certPath certPEM (octal 6 4 4)))
              (must ''failed to write CA key'' keyPath (WriteFile os keyPath keyPEM (octal 6 0 0))) fs))"

definition init_ca_dir :: "node_os \<Rightarrow> 'k ca_env \<Rightarrow> nodeInitConfig \<Rightarrow> step" where
  "init_ca_dir os ce cfg =
     (let caDir = ni_caDir cfg; dir = path_clean caDir; certPath = path_join caDir ''tls.crt''; keyPath = path_join caDir ''tls.key'' in
      and_next
        (\<lambda>fs. if Stat os certPath fs = Some NotExist \<or> Stat os keyPath fs = Some NotExist then init_ca_files os ce caDir fs else skip_step fs)
        (if ni_proxyUID cfg \<ge> 0 \<and> ni_proxyGID cfg \<ge> 0
         then and_next (must_if_exists ''failed to chown ca dir'' dir (Chown os dir (ni_proxyUID cfg) (ni_proxyGID cfg)))
           (must_if_exists ''failed to chown ca key'' keyPath (Chown os keyPath (ni_proxyUID cfg) (ni_proxyGID cfg)))
         else skip_step))"

definition initNode :: "node_os \<Rightarrow> 'k ca_env \<Rightarrow> nodeInitConfig \<Rightarrow> step" where
  "initNode os ce cfg =
     and_next (if ni_socketDir cfg \<noteq> [] then init_socket_dir os cfg else skip_step)
       (if ni_caDir cfg \<noteq> [] then init_ca_dir os ce cfg else skip_step)"

text \<open>\<^verbatim>\<open>runInitCommand\<close>: the flags that were given, the exit code and the file system it leaves.\<close>

record init_flags =
  fg_ca_dir :: "string option"
  fg_socket_dir :: "string option"
  fg_proxy_uid :: "int option"
  fg_proxy_gid :: "int option"

definition or_default :: "'a \<Rightarrow> 'a option \<Rightarrow> 'a" where
  "or_default d v = (case v of None \<Rightarrow> d | Some x \<Rightarrow> x)"

definition runInitCommand :: "node_os \<Rightarrow> 'k ca_env \<Rightarrow> init_flags option \<Rightarrow> fs \<Rightarrow> nat \<times> fs" where
  "runInitCommand os ce flags fs =
     (case flags of
        None \<Rightarrow> (1, fs)
      | Some f \<Rightarrow>
          let cfg = \<lparr>ni_caDir = or_default ''/etc/service-portal/ca'' (fg_ca_dir f),
                     ni_socketDir = or_default ''/run/service-portal'' (fg_socket_dir f),
                     ni_proxyUID = or_default 65532 (fg_proxy_uid f), ni_proxyGID = or_default 65532 (fg_proxy_gid f)\<rparr>
          in case initNode os ce cfg fs of (None, fs1) \<Rightarrow> (0, fs1) | (Some _, fs1) \<Rightarrow> (1, fs1))"

subsection \<open>The CA of a deployment\<close>

definition write_public :: "node_os \<Rightarrow> string \<Rightarrow> bytes \<Rightarrow> step" where
  "write_public os certDir certPEM =
     (let certPath = path_join certDir ''tls.crt'' in
      and_next (must ''failed to create cert directory'' (path_clean certDir) (MkdirAll os (path_clean certDir) (octal 7 5 5)))
        (must ''failed to write public tls.crt'' certPath (WriteFile os certPath certPEM (octal 6 4 4))))"

definition write_private :: "node_os \<Rightarrow> string \<Rightarrow> int \<Rightarrow> int \<Rightarrow> bytes \<Rightarrow> bytes \<Rightarrow> step" where
  "write_private os keyDir chownUID chownGID certPEM keyPEM =
     (let dir = path_clean keyDir; certPath = path_join keyDir ''tls.crt''; keyPath = path_join keyDir ''tls.key'' in
      and_next (must ''failed to create key directory'' dir (MkdirAll os dir (octal 7 5 5)))
      (and_next (must ''failed to write private tls.crt'' certPath (WriteFile os certPath certPEM (octal 6 4 4)))
      (and_next (must ''failed to write tls.key'' keyPath (WriteFile os keyPath keyPEM (octal 6 0 0)))
      (if chownUID \<noteq> -1 \<or> chownGID \<noteq> -1
       then and_next (must ''failed to chown key directory'' dir (Chown os dir chownUID chownGID))
         (must ''failed to chown private key'' keyPath (Chown os keyPath chownUID chownGID))
       else skip_step))))"

definition generateCA :: "node_os \<Rightarrow> 'k ca_env \<Rightarrow> string \<Rightarrow> string \<Rightarrow> int \<Rightarrow> int \<Rightarrow> step" where
  "generateCA os ce certDir keyDir chownUID chownGID fs =
     (case generateNodeCACertKey ce of
        Inl e \<Rightarrow> (Some e, fs)
      | Inr (certPEM, keyPEM) \<Rightarrow>
          and_next (if certDir \<noteq> [] then write_public os certDir certPEM else skip_step)
            (if keyDir \<noteq> [] then write_private os keyDir chownUID chownGID certPEM keyPEM else skip_step) fs)"


text \<open>The command: its flags with their defaults, and its exit code.\<close>

record ca_flags =
  cf_cert_dir :: "string option"
  cf_key_dir :: "string option"
  cf_chown_uid :: "int option"
  cf_chown_gid :: "int option"

definition init_service_portals :: "node_os \<Rightarrow> 'k ca_env \<Rightarrow> ca_flags \<Rightarrow> fs \<Rightarrow> nat \<times> fs" where
  "init_service_portals os ce f fs =
     (case generateCA os ce (or_default ''/etc/service-portal/ca'' (cf_cert_dir f)) (or_default ''/etc/service-portal/ca-private'' (cf_key_dir f))
        (or_default (-1) (cf_chown_uid f)) (or_default (-1) (cf_chown_gid f)) fs of
        (None, fs1) \<Rightarrow> (0, fs1)
      | (Some _, fs1) \<Rightarrow> (1, fs1))"

subsection \<open>Calls that succeeded\<close>

lemma os_try_ok: "os_try os c m fs = (None, fs') \<Longrightarrow> m fs = (None, fs')"
  by (auto simp: os_try_def split: option.splits)

lemma and_next_ok:
  assumes "and_next a b fs = (None, fs')"
  obtains fs1 where "a fs = (None, fs1)" and "b fs1 = (None, fs')"
  using assms by (auto simp: and_next_def split: prod.splits option.splits)

lemma must_ok: "must what path m fs = (None, fs') \<Longrightarrow> m fs = (None, fs')"
  by (auto simp: must_def split: prod.splits option.splits)

lemma skip_ok [simp]: "skip_step fs = (None, fs') \<longleftrightarrow> fs' = fs"
  by (auto simp: skip_step_def)

lemma mkdirs_ok:
  assumes "mkdirs os perm ps fs = (None, fs')"
  shows "(\<forall>x f. fs x = Some f \<longrightarrow> fs' x = Some f) \<and> (\<forall>x. x \<notin> set ps \<longrightarrow> fs' x = fs x) \<and>
    (\<forall>p\<in>set ps. \<exists>f. fs' p = Some f \<and> fl_dir f)"
  using assms
proof (induction ps arbitrary: fs)
  case (Cons p ps)
  then show ?case
  proof (cases "fs p")
    case None
    define fs1 where "fs1 = fs(p \<mapsto> \<lparr>fl_dir = True, fl_data = [], fl_mode = perm AND NOT (no_umask os), fl_uid = no_uid os, fl_gid = no_gid os\<rparr>)"
    have m: "mkdirs os perm ps fs1 = (None, fs')" using Cons.prems None by (simp add: fs1_def)
    note ih = Cons.IH [OF m]
    have k: "fs1 x = Some f" if "fs x = Some f" for x f using that None by (auto simp: fs1_def)
    have o: "fs1 x = fs x" if "x \<noteq> p" for x using that by (simp add: fs1_def)
    obtain n where n: "fs1 p = Some n" "fl_dir n" by (simp add: fs1_def)
    have a: "fs' x = Some f" if "fs x = Some f" for x f using ih k [OF that] by blast
    have b: "fs' x = fs x" if "x \<notin> set (p # ps)" for x using ih o that by simp
    have c: "\<exists>f. fs' q = Some f \<and> fl_dir f" if "q \<in> set (p # ps)" for q using ih n that by (cases "q = p") auto
    show ?thesis using a b c by blast
  next
    case (Some f)
    with Cons.prems have d: "fl_dir f" and m: "mkdirs os perm ps fs = (None, fs')" by (auto split: if_splits)
    with Cons.IH [OF m] Some show ?thesis by auto
  qed
qed simp

lemma MkdirAll_ok:
  assumes "MkdirAll os d perm fs = (None, fs')"
  shows "fs x = Some f \<Longrightarrow> fs' x = Some f" and "\<not> has_prefix d x \<Longrightarrow> fs' x = fs x" and "\<exists>g. fs' d = Some g \<and> fl_dir g"
proof -
  have m: "mkdirs os perm (parent_dirs d @ [d]) fs = (None, fs')"
    using os_try_ok [of os "CallMkdirAll d"] assms by (simp add: MkdirAll_def)
  note k = mkdirs_ok [OF m]
  show "fs x = Some f \<Longrightarrow> fs' x = Some f" "\<exists>g. fs' d = Some g \<and> fl_dir g" using k by auto
  assume "\<not> has_prefix d x"
  then have "x \<notin> set (parent_dirs d @ [d])" by (auto simp: parent_dirs_def has_prefix_def take_is_prefix)
  then show "fs' x = fs x" using k by blast
qed

lemma WriteFile_ok:
  assumes "WriteFile os p bs perm fs = (None, fs')"
  obtains f where "fs' = fs(p \<mapsto> f)" and "\<not> fl_dir f" and "fl_data f = bs"
    and "fs p = None \<Longrightarrow> fl_mode f = perm AND NOT (no_umask os)" and "\<And>g. fs p = Some g \<Longrightarrow> \<not> fl_dir g \<and> f = g\<lparr>fl_data := bs\<rparr>"
proof (cases "fs p")
  case None
  let ?f = "\<lparr>fl_dir = False, fl_data = bs, fl_mode = perm AND NOT (no_umask os), fl_uid = no_uid os, fl_gid = no_gid os\<rparr>"
  have "fs' = fs(p \<mapsto> ?f)" using os_try_ok [OF assms [unfolded WriteFile_def]] None by simp
  then show thesis by (rule that) (simp_all add: None)
next
  case (Some g)
  have g: "\<not> fl_dir g" "fs' = fs(p \<mapsto> g\<lparr>fl_data := bs\<rparr>)"
    using os_try_ok [OF assms [unfolded WriteFile_def]] Some by (simp_all split: if_splits)
  show thesis by (rule that [OF g(2)]) (simp_all add: g(1) Some)
qed

definition owned :: "int \<Rightarrow> int \<Rightarrow> fnode \<Rightarrow> fnode" where
  "owned uid gid f = f\<lparr>fl_uid := (if uid = -1 then fl_uid f else uid), fl_gid := (if gid = -1 then fl_gid f else gid)\<rparr>"

lemma owned_simps [simp]: "fl_dir (owned u g f) = fl_dir f" "fl_data (owned u g f) = fl_data f" "fl_mode (owned u g f) = fl_mode f"
  "0 \<le> u \<Longrightarrow> fl_uid (owned u g f) = u" "0 \<le> g \<Longrightarrow> fl_gid (owned u g f) = g"
  by (simp_all add: owned_def)

lemma Chown_ok:
  assumes "Chown os p u g fs = (None, fs')"
  obtains f where "fs p = Some f" and "fs' = fs(p \<mapsto> owned u g f)"
  using os_try_ok [OF assms [unfolded Chown_def]] that by (simp add: owned_def split: option.splits)

lemma Chmod_ok:
  assumes "Chmod os p perm fs = (None, fs')"
  obtains f where "fs p = Some f" and "fs' = fs(p \<mapsto> f\<lparr>fl_mode := perm\<rparr>)"
  using os_try_ok [OF assms [unfolded Chmod_def]] that by (simp split: option.splits)

text \<open>A change of owner that may find its file missing.\<close>

lemma chown_if_exists_ok:
  assumes "must_if_exists what p (Chown os p u g) fs = (None, fs')"
  shows "fs' = (case fs p of None \<Rightarrow> fs | Some f \<Rightarrow> fs(p \<mapsto> owned u g f))"
proof -
  have "Chown os p u g fs = (None, fs') \<or> Chown os p u g fs = (Some NotExist, fs')"
    using assms by (auto simp: must_if_exists_def split: prod.splits option.splits if_splits)
  then show ?thesis by (auto simp: Chown_def os_try_def owned_def split: option.splits prod.splits)
qed


subsection \<open>Properties\<close>

lemma ca_paths:
  assumes "d \<noteq> []"
  shows "path_join d ''tls.crt'' \<noteq> path_join d ''tls.key''" and "\<not> has_prefix (path_clean d) (path_join d ''tls.key'')"
    and "path_join d ''tls.key'' \<noteq> path_clean d" and "path_join d ''tls.crt'' \<noteq> path_clean d"
proof -
  have kc: "(''tls.key'' :: string) \<noteq> []" "''tls.key'' \<noteq> ''.''" "''tls.key'' \<noteq> ''..''" "CHR ''/'' \<notin> set ''tls.key''"
    "(''tls.crt'' :: string) \<noteq> []" "''tls.crt'' \<noteq> ''.''" "''tls.crt'' \<noteq> ''..''" "CHR ''/'' \<notin> set ''tls.crt''"
    by simp_all
  obtain p where p: "path_join d ''tls.key'' = p @ ''tls.key''" "path_clean d = ''.'' \<or> length (path_clean d) < length (path_join d ''tls.key'')"
    by (rule path_join_plain [OF assms kc(1-4)])
  obtain q where q: "path_join d ''tls.crt'' = q @ ''tls.crt''" "path_clean d = ''.'' \<or> length (path_clean d) < length (path_join d ''tls.crt'')"
    by (rule path_join_plain [OF assms kc(5-8)])
  have "last (p @ ''tls.key'') \<noteq> last (q @ ''tls.crt'')" by simp
  then show "path_join d ''tls.crt'' \<noteq> path_join d ''tls.key''" unfolding p(1) q(1) by metis
  have l: "length (path_clean d) < length (path_join d ''tls.key'')" using p by auto
  then show "\<not> has_prefix (path_clean d) (path_join d ''tls.key'')" by (auto simp: has_prefix_def dest: prefix_length_le)
  show "path_join d ''tls.key'' \<noteq> path_clean d" using l by auto
  have "length (path_clean d) < length (path_join d ''tls.crt'')" using q by auto
  then show "path_join d ''tls.crt'' \<noteq> path_clean d" by auto
qed

lemma octal_private: "(octal 6 0 0 AND NOT u) AND octal 0 7 7 = 0"
proof -
  have "octal 6 0 0 AND octal 0 7 7 = 0" by (simp add: octal_def)
  then show ?thesis by (metis and.assoc and.commute and_zero_eq)
qed

lemma init_socket_ok:
  assumes "init_socket_dir os cfg fs = (None, fs')"
  shows "\<not> has_prefix (path_clean (ni_socketDir cfg)) x \<Longrightarrow> fs' x = fs x"
    and "\<exists>f. fs' (path_clean (ni_socketDir cfg)) = Some f \<and> fl_dir f \<and> fl_mode f = octal 7 5 0"
proof -
  let ?d = "path_clean (ni_socketDir cfg)"
  obtain fs1 fs2 where m: "MkdirAll os ?d (octal 7 5 0) fs = (None, fs1)" "Chmod os ?d (octal 7 5 0) fs1 = (None, fs2)"
    and o: "(if ni_proxyUID cfg \<ge> 0 \<and> ni_proxyGID cfg \<ge> 0 then must ''failed to chown socket dir'' ?d (Chown os ?d (ni_proxyUID cfg) (ni_proxyGID cfg))
       else skip_step) fs2 = (None, fs')"
    using assms unfolding init_socket_dir_def Let_def by (elim and_next_ok) (auto dest: must_ok)
  obtain f where f: "fs1 ?d = Some f" "fs2 = fs1(?d \<mapsto> f\<lparr>fl_mode := octal 7 5 0\<rparr>)" by (rule Chmod_ok [OF m(2)])
  have d: "fl_dir f" using MkdirAll_ok(3) [OF m(1)] f(1) by simp
  have fs': "fs' = fs2 \<or> (\<exists>g. fs2 ?d = Some g \<and> fs' = fs2(?d \<mapsto> owned (ni_proxyUID cfg) (ni_proxyGID cfg) g))"
    using o by (auto split: if_splits dest!: must_ok elim!: Chown_ok)
  show "\<exists>f. fs' ?d = Some f \<and> fl_dir f \<and> fl_mode f = octal 7 5 0" using fs' f d by auto
  assume n: "\<not> has_prefix ?d x"
  then have "x \<noteq> ?d" by (auto simp: has_prefix_def)
  then show "fs' x = fs x" using fs' f(2) MkdirAll_ok(2) [OF m(1) n] by auto
qed

lemma init_ca_files_ok:
  assumes "init_ca_files os ce d fs = (None, fs')" and "d \<noteq> []"
  obtains cert key f g fs1 where "generateNodeCACertKey ce = Inr (cert, key)"
    and "fs' = fs1(path_join d ''tls.crt'' \<mapsto> g, path_join d ''tls.key'' \<mapsto> f)"
    and "\<not> fl_dir f" and "fl_data f = key" and "\<not> fl_dir g" and "fl_data g = cert"
    and "fs (path_join d ''tls.key'') = None \<Longrightarrow> fl_mode f = octal 6 0 0 AND NOT (no_umask os)"
    and "\<And>x h. fs x = Some h \<Longrightarrow> fs1 x = Some h" and "\<And>h. fs1 (path_join d ''tls.crt'') = Some h \<Longrightarrow> \<not> fl_dir h"
    and "\<And>h. fs (path_join d ''tls.key'') = Some h \<Longrightarrow> f = h\<lparr>fl_data := key\<rparr>"
proof -
  let ?c = "path_join d ''tls.crt''" and ?k = "path_join d ''tls.key''"
  note ca = ca_paths [OF assms(2)]
  from assms(1) obtain fs1 where m: "MkdirAll os (path_clean d) (octal 7 5 5) fs = (None, fs1)"
    and r: "(case generateNodeCACertKey ce of Inl e \<Rightarrow> (Some e, fs1) | Inr (certPEM, keyPEM) \<Rightarrow>
      and_next (must ''failed to write CA cert'' ?c (WriteFile os ?c certPEM (octal 6 4 4)))
        (must ''failed to write CA key'' ?k (WriteFile os ?k keyPEM (octal 6 0 0))) fs1) = (None, fs')"
    unfolding init_ca_files_def Let_def by (elim and_next_ok) (drule must_ok, rule that; assumption)
  obtain cert key where g: "generateNodeCACertKey ce = Inr (cert, key)" using r by (auto split: sum.splits)
  from r [unfolded g] obtain fs2 where w: "WriteFile os ?c cert (octal 6 4 4) fs1 = (None, fs2)" "WriteFile os ?k key (octal 6 0 0) fs2 = (None, fs')"
    by simp (elim and_next_ok, drule must_ok, drule must_ok, rule that; assumption)
  obtain gc where gc: "fs2 = fs1(?c \<mapsto> gc)" "\<not> fl_dir gc" "fl_data gc = cert" "\<And>h. fs1 ?c = Some h \<Longrightarrow> \<not> fl_dir h \<and> gc = h\<lparr>fl_data := cert\<rparr>"
    by (rule WriteFile_ok [OF w(1)]) (rule that; assumption)
  obtain fk where fk: "fs' = fs2(?k \<mapsto> fk)" "\<not> fl_dir fk" "fl_data fk = key" "fs2 ?k = None \<Longrightarrow> fl_mode fk = octal 6 0 0 AND NOT (no_umask os)"
    "\<And>h. fs2 ?k = Some h \<Longrightarrow> \<not> fl_dir h \<and> fk = h\<lparr>fl_data := key\<rparr>"
    by (rule WriteFile_ok [OF w(2)]) (rule that; assumption)
  have k: "fs2 ?k = fs ?k" using MkdirAll_ok(2) [OF m ca(2)] gc(1) ca(1) by (metis fun_upd_other)
  show thesis
  proof (rule that [OF g, of fs1 gc fk])
    show "fs' = fs1(?c \<mapsto> gc, ?k \<mapsto> fk)" unfolding fk(1) gc(1) ..
    show "fl_mode fk = octal 6 0 0 AND NOT (no_umask os)" if "fs ?k = None" using fk(4) k that by simp
    show "fs1 x = Some h" if "fs x = Some h" for x h by (rule MkdirAll_ok(1) [OF m that])
    show "\<not> fl_dir h" if "fs1 ?c = Some h" for h using gc(4) [OF that] by (rule conjunct1)
    show "fk = h\<lparr>fl_data := key\<rparr>" if "fs ?k = Some h" for h using fk(5) [of h] k that by simp
  qed (rule fk gc)+
qed


text \<open>What the changes of owner at the end of \<^verbatim>\<open>initNode\<close> leave of a file.\<close>

lemma init_chown_ok:
  assumes "(if u \<ge> 0 \<and> g \<ge> 0
      then and_next (must_if_exists a dir (Chown os dir u g)) (must_if_exists b key (Chown os key u g)) else skip_step) fs = (None, fs')"
    and "fs x = Some f"
  shows "\<exists>h. fs' x = Some h \<and> fl_dir h = fl_dir f \<and> fl_data h = fl_data f \<and> fl_mode h = fl_mode f \<and>
    (x = key \<longrightarrow> u \<ge> 0 \<longrightarrow> g \<ge> 0 \<longrightarrow> fl_uid h = u \<and> fl_gid h = g)"
proof (cases "u \<ge> 0 \<and> g \<ge> 0")
  case True
  then have "and_next (must_if_exists a dir (Chown os dir u g)) (must_if_exists b key (Chown os key u g)) fs = (None, fs')"
    using assms(1) by simp
  then obtain fs1 where c: "must_if_exists a dir (Chown os dir u g) fs = (None, fs1)" "must_if_exists b key (Chown os key u g) fs1 = (None, fs')"
    by (rule and_next_ok)
  obtain f1 where f1: "fs1 x = Some f1" "fl_dir f1 = fl_dir f" "fl_data f1 = fl_data f" "fl_mode f1 = fl_mode f"
    using chown_if_exists_ok [OF c(1)] assms(2) by (cases "x = dir") (auto split: option.splits)
  show ?thesis
    using chown_if_exists_ok [OF c(2)] f1 True by (cases "x = key") (auto split: option.splits)
next
  case False
  then have "fs' = fs" using assms(1) by auto
  with False assms(2) show ?thesis by auto
qed

text \<open>
  Claim C39. After a successful initialisation the secrets of the node are where the proxy finds them and no one else:
  if there was no key, a new pair was generated, the key is in the CA directory, accessible
  to its owner only and, where the proxy has an id, owned by the proxy; the certificate beside it belongs to it; and the
  socket directory has mode 0750.
\<close>

theorem init_protects_key:
  assumes "initNode os ce cfg fs = (None, fs')" and "ni_caDir cfg \<noteq> []" and "fs (path_join (ni_caDir cfg) ''tls.key'') = None"
    and "\<And>fs. no_fails os (CallStat (path_join (ni_caDir cfg) ''tls.key'')) fs = None"
    and "\<not> has_prefix (path_clean (ni_socketDir cfg)) (path_join (ni_caDir cfg) ''tls.key'')"
  shows "\<exists>cert key f g. generateNodeCACertKey ce = Inr (cert, key) \<and>
    fs' (path_join (ni_caDir cfg) ''tls.key'') = Some f \<and> fl_data f = key \<and> fl_mode f AND octal 0 7 7 = 0 \<and>
    (ni_proxyUID cfg \<ge> 0 \<longrightarrow> ni_proxyGID cfg \<ge> 0 \<longrightarrow> fl_uid f = ni_proxyUID cfg \<and> fl_gid f = ni_proxyGID cfg) \<and>
    fs' (path_join (ni_caDir cfg) ''tls.crt'') = Some g \<and> fl_data g = cert \<and>
    (ni_socketDir cfg \<noteq> [] \<longrightarrow> (\<exists>d. fs' (path_clean (ni_socketDir cfg)) = Some d \<and> fl_dir d \<and> fl_mode d = octal 7 5 0))"
proof -
  let ?k = "path_join (ni_caDir cfg) ''tls.key''" and ?c = "path_join (ni_caDir cfg) ''tls.crt''"
  let ?sd = "path_clean (ni_socketDir cfg)"
  note ca = ca_paths [OF assms(2)]
  obtain fs1 where s: "(if ni_socketDir cfg \<noteq> [] then init_socket_dir os cfg else skip_step) fs = (None, fs1)"
    and i: "init_ca_dir os ce cfg fs1 = (None, fs')"
    using assms(1,2) unfolding initNode_def by (elim and_next_ok) (simp add: that)
  have k1: "fs1 ?k = None" using s init_socket_ok(1) [of os cfg fs fs1, OF _ assms(5)] assms(3) by (cases "ni_socketDir cfg = []") auto
  obtain fs2 where g: "init_ca_files os ce (ni_caDir cfg) fs1 = (None, fs2)"
    and o: "(if ni_proxyUID cfg \<ge> 0 \<and> ni_proxyGID cfg \<ge> 0
      then and_next (must_if_exists ''failed to chown ca dir'' (path_clean (ni_caDir cfg)) (Chown os (path_clean (ni_caDir cfg)) (ni_proxyUID cfg) (ni_proxyGID cfg)))
        (must_if_exists ''failed to chown ca key'' ?k (Chown os ?k (ni_proxyUID cfg) (ni_proxyGID cfg))) else skip_step) fs2 = (None, fs')"
    using i k1 assms(4) unfolding init_ca_dir_def Let_def by (elim and_next_ok) (simp add: Stat_def os_try_def that)
  obtain cert key f h fs3 where p: "generateNodeCACertKey ce = Inr (cert, key)" "fs2 = fs3(?c \<mapsto> h, ?k \<mapsto> f)" "fl_data f = key" "fl_data h = cert"
    "fs1 ?k = None \<Longrightarrow> fl_mode f = octal 6 0 0 AND NOT (no_umask os)" "\<And>x d. fs1 x = Some d \<Longrightarrow> fs3 x = Some d"
    "\<And>d. fs3 ?c = Some d \<Longrightarrow> \<not> fl_dir d"
    by (rule init_ca_files_ok [OF g assms(2)]) (rule that; assumption)
  have kf: "fs2 ?k = Some f" and ch: "fs2 ?c = Some h" using p(2) ca(1) by simp_all
  note key = init_chown_ok [OF o kf] and crt = init_chown_ok [OF o ch]
  have mode: "fl_mode f AND octal 0 7 7 = 0" using p(5) [OF k1] octal_private by simp
  have sock: "\<exists>d. fs' ?sd = Some d \<and> fl_dir d \<and> fl_mode d = octal 7 5 0" if ne: "ni_socketDir cfg \<noteq> []"
  proof -
    obtain d where d: "fs1 ?sd = Some d" "fl_dir d" "fl_mode d = octal 7 5 0" using init_socket_ok(2) [of os cfg fs fs1] s ne by auto
    have "?sd \<noteq> ?k" using assms(5) by (auto simp: has_prefix_def)
    moreover have "?sd \<noteq> ?c" using p(6,7) d by metis
    ultimately have "fs2 ?sd = Some d" using p(2) p(6) [OF d(1)] by simp
    from init_chown_ok [OF o this] show ?thesis using d by auto
  qed
  show ?thesis using p(1,3,4) key crt mode sock by (auto simp: p)
qed


text \<open>Running it again changes neither file of the pair.\<close>

lemma init_keeps_ca:
  assumes "init_ca_dir os ce cfg fs = (None, fs')" and "x \<in> {path_join (ni_caDir cfg) ''tls.key'', path_join (ni_caDir cfg) ''tls.crt''}"
    and "fs (path_join (ni_caDir cfg) ''tls.key'') \<noteq> None" and "fs (path_join (ni_caDir cfg) ''tls.crt'') \<noteq> None" and "fs x = Some f"
  shows "\<exists>h. fs' x = Some h \<and> fl_data h = fl_data f \<and> fl_mode h = fl_mode f"
proof -
  have st: "Stat os (path_join (ni_caDir cfg) ''tls.key'') fs \<noteq> Some NotExist" "Stat os (path_join (ni_caDir cfg) ''tls.crt'') fs \<noteq> Some NotExist"
    using assms(3,4) by (auto simp: Stat_def os_try_def split: option.splits prod.splits)
  obtain fs1 where "fs1 = fs" and o: "(if ni_proxyUID cfg \<ge> 0 \<and> ni_proxyGID cfg \<ge> 0
      then and_next (must_if_exists ''failed to chown ca dir'' (path_clean (ni_caDir cfg)) (Chown os (path_clean (ni_caDir cfg)) (ni_proxyUID cfg) (ni_proxyGID cfg)))
        (must_if_exists ''failed to chown ca key'' (path_join (ni_caDir cfg) ''tls.key'') (Chown os (path_join (ni_caDir cfg) ''tls.key'') (ni_proxyUID cfg) (ni_proxyGID cfg)))
      else skip_step) fs1 = (None, fs')"
    using assms(1) st unfolding init_ca_dir_def Let_def by (elim and_next_ok) (simp add: that)
  then show ?thesis using init_chown_ok [OF o] assms(5) by blast
qed

text \<open>
  A key that was there without its certificate is overwritten, but keeps the permissions it had, however wide
  they were.
\<close>

lemma rewritten_key_keeps_mode:
  assumes "init_ca_files os ce d fs = (None, fs')" and "d \<noteq> []" and "fs (path_join d ''tls.key'') = Some h"
  shows "\<exists>f. fs' (path_join d ''tls.key'') = Some f \<and> fl_mode f = fl_mode h \<and> fl_uid f = fl_uid h"
proof -
  obtain key f g fs1 where "fs' = fs1(path_join d ''tls.crt'' \<mapsto> g, path_join d ''tls.key'' \<mapsto> f)"
    "\<And>h. fs (path_join d ''tls.key'') = Some h \<Longrightarrow> f = h\<lparr>fl_data := key\<rparr>"
    by (rule init_ca_files_ok [OF assms(1,2)]) (rule that; assumption)
  then show ?thesis using assms(3) by simp
qed

text \<open>
  After a successful run of the command the two directories have the same certificate, and a key that was not
  there before is accessible to its owner only.
\<close>

lemma WriteFile_private:
  assumes "WriteFile os p bs (octal 6 0 0) fs = (None, fs')" and "fs p = None"
  shows "\<exists>f. fs' = fs(p \<mapsto> f) \<and> fl_data f = bs \<and> fl_mode f AND octal 0 7 7 = 0"
proof -
  obtain f where "fs' = fs(p \<mapsto> f)" "fl_data f = bs" "fs p = None \<Longrightarrow> fl_mode f = octal 6 0 0 AND NOT (no_umask os)"
    by (rule WriteFile_ok [OF assms(1)]) (rule that; assumption)
  then show ?thesis using assms(2) octal_private by auto
qed

lemma write_private_ok:
  assumes "write_private os d u g cert key fs = (None, fs')" and "d \<noteq> []" and "fs (path_join d ''tls.key'') = None"
  shows "\<exists>f h. fs' (path_join d ''tls.key'') = Some f \<and> fl_data f = key \<and> fl_mode f AND octal 0 7 7 = 0 \<and>
    fs' (path_join d ''tls.crt'') = Some h \<and> fl_data h = cert"
proof -
  let ?c = "path_join d ''tls.crt''" and ?k = "path_join d ''tls.key''" and ?d = "path_clean d"
  note ca = ca_paths [OF assms(2)]
  obtain fs1 fs2 fs3 where m: "MkdirAll os ?d (octal 7 5 5) fs = (None, fs1)" and c: "WriteFile os ?c cert (octal 6 4 4) fs1 = (None, fs2)"
    and k: "WriteFile os ?k key (octal 6 0 0) fs2 = (None, fs3)"
    and o: "(if u \<noteq> -1 \<or> g \<noteq> -1 then and_next (must ''failed to chown key directory'' ?d (Chown os ?d u g))
         (must ''failed to chown private key'' ?k (Chown os ?k u g)) else skip_step) fs3 = (None, fs')"
    using assms(1) unfolding write_private_def Let_def by (elim and_next_ok) (drule must_ok, drule must_ok, drule must_ok, rule that; assumption)
  obtain h where h: "fs2 = fs1(?c \<mapsto> h)" "fl_data h = cert" by (rule WriteFile_ok [OF c]) (rule that; assumption)
  have "fs2 ?k = None" using h(1) ca(1) MkdirAll_ok(2) [OF m ca(2)] assms(3) by (metis fun_upd_other)
  then obtain f where f: "fs3 = fs2(?k \<mapsto> f)" "fl_data f = key" "fl_mode f AND octal 0 7 7 = 0" using WriteFile_private [OF k] by blast
  have fs3: "fs3 ?k = Some f" "fs3 ?c = Some h" using f(1) h(1) ca(1) by simp_all
  show ?thesis
  proof (cases "u \<noteq> -1 \<or> g \<noteq> -1")
    case True
    then obtain fs4 where "Chown os ?d u g fs3 = (None, fs4)" and k4: "Chown os ?k u g fs4 = (None, fs')"
      using o by simp (elim and_next_ok, drule must_ok, drule must_ok, rule that; assumption)
    then have fs4: "fs4 ?k = Some f" "fs4 ?c = Some h" using ca(3,4) fs3 by (auto elim!: Chown_ok)
    obtain f4 where "fs4 ?k = Some f4" "fs' = fs4(?k \<mapsto> owned u g f4)" by (rule Chown_ok [OF k4])
    then show ?thesis using fs4 ca(1) f(2,3) h(2) by simp
  next
    case False
    then show ?thesis using o fs3 f(2,3) h(2) by auto
  qed
qed

subsection \<open>Examples\<close>

definition plain_os :: node_os where
  "plain_os = \<lparr>no_fails = (\<lambda>_ _. None), no_umask = octal 0 2 2, no_uid = 0, no_gid = 0\<rparr>"

definition sample_ca :: "unit ca_env" where
  "sample_ca = \<lparr>ce_key = Inr (), ce_serial = Inr 7, ce_now = 0, ce_later = 0, ce_create = (\<lambda>_ _. Inr [1]), ce_marshal = (\<lambda>_. Inr [2]),
     ce_pem = (\<lambda>ty b. to_bytes ty @ b)\<rparr>"

definition sample_init :: nodeInitConfig where
  "sample_init = \<lparr>ni_caDir = ''/etc/ca'', ni_socketDir = ''/run/sp'', ni_proxyUID = 65532, ni_proxyGID = 65532\<rparr>"

theorem init_protects_key_witness:
  "\<exists>fs' f. initNode plain_os sample_ca sample_init (\<lambda>_. None) = (None, fs') \<and>
     fs' ''/etc/ca/tls.key'' = Some f \<and> fl_data f = to_bytes ''PRIVATE KEY'' @ [2] \<and> fl_mode f AND octal 0 7 7 = 0 \<and> fl_uid f = 65532"
proof -
  have p: "path_join ''/etc/ca'' ''tls.key'' = ''/etc/ca/tls.key''" "path_join ''/etc/ca'' ''tls.crt'' = ''/etc/ca/tls.crt''"
    "path_clean ''/etc/ca'' = ''/etc/ca''" "path_clean ''/run/sp'' = ''/run/sp''"
    by (code_simp, code_simp, code_simp, code_simp)
  have d: "parent_dirs ''/etc/ca'' = [''/etc'']" "parent_dirs ''/run/sp'' = [''/run'']" by (code_simp, code_simp)
  have g: "generateNodeCACertKey sample_ca = Inr (to_bytes ''CERTIFICATE'' @ [1], to_bytes ''PRIVATE KEY'' @ [2])"
    by (simp add: generateNodeCACertKey_def sample_ca_def fail_with_def and_then_def)
  have r: "\<exists>fs'. initNode plain_os sample_ca sample_init (\<lambda>_. None) = (None, fs')"
    by (simp add: initNode_def init_socket_dir_def init_ca_dir_def init_ca_files_def and_next_def must_def must_if_exists_def MkdirAll_def Chmod_def
        Chown_def WriteFile_def Stat_def os_try_def plain_os_def sample_init_def skip_step_def p d g Let_def)
  then obtain fs' where fs': "initNode plain_os sample_ca sample_init (\<lambda>_. None) = (None, fs')" by blast
  have cfg: "ni_caDir sample_init = ''/etc/ca''" "ni_socketDir sample_init = ''/run/sp''" "ni_proxyUID sample_init = 65532" "ni_proxyGID sample_init = 65532"
    by (simp_all add: sample_init_def)
  have n: "\<not> has_prefix ''/run/sp'' ''/etc/ca/tls.key''" by code_simp
  show ?thesis
    using init_protects_key [OF fs', unfolded cfg p g] n fs' by (auto simp: plain_os_def)
qed

end
