(* ===== verification/Spec2Isabelle.thy ===== *)
theory Spec2Isabelle
  imports Git_Server Nri_Plugin Portal_Serve Provider_Portals Node_Init
begin

text \<open>
  A verification development for service-portals, a set of Go programs that intercept the outgoing
  traffic of workloads and forward it, with credentials injected, to the upstream services that rules
  name.

  \<^bold>\<open>The program.\<close>  On a node, a plugin of the container runtime (cmd/portal-nri-plugin) gives every pod that
  opted in a set of netfilter rules that leave it only the way to the node's portal, and registers the
  pod with the portal's admin server.  The portal (pkg/portals) answers the pod's DNS queries with its own
  address (pkg/dns), ends its TLS connections with certificates it signs itself, resolves the caller
  in the table of pods, checks the pod's binding and policy, and hands the request to the proxy of
  the rule for the host (pkg/proxy), which injects the credential and relays the answer, possibly through a
  cache (pkg/cache).  The Git proxy (pkg/gitproxy) serves fetches from a store of objects it has seen.
  The provider portals run the same portal for one upstream, with a transport that logs.

  \<^bold>\<open>The theories\<close>, each with the sources it models:
  \<^item> Portal_Prelude: the packages strings, bytes, strconv, hex, binary and filepath, as far as they are used;
    sequencing of computations that fail; the order of ranges over maps (\<open>iterates\<close>).
  \<^item> Go_Net, Http_Model: the packages net and net/http (addresses; headers, requests, bodies read in
    chunks that may fail, the response writer).
  \<^item> Pod_Map (pkg/portals/podmap.go): the table of pods, with the objects its two indexes share as an explicit
    heap, and the admin API.  Invariant, refinement of a map from UIDs to pods, revocation; the
    locale \<open>binding_table\<close>.
  \<^item> Portal_Cache (pkg/cache/cache.go): the memory and the disk cache, both interpretations of the
    locale \<open>cache_store\<close>; the disk cache on a directory whose operations fail and are interrupted.
  \<^item> Http_Proxy (pkg/proxy): construction, rewriting, credential, relaying, certificates with their
    double-checked lock, the caching transport (verified against \<open>cache_store\<close>).
  \<^item> Rule_Router (pkg/portals/rules.go): rules, loading, routing, the check of the caller, attribution, TLS, and
    the matcher the DNS server asks (locale \<open>host_matcher\<close>).
  \<^item> Dns_Server (pkg/dns/server.go): queries, truncation, forwarding, TCP framing, the life of the
    listeners.
  \<^item> Portal_Run, Portal_Serve (pkg/portals/server.go): \<^verbatim>\<open>Run\<close> as far as its configuration goes, giving an error or
    a plan, and its serving phase, a state machine of admin requests, reloads, failures and
    cancellation.
  \<^item> Pod_Network (pkg/networking/ip.go), Pod_Firewall and Nri_Plugin (cmd/portal-nri-plugin/main.go): discovery of a
    pod's interface and addresses; the rules, what they do to packets, and how they are
    installed; the handlers of the plugin, its table, and its messages to the admin server.
  \<^item> Node_Init (cmd/portal-nri-plugin/init.go, cmd/init-service-portals/main.go): directories, the
    CA pair and its permissions, on an explicit file system.
  \<^item> Provider_Portals (gemini-portal, anthropic-portal, github-portal, cmd/all-in-one-portal, cmd/service-portal): the
    logging transports, interpretations of the locale \<open>logging\<close>, and the configurations.
  \<^item> Git_Protocol, Git_Packfile, Git_Repo, Git_Target, Git_Server (pkg/gitproxy, cmd/gitproxy-server): the
    pkt-line protocol, packs and deltas, the object store and its searches (locale \<open>graph_search\<close>), the
    choice of the upstream, the handler.
  \<^item> This theory: a pod from its start to its end, across the plugin, the admin API and the router.

  \<^bold>\<open>Correspondence.\<close>  A struct is a record, a function or method is a definition of the same name (with a
    prefix where two packages use the same one), an error is a value of a datatype with one
    constructor for each message, and an early return is a branch.  What a function changes is
    passed in and returned; the outside world is a type variable, changed by the transports and
    commands that are parameters.  Code outside the repository (X.509, SHA, zlib, gob, YAML, JSON, the dnsmessage codec,
    iptables, the container runtime) is a parameter, and what is relied upon is a named
    predicate with an instance in the examples: \<open>runs_netfilter\<close> for iptables, \<open>serves_admin\<close>
    for an HTTP client connected to the admin server, the laws of the digest and of zlib for packs.

  \<^bold>\<open>What is shown.\<close>  Only admitted callers reach an upstream, and only the one their host is routed to; the
    credential is replaced, not added, and not logged; a binding that was revoked stays revoked; the
    table is enforced over the life of a portal and of a pod; a started pod's packets go to the proxy or nowhere; caches
    return what was stored, while it is valid; DNS and HTTP agree on the hosts they serve;
    messages, packs and requests survive their encoding; a fetch served from the store is complete;
    searches return; private keys are private; and failures change no more than they should.  The
    lemmas whose names the list of findings quotes show where the code falls short of that.

  \<^bold>\<open>Bounds.\<close>  Times and durations are integers in nanoseconds; sizes and offsets of the pack format, file
    modes and DNS lengths have the width of the code and wrap; integers parsed from listings are checked against 64 bits.
    There is no fuel that could run out: loops are structural or carry a termination proof,
    the notification loop has the three attempts of the code, and the searches in the commit graph are partial
    functions that are proved to return on every store that ingestion can build.

  \<^bold>\<open>Not modelled.\<close>  The loops of net/http and of the NRI stub, signals, flag parsing and OpenTelemetry,
    which are libraries the programs only call; goroutine scheduling below the level of
    critical sections, which are the steps of the models; the end-to-end tests and the container they drive
    (tests), which only perform I/O against a cluster; manifests, images and scripts.
\<close>

section \<open>A pod from its start to its end\<close>

lemma added_caller:
  assumes "pm_inv pm" and "pi_UID info \<noteq> []" and "ip \<noteq> []" and "ip \<in> set (pi_IPs info)"
  shows "caller (AddOrUpdatePod info pm) ip = Some (registered (pm_abs pm (pi_UID info)) info)"
  using AddOrUpdatePod_simps [OF assms(1), of info] assms(2-4) by (simp add: caller_def GetPodByIP_def)

lemma bound_caller:
  assumes "pm_inv pm" and "caller pm ip = Some q"
  shows "caller (Bind (pi_UID q) i pol pm) ip = Some (q\<lparr>pi_Identity := i, pi_Policy := pol, pi_Bound := True\<rparr>)"
  using assms(2) pm_inv_ip [OF assms(1), of ip] Bind_simps [OF assms(1), of "pi_UID q" i pol]
  by (auto simp: caller_def GetPodByIP_def)

lemma removed_caller:
  assumes "pm_inv pm" and "caller pm ip = Some q"
  shows "caller (RemovePod (pi_UID q) pm) ip = None"
  using assms(2) pm_inv_ip [OF assms(1), of ip] by (auto simp: caller_def GetPodByIP_def RemovePod_simps)

text \<open>
  Claim C3. The life of an intercepted pod, through the plugin on its node and the portal that shares
  the pod table with it.  After RunPodSandbox started a pod the table did not know and that brings
  no policy of its own, every request from one of its addresses is answered with 403 and nothing
  is sent.  Once the pod is bound to an identity and a policy, its request to a host with a rule is
  handled by that rule's proxy exactly if the policy allows the rule for the host, and refused with
  403 otherwise.  After a StopPodSandbox that succeeded its addresses are refused again.
\<close>

theorem pod_lifecycle_enforced:
  assumes "serves_admin nenv tbl (pc_adminURL (pl_cfg p))" and "pc_adminURL (pl_cfg p) \<noteq> []" and "no_hooks p"
    and "pm_reachable (tbl w)" and "pm_abs (tbl w) (ps_Uid pod) = None" and "plain_uid (ps_Uid pod)"
    and "matchesPod (Some pod)" and "map_str (ps_Annotations pod) ''service-portal.gke.io/policy'' = []"
    and run: "RunPodSandbox nenv (Some pod) (p, w) = (None, p', w')"
    and ip: "HostWithoutPort (rq_remote r) \<noteq> []" "HostWithoutPort (rq_remote r) \<in> set (pod_ips pod (pl_pods p' (ps_Id pod)))"
    and bound: "tbl w'' = Bind (ps_Uid pod) i pol (tbl w')"
    and stop: "StopPodSandbox nenv (Some pod) (p', w'') = (None, p''', w''')"
  shows "(\<exists>msg. Router_ServeHTTP env ord (rr\<lparr>rr_podMap := Some (tbl w')\<rparr>) r s = (http_error msg 403 (fst s), snd s)) \<and>
    (\<forall>n px q. route_target ord rr (request_host r) = Some (n, px) \<longrightarrow>
       q = (pod_info pod (pl_pods p' (ps_Id pod)))\<lparr>pi_Identity := i, pi_Policy := pol, pi_Bound := True\<rparr> \<longrightarrow>
       (if IsRuleAllowed (Some q) n (request_host r)
        then \<exists>ttl r'. Router_ServeHTTP env ord (rr\<lparr>rr_podMap := Some (tbl w'')\<rparr>) r s = serve_proxy env px ttl r' s
        else \<exists>msg. Router_ServeHTTP env ord (rr\<lparr>rr_podMap := Some (tbl w'')\<rparr>) r s = (http_error msg 403 (fst s), snd s))) \<and>
    (\<exists>msg. Router_ServeHTTP env ord (rr\<lparr>rr_podMap := Some (tbl w''')\<rparr>) r s = (http_error msg 403 (fst s), snd s))"
proof -
  let ?ip = "HostWithoutPort (rq_remote r)"
  obtain st where st: "pl_pods p' (ps_Id pod) = Some st" "pl_cfg p' = pl_cfg p" "no_hooks p'"
    "tbl w' = AddOrUpdatePod (pod_info pod (Some st)) (tbl w)"
    using run_registers [OF assms(1-3,7) run] by (elim exE conjE) (rule that; assumption)
  define info where "info = pod_info pod (Some st)"
  have info: "pi_UID info = ps_Uid pod" "?ip \<in> set (pi_IPs info)" "\<not> pi_Bound info" "registered None info = info"
    using ip(2) st(1) assms(8) by (simp_all add: info_def pod_info_def registered_def zero_pod_def)
  have uid: "pi_UID info \<noteq> []" using assms(6) info(1) by (simp add: plain_uid_def)
  have inv: "pm_inv (tbl w)" by (rule pm_reachable_inv [OF assms(4)])
  have inv1: "pm_inv (tbl w')" unfolding st(4) by (rule pm_inv_AddOrUpdatePod [OF inv])
  have inv2: "pm_inv (tbl w'')" unfolding bound by (rule pm_inv_Bind [OF inv1])
  have c1: "caller (tbl w') ?ip = Some info"
    using added_caller [OF inv uid ip(1) info(2)] info(1,4) assms(5) by (simp add: st(4) info_def)
  let ?q = "info\<lparr>pi_Identity := i, pi_Policy := pol, pi_Bound := True\<rparr>"
  have c2: "caller (tbl w'') ?ip = Some ?q" using bound_caller [OF inv1 c1, of i pol] info(1) bound by simp
  have "cleanupPod nenv pod (p', w'') = (None, p''', w''')" using stop assms(7) by (simp add: StopPodSandbox_def)
  then have w3: "tbl w''' = RemovePod (ps_Uid pod) (tbl w'')"
    using cleanup_removes [of nenv tbl p' pod w''] assms(1,2,6) st(2,3) by metis
  have c3: "caller (tbl w''') ?ip = None" using removed_caller [OF inv2 c2] info(1) w3 by simp
  have target: "route_target ord (rr\<lparr>rr_podMap := m\<rparr>) h = route_target ord rr h" for m h
    by (simp add: route_target_def split: option.split)
  have deny: "\<exists>msg. Router_ServeHTTP env ord (rr\<lparr>rr_podMap := Some m\<rparr>) r s = (http_error msg 403 (fst s), snd s)"
    if "\<And>n px. route_target ord rr (request_host r) = Some (n, px) \<Longrightarrow> \<not> admitted (rr\<lparr>rr_podMap := Some m\<rparr>) ?ip n (request_host r)" for m
    by (rule Router_denies) (use that target in auto)
  have adm: "admitted (rr\<lparr>rr_podMap := Some (tbl w'')\<rparr>) ?ip n h \<longleftrightarrow> IsRuleAllowed (Some ?q) n h" for n h
    by (simp add: admitted_def c2)
  have b: "\<exists>ttl r'. Router_ServeHTTP env ord (rr\<lparr>rr_podMap := Some (tbl w'')\<rparr>) r s = serve_proxy env px ttl r' s"
    if "route_target ord rr (request_host r) = Some (n, px)" "IsRuleAllowed (Some ?q) n (request_host r)" for n px
    using Router_serves [of ord "rr\<lparr>rr_podMap := Some (tbl w'')\<rparr>" r n px env s] that adm target by metis
  have d: "\<exists>msg. Router_ServeHTTP env ord (rr\<lparr>rr_podMap := Some (tbl w'')\<rparr>) r s = (http_error msg 403 (fst s), snd s)"
    if "route_target ord rr (request_host r) = Some (n, px)" "\<not> IsRuleAllowed (Some ?q) n (request_host r)" for n px
    by (rule deny) (use that adm in simp)
  have "\<exists>msg. Router_ServeHTTP env ord (rr\<lparr>rr_podMap := Some (tbl w')\<rparr>) r s = (http_error msg 403 (fst s), snd s)"
    by (rule deny) (simp add: admitted_def c1 info(3))
  moreover have "\<exists>msg. Router_ServeHTTP env ord (rr\<lparr>rr_podMap := Some (tbl w''')\<rparr>) r s = (http_error msg 403 (fst s), snd s)"
    by (rule deny) (simp add: admitted_def c3)
  ultimately show ?thesis using b d by (simp add: st(1) info_def [symmetric])
qed

text \<open>A node where every command succeeds, with the portal's pod table as its only state.\<close>

definition quiet_env :: "PodMap plugin_env" where
  "quiet_env =
     \<lparr>pn_host = \<lparr>he_exec = (\<lambda>bin args w. (fst (he_exec sample_host bin args ()), w)),
        he_ifname = (\<lambda>n w. he_ifname sample_host n ()), he_ifaddrs = (\<lambda>w. None)\<rparr>,
      pn_stat = (\<lambda>path w. if path = ''/proc/self/ns/net'' then Inr 0 else Inr 1),
      pn_url_error = (\<lambda>_. None),
      pn_do = (\<lambda>c m u d w.
        let r = AdminHandler (admin_request m (drop 11 u) d) [] w in (Inr (admin_status (fst r), Some []), snd r)),
      pn_wait = (\<lambda>w. (None, w)), pn_count = (\<lambda>_. Some 0)\<rparr>"

lemma quiet_netfilter: "runNetfilter (pn_host quiet_env) bin cmds w = (None, w)"
  by (induction cmds) (simp_all add: quiet_env_def sample_host_def)

lemma quiet_serves: "serves_admin quiet_env (\<lambda>w. w) (pc_adminURL sample_plugin_cfg)"
proof -
  have d: "drop 11 (''http://unix'' @ path) = path" for path :: string by simp
  show ?thesis
    unfolding serves_admin_def sample_admin_url fst_conv snd_conv quiet_env_def plugin_env.select_convs Let_def d by auto
qed

lemma quiet_discover: "DiscoverPodIPs (pn_host quiet_env) [''10.8.0.4''] ''/run/netns/a'' w = (Inr (''10.8.0.4'', []), w)"
proof -
  have f: "fold take_pod_ip [''10.8.0.4''] ([], []) = (''10.8.0.4'', [])" by code_simp
  have p: "ParsePodIPv6 [] = []" by code_simp
  show ?thesis unfolding DiscoverPodIPs_def f by (simp add: nsenter_addr_def quiet_env_def sample_host_def p)
qed

lemma quiet_find: "findHostInterface quiet_env sample_sandbox ''/run/netns/a'' w = (Inr (''veth17'', ''10.8.0.4''), w)"
proof -
  have "FindHostInterface (pn_host quiet_env) [''10.8.0.4''] ''/run/netns/a'' w = (Inr (''veth17'', ''10.8.0.4''), w)"
    by (rule host_interface_found [of _ _ _ sample_links _ "sample_links ! 1", OF _ _ _ _ _ quiet_discover])
       (simp_all add: quiet_env_def sample_host_def sample_links_def link_ok_def peered_def is_space_def)
  then show ?thesis by (simp add: findHostInterface_def sample_ids)
qed

lemma quiet_notify:
  assumes "pl_cfg p = sample_plugin_cfg" and "admin_status (fst (AdminHandler (admin_request m path d) [] w)) = 200"
  shows "notifyPodUpdate quiet_env p m path d w = (None, snd (AdminHandler (admin_request m path d) [] w))"
proof -
  have e: "drop 11 (''http://unix'' @ path) = path" by simp
  have "notify_loop quiet_env cl m (''http://unix'' @ path) d (Suc 2) [] w = (None, snd (AdminHandler (admin_request m path d) [] w))" for cl
    unfolding notify_loop.simps(2) unfolding quiet_env_def plugin_env.select_convs Let_def e by (simp add: assms(2))
  then show ?thesis using assms(1) sample_admin_url by (simp add: notifyPodUpdate_def)
qed

definition sample_state :: podNetworkState where
  "sample_state = \<lparr>ns_hostInterface = ''veth17'', ns_podIP = ''10.8.0.4'', ns_podIPv6 = [], ns_isDualStack = False, ns_runtimeClass = ''runc''\<rparr>"

definition quiet_plugin :: "PodMap portalPlugin" where
  "quiet_plugin = (new_plugin sample_plugin_cfg)\<lparr>pl_pods := [''s1'' \<mapsto> sample_state],
     pl_activePods := [''ab-1'' \<mapsto> pod_info sample_sandbox (Some sample_state)]\<rparr>"

lemma quiet_run:
  "RunPodSandbox quiet_env (Some sample_sandbox) (new_plugin sample_plugin_cfg, NewPodMap) =
     (None, quiet_plugin, AddOrUpdatePod (pod_info sample_sandbox (Some sample_state)) NewPodMap)"
proof -
  let ?p = "new_plugin sample_plugin_cfg :: PodMap portalPlugin" and ?i = "pod_info sample_sandbox (Some sample_state)"
  have i: "install_rules quiet_env ?p ''veth17'' False w = (None, w)" for w
    by (simp add: install_rules_def installHostIptablesRules_def executeIptables_def runIptables_def nf_result_def new_plugin_def quiet_netfilter)
  have ns: "findNetnsPath quiet_env sample_sandbox w = Inr ''/run/netns/a''" for w
    by (simp add: findNetnsPath_def network_path_def sample_sandbox_def quiet_env_def)
  have "configurePod quiet_env sample_sandbox (?p, w) = (None, ?p\<lparr>pl_pods := [''s1'' \<mapsto> sample_state]\<rparr>, w)" for w
    using sample_netns(1) ns quiet_find quiet_discover i
    by (simp add: configurePod_def sample_ids sample_state_def) (simp add: sample_sandbox_def getRuntimeClass_def new_plugin_def)
  moreover have "admin_status (fst (AdminHandler (admin_request ''POST'' ''/api/v1/pods'' (PodPayload ?i)) [] w)) = 200" for w
    by (simp add: AdminHandler_def handle_pods_def admin_request_def admin_status_def)
  then have "notifyPodUpdate quiet_env (?p\<lparr>pl_pods := [''s1'' \<mapsto> sample_state]\<rparr>) ''POST'' ''/api/v1/pods'' (PodPayload ?i) w
      = (None, AddOrUpdatePod ?i w)" for w
    using quiet_notify [of "?p\<lparr>pl_pods := [''s1'' \<mapsto> sample_state]\<rparr>" "''POST''" "''/api/v1/pods''" "PodPayload ?i" w]
    by (simp add: new_plugin_def post_pod)
  ultimately show ?thesis
    using sample_matches sample_netns(1)
    unfolding RunPodSandbox_def quiet_plugin_def by (simp add: sample_ids) (simp add: new_plugin_def Let_def)
qed

lemma sample_plain: "plain_uid ''ab-1''"
  by code_simp

lemma quiet_stop:
  "StopPodSandbox quiet_env (Some sample_sandbox) (quiet_plugin, w) = (None, new_plugin sample_plugin_cfg, RemovePod ''ab-1'' w)"
proof -
  have r: "removeHostIptablesRules quiet_env (new_plugin sample_plugin_cfg) i w = (None, w)" for i w
    by (simp add: removeHostIptablesRules_def executeIptables_def executeIp6tables_def runIptables_def runIp6tables_def nf_result_def
        new_plugin_def quiet_netfilter)
  have p: "quiet_plugin\<lparr>pl_pods := (pl_pods quiet_plugin)(''s1'' := None), pl_activePods := (pl_activePods quiet_plugin)(''ab-1'' := None)\<rparr>
      = new_plugin sample_plugin_cfg"
    by (simp add: quiet_plugin_def new_plugin_def)
  have "admin_status (fst (AdminHandler (admin_request ''DELETE'' (''/api/v1/pods/'' @ ''ab-1'') NoPayload) [] w)) = 200"
    by (simp add: AdminHandler_def handle_pod_def admin_request_def admin_status_def has_prefix_def trim_prefix_def)
  then have n: "notifyPodUpdate quiet_env (new_plugin sample_plugin_cfg) ''DELETE'' (''/api/v1/pods/'' @ ''ab-1'') NoPayload w = (None, RemovePod ''ab-1'' w)"
    using quiet_notify [of "new_plugin sample_plugin_cfg" "''DELETE''" "''/api/v1/pods/'' @ ''ab-1''" NoPayload w]
    unfolding delete_pod [OF sample_plain] by (simp add: new_plugin_def)
  have i: "cleanup_iface quiet_env sample_sandbox (quiet_plugin, w) = (''veth17'', w)"
    by (simp add: cleanup_iface_def quiet_plugin_def sample_ids sample_state_def)
  show ?thesis
    using sample_matches n
    unfolding StopPodSandbox_def option.sel cleanupPod_def i sample_ids Let_def prod.case p r by simp
qed

lemma remote_4: "HostWithoutPort ''10.8.0.4:4000'' = ''10.8.0.4''"
  by code_simp

theorem pod_lifecycle_enforced_witness:
  "\<exists>pm. RunPodSandbox quiet_env (Some sample_sandbox) (new_plugin sample_plugin_cfg, NewPodMap) = (None, quiet_plugin, pm) \<and>
     (\<exists>msg. Router_ServeHTTP log_env [''github.com''] (github_router (Some pm)) (get_request ''github.com'' ''10.8.0.4:4000'')
        (new_writer None, (NewInMemoryCache, [])) = (http_error msg 403 (new_writer None), (NewInMemoryCache, []))) \<and>
     (\<exists>ttl r'. Router_ServeHTTP log_env [''github.com''] (github_router (Some (Bind ''ab-1'' ''alice'' ''*'' pm)))
        (get_request ''github.com'' ''10.8.0.4:4000'') (new_writer None, (NewInMemoryCache, [])) =
        serve_proxy log_env github_proxy ttl r' (new_writer None, (NewInMemoryCache, [])))"
proof -
  let ?r = "get_request ''github.com'' ''10.8.0.4:4000''" and ?s = "(new_writer None, (NewInMemoryCache, []))"
  let ?i = "pod_info sample_sandbox (Some sample_state)" let ?pm = "AddOrUpdatePod ?i NewPodMap"
  let ?bm = "Bind ''ab-1'' ''alice'' ''*'' ?pm"
  have c: "pl_cfg (new_plugin sample_plugin_cfg :: PodMap portalPlugin) = sample_plugin_cfg" "pl_pods quiet_plugin ''s1'' = Some sample_state"
    by (simp_all add: new_plugin_def quiet_plugin_def)
  have h: "HostWithoutPort (rq_remote ?r) = ''10.8.0.4''" by (simp add: get_request_def remote_4)
  have allowed: "IsRuleAllowed (Some (?i\<lparr>pi_Identity := ''alice'', pi_Policy := ''*'', pi_Bound := True\<rparr>)) n host" for n host
  proof -
    have "split_on ''*'' '','' = [''*'']" by (rule split_on_single_id) simp
    moreover have "trim_space (to_lower ''*'') = ''*''" by code_simp
    ultimately show ?thesis by (simp add: IsRuleAllowed_def del: to_lower_Cons)
  qed
  have rr: "(github_router None)\<lparr>rr_podMap := m\<rparr> = github_router m" for m by (simp add: github_router_def)
  have s: "fst ?s = new_writer None" "snd ?s = (NewInMemoryCache, [])" by simp_all
  note life = pod_lifecycle_enforced [where nenv = quiet_env and tbl = "\<lambda>w. w" and p = "new_plugin sample_plugin_cfg" and w = NewPodMap
      and pod = sample_sandbox and p' = quiet_plugin and w' = ?pm and r = ?r and w'' = ?bm and i = "''alice''"
      and pol = "''*''" and p''' = "new_plugin sample_plugin_cfg" and w''' = "RemovePod ''ab-1'' ?bm"
      and env = log_env and ord = "[''github.com'']" and rr = "github_router None" and s = ?s,
      unfolded c h rr github_host github_target sample_ids c(2) s]
  have a: "pm_abs NewPodMap ''ab-1'' = None" "map_str (\<lambda>_. None) ''service-portal.gke.io/policy'' = []"
    "''10.8.0.4'' \<in> set (pod_ips sample_sandbox (Some sample_state))" "''10.8.0.4'' \<noteq> []"
    by (simp_all add: pm_abs_def NewPodMap_def map_str_def pod_ips_def sample_ids)
  note l = life [OF quiet_serves, OF sample_admin_url(2), OF sample_hooks, OF pm_start, OF a(1), OF sample_plain, OF sample_matches,
      OF a(2), OF quiet_run, OF a(4), OF a(3), OF refl, OF quiet_stop]
  from l have "(\<exists>msg. Router_ServeHTTP log_env [''github.com''] (github_router (Some ?pm)) ?r ?s = (http_error msg 403 (new_writer None), (NewInMemoryCache, [])))"
    by (rule conjunct1)
  moreover from l [THEN conjunct2, THEN conjunct1, rule_format, OF refl, OF refl]
  have "\<exists>ttl r'. Router_ServeHTTP log_env [''github.com''] (github_router (Some ?bm)) ?r ?s = serve_proxy log_env github_proxy ttl r' ?s"
    by (simp only: allowed if_True)
  ultimately show ?thesis using quiet_run by blast
qed

end
